(* ===== verification/Prelude.thy ===== *)
theory Prelude
  imports Main "HOL-Library.Multiset"
begin

text \<open>
  Shared vocabulary of the development: the fact collections the component theories extend,
  Go's 64-bit arithmetic, and generic lemmas on the lists that stand for database tables
  (conditional row updates, look-up by key, LIMIT and OFFSET, appending a row).
\<close>

named_theorems io_simps
  "when an action of the model returns a value, when it returns an error, and with which world"
named_theorems nofault
  "what an action does when the database driver reports no failure"
named_theorems row_simps
  "effect of a statement on the rows of a table"

section \<open>Go's int64\<close>

text \<open>
  Columns and Go variables of type \<open>int64\<close> are integers. Where the code does arithmetic on
  them the two's complement wrap-around is written out with \<open>wrap64\<close>; \<open>in_int64\<close> is the range
  a value must have to be scanned from a row into an \<open>int64\<close>.
\<close>

type_synonym int64 = int

definition in_int64 :: "int \<Rightarrow> bool" where
  "in_int64 x \<longleftrightarrow> - (2 ^ 63) \<le> x \<and> x < 2 ^ 63"

definition wrap64 :: "int \<Rightarrow> int64" where
  "wrap64 x = (x + 2 ^ 63) mod 2 ^ 64 - 2 ^ 63"

lemma wrap64_id: "in_int64 x \<Longrightarrow> wrap64 x = x"
  by (simp add: in_int64_def wrap64_def)

lemma wrap64_range: "in_int64 (wrap64 x)"
proof -
  have "0 \<le> (x + 2 ^ 63) mod 2 ^ 64" and "(x + 2 ^ 63) mod 2 ^ 64 < (2 ^ 64 :: int)"
    by (simp_all only: pos_mod_sign pos_mod_bound zero_less_power zero_less_numeral)
  then show ?thesis
    by (simp add: wrap64_def in_int64_def)
qed

section \<open>Tables as lists of rows\<close>

text \<open>\<open>update_where P f\<close> is \<open>UPDATE ... SET f WHERE P\<close> on the rows of one table.\<close>

definition update_where :: "('r \<Rightarrow> bool) \<Rightarrow> ('r \<Rightarrow> 'r) \<Rightarrow> 'r list \<Rightarrow> 'r list" where
  "update_where P f rows = map (\<lambda>r. if P r then f r else r) rows"

lemma set_update_where:
  "set (update_where P f rows) = {r \<in> set rows. \<not> P r} \<union> f ` {r \<in> set rows. P r}"
  by (auto simp: update_where_def)

lemma length_update_where [simp]: "length (update_where P f rows) = length rows"
  by (simp add: update_where_def)

lemma update_where_Nil [simp]: "update_where P f [] = []"
  by (simp add: update_where_def)

lemma update_where_append [simp]:
  "update_where P f (xs @ ys) = update_where P f xs @ update_where P f ys"
  by (simp add: update_where_def)

lemma map_update_where:
  "(\<And>r. P r \<Longrightarrow> g (f r) = g r) \<Longrightarrow> map g (update_where P f rows) = map g rows"
  by (induction rows) (auto simp: update_where_def)

lemma update_where_none:
  "(\<And>r. r \<in> set rows \<Longrightarrow> \<not> P r) \<Longrightarrow> update_where P f rows = rows"
  by (induction rows) (auto simp: update_where_def)

lemma filter_update_where:
  "(\<And>r. r \<in> set rows \<Longrightarrow> P r \<Longrightarrow> Q (f r) = Q r) \<Longrightarrow>
   filter Q (update_where P f rows) = update_where P f (filter Q rows)"
  by (induction rows) (auto simp: update_where_def)

lemma in_update_whereE:
  assumes "r \<in> set (update_where P f rows)"
  obtains (kept) "r \<in> set rows" "\<not> P r"
        | (changed) r0 where "r0 \<in> set rows" "P r0" "r = f r0"
  using assms by (auto simp: set_update_where)

lemma ball_update_where:
  "(\<forall>r \<in> set (update_where P f rows). Q r) \<longleftrightarrow> (\<forall>r \<in> set rows. Q (if P r then f r else r))"
  by (auto simp: set_update_where)

text \<open>\<open>row_with key k\<close> is \<open>SELECT ... WHERE key = k\<close> on a unique key: the first such row.\<close>

definition row_with :: "('r \<Rightarrow> 'k) \<Rightarrow> 'k \<Rightarrow> 'r list \<Rightarrow> 'r option" where
  "row_with key k rows = find (\<lambda>r. key r = k) rows"

lemma row_with_Nil [simp]: "row_with key k [] = None"
  by (simp add: row_with_def)

lemma row_with_Cons [simp]:
  "row_with key k (r # rows) = (if key r = k then Some r else row_with key k rows)"
  by (simp add: row_with_def)

lemma row_with_SomeD: "row_with key k rows = Some r \<Longrightarrow> r \<in> set rows \<and> key r = k"
  by (auto simp: row_with_def find_Some_iff)

lemma row_with_None_iff: "row_with key k rows = None \<longleftrightarrow> k \<notin> key ` set rows"
  by (auto simp: row_with_def find_None_iff)

lemma row_with_Some_iff:
  "distinct (map key rows) \<Longrightarrow> row_with key k rows = Some r \<longleftrightarrow> r \<in> set rows \<and> key r = k"
  by (induction rows) (auto simp: image_iff)

lemma row_with_append:
  "row_with key k (xs @ ys) =
     (case row_with key k xs of None \<Rightarrow> row_with key k ys | Some r \<Rightarrow> Some r)"
  by (induction xs) auto

lemma row_with_update_where:
  "(\<And>r. P r \<Longrightarrow> key (f r) = key r) \<Longrightarrow>
   row_with key k (update_where P f rows) =
     map_option (\<lambda>r. if P r then f r else r) (row_with key k rows)"
  by (induction rows) (auto simp: update_where_def)

lemma filter_key_unique:
  "distinct (map key rows) \<Longrightarrow> row_with key k rows = Some r \<Longrightarrow>
   filter (\<lambda>r. key r = k) rows = [r]"
proof (induction rows)
  case (Cons r' rows)
  then show ?case
    by (cases "key r' = k") (force simp: filter_empty_conv image_iff)+
qed simp

lemma filter_key_none:
  "row_with key k rows = None \<Longrightarrow> filter (\<lambda>r. key r = k) rows = []"
  by (auto simp: row_with_None_iff filter_empty_conv)

lemma distinct_key_eq:
  "distinct (map key rows) \<Longrightarrow> r \<in> set rows \<Longrightarrow> r' \<in> set rows \<Longrightarrow> key r = key r' \<Longrightarrow> r = r'"
  by (auto simp: distinct_map dest: inj_onD)

section \<open>LIMIT and OFFSET\<close>

text \<open>A negative LIMIT is no limit and a negative OFFSET is none, as SQLite defines them.\<close>

definition sql_limit :: "int \<Rightarrow> 'r list \<Rightarrow> 'r list" where
  "sql_limit n rows = (if n < 0 then rows else take (nat n) rows)"

definition sql_offset :: "int \<Rightarrow> 'r list \<Rightarrow> 'r list" where
  "sql_offset n rows = drop (nat n) rows"

lemma set_sql_limit: "set (sql_limit n rows) \<subseteq> set rows"
  by (auto simp: sql_limit_def dest: in_set_takeD)

lemma length_sql_limit: "0 \<le> n \<Longrightarrow> length (sql_limit n rows) \<le> nat n"
  by (simp add: sql_limit_def)

lemma sql_limit_all: "int (length rows) \<le> n \<Longrightarrow> sql_limit n rows = rows"
  by (simp add: sql_limit_def nat_le_iff)

lemma distinct_sql_limit: "distinct rows \<Longrightarrow> distinct (sql_limit n rows)"
  by (simp add: sql_limit_def)

lemma sorted_map_sql_limit: "sorted (map f rows) \<Longrightarrow> sorted (map f (sql_limit n rows))"
  by (simp add: sql_limit_def take_map [symmetric] sorted_wrt_take)

end
