(* ===== verification/Models.thy ===== *)
theory Models
  imports Prelude
begin

text \<open>
  The data of \<open>internal/store/models.go\<close> and the tables of \<open>migrations/00001_init.sql\<close>: one
  record per row type, the sentinel errors with the wrapping of \<open>fmt.Errorf\<close>, and the database
  state. Nullable columns are options; the CHECK constraints on status, action and source hold
  because those columns are datatypes; the integer \<open>noindex\<close> column, which the code writes as
  0 or 1 and reads as \<open>noindex != 0\<close>, is a boolean.
\<close>

section \<open>Rows\<close>

record version_fields =
  f_title :: string
  f_body :: string
  f_meta_title :: string
  f_meta_description :: string
  f_canonical_url :: string
  f_og_image_url :: string
  f_noindex :: bool

record content_row =
  c_id :: string
  c_slug :: string
  c_current_version :: int64
  c_published_version_id :: "int64 option"
  c_published_at :: "int64 option"
  c_created_at :: int64
  c_updated_at :: int64

record version_row =
  v_id :: int64
  v_content_id :: string
  v_version :: int64
  v_created_by :: string
  v_created_at :: int64
  v_fields :: version_fields

record content_with_version =
  cv_content :: content_row
  cv_version :: version_row

datatype schedule_status =
    SchedulePending | ScheduleClaimed | ScheduleDone | ScheduleCancelled | ScheduleFailed

record schedule_row =
  s_id :: string
  s_content_id :: string
  s_version_id :: int64
  s_run_at :: int64
  s_status :: schedule_status
  s_attempts :: int64
  s_locked_by :: "string option"
  s_lock_expires_at :: "int64 option"
  s_last_error :: string
  s_created_at :: int64
  s_updated_at :: int64

datatype event_action = ActionPublish | ActionUnpublish

datatype event_source = SourceManual | SourceScheduled

record event_row =
  e_id :: int64
  e_content_id :: string
  e_version_id :: "int64 option"
  e_action :: event_action
  e_source :: event_source
  e_schedule_id :: "string option"
  e_actor :: string
  e_occurred_at :: int64

text \<open>\<open>Content.IsPublished\<close>.\<close>

definition is_published :: "content_row \<Rightarrow> bool" where
  "is_published c \<longleftrightarrow> c_published_version_id c \<noteq> None"

section \<open>The database\<close>

text \<open>
  The four tables in insertion order, and the two AUTOINCREMENT counters: the largest rowid ever
  used in \<open>content_versions\<close> and in \<open>publish_events\<close>.
\<close>

record db =
  contents :: "content_row list"
  versions :: "version_row list"
  schedules :: "schedule_row list"
  events :: "event_row list"
  version_seq :: int64
  event_seq :: int64

definition empty_db :: db where
  "empty_db = \<lparr>contents = [], versions = [], schedules = [], events = [],
               version_seq = 0, event_seq = 0\<rparr>"

section \<open>Errors\<close>

text \<open>
  SQLite's extended result codes that the statements of this program can produce themselves.
  Every other failure the driver can report (busy, disk full, I/O error, an expired context) is a
  \<open>DriverFault\<close> with its text.
\<close>

datatype sqlite_code =
    SQLITE_CONSTRAINT_UNIQUE
  | SQLITE_CONSTRAINT_PRIMARYKEY
  | SQLITE_CONSTRAINT_FOREIGNKEY
  | SQLITE_FULL

datatype go_error =
    ErrNotFound
  | ErrVersionConflict
  | ErrSlugTaken
  | ErrScheduleExists
  | ErrNotCancellable
  | ErrLeaseLost
  | ErrNoRows
  | SqliteError sqlite_code
  | DriverFault string
  | ScanError string
  | ValidationError string string
  | Wrap string go_error

text \<open>\<open>errors.Is\<close> for the sentinel values: the error itself or one it wraps.\<close>

fun error_is :: "go_error \<Rightarrow> go_error \<Rightarrow> bool" where
  "error_is (Wrap msg e) target = (Wrap msg e = target \<or> error_is e target)"
| "error_is e target = (e = target)"

text \<open>\<open>content.AsValidationError\<close>: the field and message of a validation error in the chain.\<close>

fun as_validation_error :: "go_error \<Rightarrow> (string \<times> string) option" where
  "as_validation_error (ValidationError fld msg) = Some (fld, msg)"
| "as_validation_error (Wrap msg e) = as_validation_error e"
| "as_validation_error e = None"

text \<open>
  \<open>err.Error()\<close>. The text of an error that comes from the driver itself is the driver's:
  a parameter.
\<close>

fun error_text :: "(sqlite_code \<Rightarrow> string) \<Rightarrow> go_error \<Rightarrow> string" where
  "error_text drv ErrNotFound = ''not found''"
| "error_text drv ErrVersionConflict = ''version conflict''"
| "error_text drv ErrSlugTaken = ''slug already in use''"
| "error_text drv ErrScheduleExists = ''content already has an active schedule''"
| "error_text drv ErrNotCancellable = ''schedule is no longer cancellable''"
| "error_text drv ErrLeaseLost = ''lease lost to another worker''"
| "error_text drv ErrNoRows = ''sql: no rows in result set''"
| "error_text drv (SqliteError c) = drv c"
| "error_text drv (DriverFault msg) = msg"
| "error_text drv (ScanError msg) = msg"
| "error_text drv (ValidationError fld msg) = fld @ '': '' @ msg"
| "error_text drv (Wrap msg e) = msg @ '': '' @ error_text drv e"

text \<open>\<open>store.IsUniqueViolation\<close>.\<close>

fun is_unique_violation :: "go_error \<Rightarrow> bool" where
  "is_unique_violation (SqliteError c) =
     (c = SQLITE_CONSTRAINT_UNIQUE \<or> c = SQLITE_CONSTRAINT_PRIMARYKEY)"
| "is_unique_violation (Wrap msg e) = is_unique_violation e"
| "is_unique_violation e = False"

end
