(* ===== verification/Sql.thy ===== *)
theory Sql
  imports Models
begin

text \<open>
  The database handle of \<open>internal/store\<close>: actions on a world, the statements and rows of
  \<open>database/sql\<close>, and the transaction helpers of \<open>tx.go\<close>.

  A world holds the committed tables, the failures the driver is still going to report, one entry
  per driver call (\<open>None\<close>: this call succeeds; the empty list: no call fails any more), and the
  readings of the clock. Theorems quantify over the failures, so they cover a driver that fails at
  any call: begin, each statement, each result access, commit.
\<close>

section \<open>Actions\<close>

record world =
  tables :: db
  faults :: "string option list"
  clock_now :: int
  clock_later :: "int list"

type_synonym 'a io = "world \<Rightarrow> (go_error + 'a) \<times> world"

definition io_return :: "'a \<Rightarrow> 'a io" where
  "io_return x w = (Inr x, w)"

definition io_throw :: "go_error \<Rightarrow> 'a io" where
  "io_throw e w = (Inl e, w)"

definition io_bind :: "'a io \<Rightarrow> ('a \<Rightarrow> 'b io) \<Rightarrow> 'b io" where
  "io_bind m k w = (case m w of (Inl e, w1) \<Rightarrow> (Inl e, w1) | (Inr x, w1) \<Rightarrow> k x w1)"

text \<open>\<open>io_catch m h\<close> is Go's \<open>if err != nil { ... }\<close> after a call that has failed.\<close>

definition io_catch :: "'a io \<Rightarrow> (go_error \<Rightarrow> 'a io) \<Rightarrow> 'a io" where
  "io_catch m h w = (case m w of (Inl e, w1) \<Rightarrow> h e w1 | (Inr x, w1) \<Rightarrow> (Inr x, w1))"

definition map_err :: "(go_error \<Rightarrow> go_error) \<Rightarrow> 'a io \<Rightarrow> 'a io" where
  "map_err g m = io_catch m (\<lambda>e. io_throw (g e))"

text \<open>\<open>io_map f xs\<close> is the loop that appends \<open>f x\<close> for each \<open>x\<close> and stops at the first error.\<close>

fun io_map :: "('a \<Rightarrow> 'b io) \<Rightarrow> 'a list \<Rightarrow> 'b list io" where
  "io_map f [] = io_return []"
| "io_map f (x # xs) =
     io_bind (f x) (\<lambda>y. io_bind (io_map f xs) (\<lambda>ys. io_return (y # ys)))"

lemma io_return_eq [io_simps, nofault]:
  "io_return x w = (r, w') \<longleftrightarrow> r = Inr x \<and> w' = w"
  by (auto simp: io_return_def)

lemma io_throw_eq [io_simps, nofault]:
  "io_throw e w = (r, w') \<longleftrightarrow> r = Inl e \<and> w' = w"
  by (auto simp: io_throw_def)

lemma io_bind_Inr [io_simps]:
  "io_bind m k w = (Inr y, w') \<longleftrightarrow> (\<exists>x w1. m w = (Inr x, w1) \<and> k x w1 = (Inr y, w'))"
  by (auto simp: io_bind_def split: prod.splits sum.splits)

lemma io_bind_Inl:
  "io_bind m k w = (Inl e, w') \<longleftrightarrow>
   m w = (Inl e, w') \<or> (\<exists>x w1. m w = (Inr x, w1) \<and> k x w1 = (Inl e, w'))"
  by (auto simp: io_bind_def split: prod.splits sum.splits)

lemma map_err_Inr [io_simps]: "map_err g m w = (Inr x, w') \<longleftrightarrow> m w = (Inr x, w')"
  by (auto simp: map_err_def io_catch_def io_throw_def split: prod.splits sum.splits)

lemma map_err_Inl:
  "map_err g m w = (Inl e, w') \<longleftrightarrow> (\<exists>e0. m w = (Inl e0, w') \<and> e = g e0)"
  by (auto simp: map_err_def io_catch_def io_throw_def split: prod.splits sum.splits)

lemma io_bind_return [nofault]: "m w = (Inr x, w1) \<Longrightarrow> io_bind m k w = k x w1"
  by (simp add: io_bind_def)

lemma io_bind_fail [nofault]: "m w = (Inl e, w1) \<Longrightarrow> io_bind m k w = (Inl e, w1)"
  by (simp add: io_bind_def)

section \<open>Calls of the driver\<close>

definition next_fault :: "world \<Rightarrow> string option \<times> world" where
  "next_fault w =
     (case faults w of [] \<Rightarrow> (None, w) | f # fs \<Rightarrow> (f, w\<lparr>faults := fs\<rparr>))"

text \<open>A driver call that hands over a value already computed: \<open>RowsAffected\<close>,
  \<open>LastInsertId\<close>, \<open>rows.Err\<close>.\<close>

definition driver_call :: "'a \<Rightarrow> 'a io" where
  "driver_call x w =
     (case next_fault w of
        (Some msg, w1) \<Rightarrow> (Inl (DriverFault msg), w1)
      | (None, w1) \<Rightarrow> (Inr x, w1))"

text \<open>
  One SQL statement, \<open>Exec\<close> or \<open>Query\<close>: it fails in the driver and changes nothing, or violates
  a constraint and changes nothing, or yields its result and the new tables.
\<close>

definition sql_stmt :: "(db \<Rightarrow> sqlite_code + ('a \<times> db)) \<Rightarrow> 'a io" where
  "sql_stmt st w =
     (case next_fault w of
        (Some msg, w1) \<Rightarrow> (Inl (DriverFault msg), w1)
      | (None, w1) \<Rightarrow>
          (case st (tables w1) of
             Inl c \<Rightarrow> (Inl (SqliteError c), w1)
           | Inr (x, d) \<Rightarrow> (Inr x, w1\<lparr>tables := d\<rparr>)))"

definition sql_query :: "(db \<Rightarrow> 'a) \<Rightarrow> 'a io" where
  "sql_query q = sql_stmt (\<lambda>d. Inr (q d, d))"

text \<open>\<open>QueryRow(...).Scan(...)\<close>: no row is \<open>sql.ErrNoRows\<close>.\<close>

definition query_row :: "(db \<Rightarrow> 'a option) \<Rightarrow> 'a io" where
  "query_row q =
     io_bind (sql_query q)
       (\<lambda>row. case row of None \<Rightarrow> io_throw ErrNoRows | Some x \<Rightarrow> io_return x)"

lemma next_fault_tables: "next_fault w = (r, w') \<Longrightarrow> tables w' = tables w"
  by (auto simp: next_fault_def split: list.splits)

lemma next_fault_none [nofault]: "faults w = [] \<Longrightarrow> next_fault w = (None, w)"
  by (simp add: next_fault_def)

lemma driver_call_Inr [io_simps]:
  "driver_call x w = (Inr y, w') \<longleftrightarrow> y = x \<and> next_fault w = (None, w')"
  by (auto simp: driver_call_def split: prod.splits option.splits)

lemma driver_call_Inl:
  "driver_call x w = (Inl e, w') \<longleftrightarrow> (\<exists>msg. next_fault w = (Some msg, w') \<and> e = DriverFault msg)"
  by (auto simp: driver_call_def split: prod.splits option.splits)

lemma sql_stmt_Inr [io_simps]:
  "sql_stmt st w = (Inr x, w') \<longleftrightarrow>
   (\<exists>w1 d. next_fault w = (None, w1) \<and> st (tables w) = Inr (x, d) \<and> w' = w1\<lparr>tables := d\<rparr>)"
  by (auto simp: sql_stmt_def next_fault_tables
      split: prod.splits option.splits sum.splits)

lemma sql_query_Inr [io_simps]:
  "sql_query q w = (Inr x, w') \<longleftrightarrow> next_fault w = (None, w') \<and> x = q (tables w)"
  using next_fault_tables [of w None] by (auto simp: sql_query_def sql_stmt_Inr)

lemma query_row_Inr [io_simps]:
  "query_row q w = (Inr x, w') \<longleftrightarrow> next_fault w = (None, w') \<and> q (tables w) = Some x"
  by (auto simp: query_row_def io_simps split: option.splits)

lemma sql_stmt_nofault [nofault]:
  "faults w = [] \<Longrightarrow>
   sql_stmt st w =
     (case st (tables w) of
        Inl c \<Rightarrow> (Inl (SqliteError c), w)
      | Inr (x, d) \<Rightarrow> (Inr x, w\<lparr>tables := d\<rparr>))"
  by (simp add: sql_stmt_def nofault)

lemma driver_call_nofault [nofault]: "faults w = [] \<Longrightarrow> driver_call x w = (Inr x, w)"
  by (simp add: driver_call_def nofault)

lemma sql_query_nofault [nofault]: "faults w = [] \<Longrightarrow> sql_query q w = (Inr (q (tables w)), w)"
  by (simp add: sql_query_def nofault)

lemma query_row_nofault [nofault]:
  "faults w = [] \<Longrightarrow>
   query_row q w = (case q (tables w) of None \<Rightarrow> Inl ErrNoRows | Some x \<Rightarrow> Inr x, w)"
  by (simp add: query_row_def io_bind_def nofault io_throw_def io_return_def split: option.splits)

lemma map_err_nofault [nofault]:
  "m w = (r, w1) \<Longrightarrow> map_err g m w = (case r of Inl e \<Rightarrow> Inl (g e) | Inr x \<Rightarrow> Inr x, w1)"
  by (simp add: map_err_def io_catch_def io_throw_def split: sum.splits)

section \<open>Transactions\<close>

text \<open>
  \<open>DB.Tx\<close>: begin, run the body, commit; on an error of any of the three the transaction is rolled
  back, so the tables are the ones it began with. \<open>BEGIN IMMEDIATE\<close> on a pool of one connection
  makes a transaction one step of the world. (No body of this program panics, the other path on
  which the code rolls back.)
\<close>

definition db_tx :: "'a io \<Rightarrow> 'a io" where
  "db_tx body w =
     (case map_err (Wrap ''begin transaction'') (driver_call ()) w of
        (Inl e, w1) \<Rightarrow> (Inl e, w1)
      | (Inr _, w1) \<Rightarrow>
          (case io_bind body (\<lambda>x. map_err (Wrap ''commit transaction'') (driver_call x)) w1 of
             (Inl e, w2) \<Rightarrow> (Inl e, w2\<lparr>tables := tables w\<rparr>)
           | (Inr x, w2) \<Rightarrow> (Inr x, w2)))"

text \<open>\<open>DB.ReadTx\<close>: several queries on one snapshot, always rolled back.\<close>

definition db_read_tx :: "unit io \<Rightarrow> unit io" where
  "db_read_tx body w =
     (case map_err (Wrap ''begin read transaction'') (driver_call ()) w of
        (Inl e, w1) \<Rightarrow> (Inl e, w1)
      | (Inr _, w1) \<Rightarrow> (case body w1 of (r, w2) \<Rightarrow> (r, w2\<lparr>tables := tables w\<rparr>)))"

lemma db_tx_Inr [io_simps]:
  "db_tx body w = (Inr x, w') \<longleftrightarrow>
   (\<exists>w1 w2. next_fault w = (None, w1) \<and> body w1 = (Inr x, w2) \<and> next_fault w2 = (None, w'))"
  by (cases "next_fault w")
    (auto simp: db_tx_def io_bind_def map_err_def io_catch_def io_throw_def driver_call_def
      split: prod.splits sum.splits option.splits)

lemma db_tx_Inl_tables: "db_tx body w = (Inl e, w') \<Longrightarrow> tables w' = tables w"
  by (auto simp: db_tx_def map_err_Inl driver_call_def dest: next_fault_tables
      split: prod.splits sum.splits option.splits)

lemma db_tx_nofault [nofault]:
  assumes "faults w = []" and "body w = (r, w2)" and "faults w2 = []"
  shows "db_tx body w = (case r of Inl e \<Rightarrow> (Inl e, w2\<lparr>tables := tables w\<rparr>) | Inr x \<Rightarrow> (Inr x, w2))"
  using assms by (simp add: db_tx_def nofault io_bind_def split: sum.splits)

section \<open>Actions that do not write\<close>

text \<open>An action is read-only when it leaves the tables as they are, whatever its result.\<close>

definition readonly :: "'a io \<Rightarrow> bool" where
  "readonly m \<longleftrightarrow> (\<forall>w. tables (snd (m w)) = tables w)"

named_theorems readonly_intros "actions that leave the tables unchanged"

lemma readonlyD: "readonly m \<Longrightarrow> m w = (r, w') \<Longrightarrow> tables w' = tables w"
  by (metis readonly_def snd_conv)

lemma readonly_return [readonly_intros]: "readonly (io_return x)"
  by (simp add: readonly_def io_return_def)

lemma readonly_throw [readonly_intros]: "readonly (io_throw e)"
  by (simp add: readonly_def io_throw_def)

lemma readonly_bind [readonly_intros]:
  "readonly m \<Longrightarrow> (\<And>x. readonly (k x)) \<Longrightarrow> readonly (io_bind m k)"
  by (auto simp: readonly_def io_bind_def split: prod.splits sum.splits) (metis snd_conv)+

lemma readonly_catch [readonly_intros]:
  "readonly m \<Longrightarrow> (\<And>e. readonly (h e)) \<Longrightarrow> readonly (io_catch m h)"
  by (auto simp: readonly_def io_catch_def split: prod.splits sum.splits) (metis snd_conv)+

lemma readonly_map_err [readonly_intros]: "readonly m \<Longrightarrow> readonly (map_err g m)"
  by (simp add: map_err_def readonly_intros)

lemma readonly_driver_call [readonly_intros]: "readonly (driver_call x)"
  by (auto simp: readonly_def driver_call_def dest: next_fault_tables
      split: prod.splits option.splits)

lemma readonly_sql_query [readonly_intros]: "readonly (sql_query q)"
  by (auto simp: readonly_def sql_query_def sql_stmt_def dest: next_fault_tables
      split: prod.splits option.splits)

lemma readonly_query_row [readonly_intros]: "readonly (query_row q)"
  by (auto simp: query_row_def intro!: readonly_intros split: option.split)

lemma readonly_io_map [readonly_intros]: "(\<And>x. readonly (f x)) \<Longrightarrow> readonly (io_map f xs)"
  by (induction xs) (auto intro!: readonly_intros)

lemma readonly_if [readonly_intros]: "readonly m \<Longrightarrow> readonly n \<Longrightarrow> readonly (if b then m else n)"
  by simp

lemma readonly_read_tx: "readonly (db_read_tx body)"
  by (auto simp: readonly_def db_read_tx_def map_err_Inl driver_call_def dest: next_fault_tables
      split: prod.splits sum.splits option.splits)

section \<open>Atomic actions\<close>

text \<open>
  An action is atomic when an error means that nothing was written. A transaction is, and so is a
  sequence of reads with one transaction at its end.
\<close>

definition atomic :: "'a io \<Rightarrow> bool" where
  "atomic m \<longleftrightarrow> (\<forall>w e w'. m w = (Inl e, w') \<longrightarrow> tables w' = tables w)"

named_theorems atomic_intros "actions that write nothing when they fail"

lemma atomicD: "atomic m \<Longrightarrow> m w = (Inl e, w') \<Longrightarrow> tables w' = tables w"
  by (simp add: atomic_def)

lemma atomic_readonly: "readonly m \<Longrightarrow> atomic m"
  by (auto simp: atomic_def dest: readonlyD)

lemma atomic_tx [atomic_intros]: "atomic (db_tx body)"
  by (auto simp: atomic_def dest: db_tx_Inl_tables)

lemma atomic_read_then [atomic_intros]:
  assumes "readonly m" "\<And>x. atomic (k x)"
  shows "atomic (io_bind m k)"
  using assms by (auto simp: atomic_def io_bind_Inl dest: readonlyD)

lemma atomic_return [atomic_intros]: "atomic (io_return x)"
  by (rule atomic_readonly) (rule readonly_return)

lemma atomic_throw [atomic_intros]: "atomic (io_throw e)"
  by (rule atomic_readonly) (rule readonly_throw)

lemma atomic_if [atomic_intros]: "atomic m \<Longrightarrow> atomic n \<Longrightarrow> atomic (if b then m else n)"
  by simp

text \<open>The rule for what an atomic action keeps of the tables: look at its success only.\<close>

lemma atomic_keeps:
  assumes "atomic m" "P (tables w)" "\<And>x w'. m w = (Inr x, w') \<Longrightarrow> P (tables w')"
  shows "P (tables (snd (m w)))"
proof (cases "m w")
  case (Pair r w')
  with assms show ?thesis
    by (cases r) (auto dest: atomicD)
qed

section \<open>Invariants of the tables\<close>

text \<open>\<open>keeps I m\<close>: the action keeps the property \<open>I\<close> of the tables, whether it fails or not.\<close>

definition keeps :: "(db \<Rightarrow> bool) \<Rightarrow> 'a io \<Rightarrow> bool" where
  "keeps I m \<longleftrightarrow> (\<forall>w. I (tables w) \<longrightarrow> I (tables (snd (m w))))"

named_theorems keeps_intros "actions that keep a property of the tables"

lemma keepsD: "keeps I m \<Longrightarrow> I (tables w) \<Longrightarrow> I (tables (snd (m w)))"
  by (simp add: keeps_def)

lemma keeps_readonly: "readonly m \<Longrightarrow> keeps I m"
  by (simp add: keeps_def readonly_def)

lemma keeps_bind [keeps_intros]:
  "keeps I m \<Longrightarrow> (\<And>x. keeps I (k x)) \<Longrightarrow> keeps I (io_bind m k)"
  by (fastforce simp: keeps_def io_bind_def split: prod.split sum.split)

lemma keeps_catch [keeps_intros]:
  "keeps I m \<Longrightarrow> (\<And>e. keeps I (h e)) \<Longrightarrow> keeps I (io_catch m h)"
  by (fastforce simp: keeps_def io_catch_def split: prod.split sum.split)

lemma keeps_return [keeps_intros]: "keeps I (io_return x)"
  by (rule keeps_readonly) (rule readonly_return)

lemma keeps_throw [keeps_intros]: "keeps I (io_throw e)"
  by (rule keeps_readonly) (rule readonly_throw)

lemma keeps_if [keeps_intros]: "keeps I m \<Longrightarrow> keeps I n \<Longrightarrow> keeps I (if b then m else n)"
  by simp

end
