(* ===== verification/Tables.thy ===== *)
theory Tables
  imports Sql
begin

text \<open>
  The statements the program issues against the tables of \<open>migrations/00001_init.sql\<close>: row
  inserts and conditional updates with the constraints the migration declares (primary keys,
  UNIQUE, the two partial unique indexes, foreign keys, AUTOINCREMENT). The locale \<open>table\<close> is what
  the store relies on from an insert; each of the four inserts is an interpretation.
\<close>

section \<open>contents\<close>

text \<open>The foreign key of \<open>published_version_id\<close>: NULL or the id of an existing version.\<close>

definition version_fk :: "int64 option \<Rightarrow> db \<Rightarrow> bool" where
  "version_fk ref d = (case ref of None \<Rightarrow> True | Some vid \<Rightarrow> vid \<in> v_id ` set (versions d))"

definition insert_content :: "content_row \<Rightarrow> db \<Rightarrow> sqlite_code + (unit \<times> db)" where
  "insert_content c d =
     (if c_id c \<in> c_id ` set (contents d) then Inl SQLITE_CONSTRAINT_PRIMARYKEY
      else if c_slug c \<in> c_slug ` set (contents d) then Inl SQLITE_CONSTRAINT_UNIQUE
      else if \<not> version_fk (c_published_version_id c) d then Inl SQLITE_CONSTRAINT_FOREIGNKEY
      else Inr ((), d\<lparr>contents := contents d @ [c]\<rparr>))"

text \<open>
  \<open>UPDATE contents SET f WHERE P\<close>; the result is the number of affected rows. No statement of the
  program changes an id or a slug, so of the constraints only the foreign key of a changed pointer
  can fail.
\<close>

definition update_contents ::
    "(content_row \<Rightarrow> bool) \<Rightarrow> (content_row \<Rightarrow> content_row) \<Rightarrow> db \<Rightarrow> sqlite_code + (nat \<times> db)" where
  "update_contents P f d =
     (if list_all (\<lambda>c. P c \<and> c_published_version_id (f c) \<noteq> c_published_version_id c \<longrightarrow>
                       version_fk (c_published_version_id (f c)) d) (contents d)
      then Inr (length (filter P (contents d)), d\<lparr>contents := update_where P f (contents d)\<rparr>)
      else Inl SQLITE_CONSTRAINT_FOREIGNKEY)"

section \<open>content\_versions\<close>

text \<open>AUTOINCREMENT: the new rowid is above every rowid ever used, or the insert fails.\<close>

definition max_rowid :: int64 where
  "max_rowid = 9223372036854775807"

definition insert_version_row :: "version_row \<Rightarrow> db \<Rightarrow> sqlite_code + (int64 \<times> db)" where
  "insert_version_row v d =
     (if version_seq d \<ge> max_rowid then Inl SQLITE_FULL
      else if (v_content_id v, v_version v)
              \<in> (\<lambda>r. (v_content_id r, v_version r)) ` set (versions d)
        then Inl SQLITE_CONSTRAINT_UNIQUE
      else if v_content_id v \<notin> c_id ` set (contents d) then Inl SQLITE_CONSTRAINT_FOREIGNKEY
      else Inr (version_seq d + 1,
                d\<lparr>versions := versions d @ [v\<lparr>v_id := version_seq d + 1\<rparr>],
                  version_seq := version_seq d + 1\<rparr>))"

section \<open>publish\_schedules\<close>

text \<open>The partial unique index \<open>ux_schedule_active_per_content\<close>.\<close>

definition schedule_active :: "schedule_row \<Rightarrow> bool" where
  "schedule_active s \<longleftrightarrow> s_status s = SchedulePending \<or> s_status s = ScheduleClaimed"

definition active_unique :: "schedule_row list \<Rightarrow> bool" where
  "active_unique rows \<longleftrightarrow> distinct (map s_content_id (filter schedule_active rows))"

definition insert_schedule :: "schedule_row \<Rightarrow> db \<Rightarrow> sqlite_code + (unit \<times> db)" where
  "insert_schedule s d =
     (if s_id s \<in> s_id ` set (schedules d) then Inl SQLITE_CONSTRAINT_PRIMARYKEY
      else if \<not> active_unique (schedules d @ [s]) then Inl SQLITE_CONSTRAINT_UNIQUE
      else if s_content_id s \<notin> c_id ` set (contents d) \<or> \<not> version_fk (Some (s_version_id s)) d
        then Inl SQLITE_CONSTRAINT_FOREIGNKEY
      else Inr ((), d\<lparr>schedules := schedules d @ [s]\<rparr>))"

definition update_schedules ::
    "(schedule_row \<Rightarrow> bool) \<Rightarrow> (schedule_row \<Rightarrow> schedule_row) \<Rightarrow> db \<Rightarrow> sqlite_code + (nat \<times> db)"
  where
  "update_schedules P f d =
     (let rows = update_where P f (schedules d)
      in if active_unique rows
         then Inr (length (filter P (schedules d)), d\<lparr>schedules := rows\<rparr>)
         else Inl SQLITE_CONSTRAINT_UNIQUE)"

section \<open>publish\_events\<close>

text \<open>The partial unique index \<open>ux_event_per_schedule\<close> covers the rows with a schedule id.\<close>

definition insert_event :: "event_row \<Rightarrow> db \<Rightarrow> sqlite_code + (int64 \<times> db)" where
  "insert_event e d =
     (if event_seq d \<ge> max_rowid then Inl SQLITE_FULL
      else if e_schedule_id e \<noteq> None \<and> e_schedule_id e \<in> e_schedule_id ` set (events d)
        then Inl SQLITE_CONSTRAINT_UNIQUE
      else if e_content_id e \<notin> c_id ` set (contents d) \<or> \<not> version_fk (e_version_id e) d
        then Inl SQLITE_CONSTRAINT_FOREIGNKEY
      else Inr (event_seq d + 1,
                d\<lparr>events := events d @ [e\<lparr>e_id := event_seq d + 1\<rparr>],
                  event_seq := event_seq d + 1\<rparr>))"

section \<open>What an insert promises\<close>

text \<open>
  A table with a key column: a successful insert appends exactly one row, whose key is new as long
  as the table invariant (for the AUTOINCREMENT tables: no id is above the counter) holds.
\<close>

locale table =
  fixes inv :: "'d \<Rightarrow> bool"
    and rows :: "'d \<Rightarrow> 'r list"
    and key :: "'r \<Rightarrow> 'k"
    and new :: "'a \<Rightarrow> 'd \<Rightarrow> 'r"
    and ins :: "'a \<Rightarrow> 'd \<Rightarrow> 'e + ('x \<times> 'd)"
  assumes ins_rows: "ins a d = Inr (x, d') \<Longrightarrow> rows d' = rows d @ [new a d]"
    and ins_fresh: "ins a d = Inr (x, d') \<Longrightarrow> inv d \<Longrightarrow> key (new a d) \<notin> key ` set (rows d)"
begin

lemma ins_distinct:
  "ins a d = Inr (x, d') \<Longrightarrow> inv d \<Longrightarrow> distinct (map key (rows d)) \<Longrightarrow>
   distinct (map key (rows d'))"
  by (simp add: ins_rows ins_fresh)

lemma ins_select:
  "ins a d = Inr (x, d') \<Longrightarrow> inv d \<Longrightarrow>
   row_with key k (rows d') =
     (if k = key (new a d) then Some (new a d) else row_with key k (rows d))"
  using ins_fresh [of a d x d'] ins_rows [of a d x d']
    row_with_None_iff [of key "key (new a d)" "rows d"]
  by (auto simp: row_with_append split: option.split)

lemma ins_keeps:
  "ins a d = Inr (x, d') \<Longrightarrow> inv d \<Longrightarrow> row_with key k (rows d) = Some r \<Longrightarrow>
   row_with key k (rows d') = Some r"
  by (simp add: ins_rows row_with_append)

end

definition version_ids_ok :: "db \<Rightarrow> bool" where
  "version_ids_ok d \<longleftrightarrow> (\<forall>v \<in> set (versions d). v_id v \<le> version_seq d)"

definition event_ids_ok :: "db \<Rightarrow> bool" where
  "event_ids_ok d \<longleftrightarrow> (\<forall>e \<in> set (events d). e_id e \<le> event_seq d)"

lemma insert_content_Inr [row_simps]:
  "insert_content c d = Inr (x, d') \<longleftrightarrow>
   c_id c \<notin> c_id ` set (contents d) \<and> c_slug c \<notin> c_slug ` set (contents d) \<and>
   version_fk (c_published_version_id c) d \<and> d' = d\<lparr>contents := contents d @ [c]\<rparr>"
  by (auto simp: insert_content_def)

lemma update_contents_Inr [row_simps]:
  "update_contents P f d = Inr (n, d') \<longleftrightarrow>
   (\<forall>c \<in> set (contents d). P c \<and> c_published_version_id (f c) \<noteq> c_published_version_id c \<longrightarrow>
      version_fk (c_published_version_id (f c)) d) \<and>
   n = length (filter P (contents d)) \<and> d' = d\<lparr>contents := update_where P f (contents d)\<rparr>"
  by (auto simp: update_contents_def list_all_iff)

lemma insert_version_row_Inr [row_simps]:
  "insert_version_row v d = Inr (n, d') \<longleftrightarrow>
   version_seq d < max_rowid \<and>
   (v_content_id v, v_version v) \<notin> (\<lambda>r. (v_content_id r, v_version r)) ` set (versions d) \<and>
   v_content_id v \<in> c_id ` set (contents d) \<and> n = version_seq d + 1 \<and>
   d' = d\<lparr>versions := versions d @ [v\<lparr>v_id := version_seq d + 1\<rparr>],
          version_seq := version_seq d + 1\<rparr>"
  by (auto simp: insert_version_row_def)

lemma insert_schedule_Inr [row_simps]:
  "insert_schedule s d = Inr (x, d') \<longleftrightarrow>
   s_id s \<notin> s_id ` set (schedules d) \<and> active_unique (schedules d @ [s]) \<and>
   s_content_id s \<in> c_id ` set (contents d) \<and> version_fk (Some (s_version_id s)) d \<and>
   d' = d\<lparr>schedules := schedules d @ [s]\<rparr>"
  by (auto simp: insert_schedule_def)

lemma update_schedules_Inr [row_simps]:
  "update_schedules P f d = Inr (n, d') \<longleftrightarrow>
   active_unique (update_where P f (schedules d)) \<and> n = length (filter P (schedules d)) \<and>
   d' = d\<lparr>schedules := update_where P f (schedules d)\<rparr>"
  by (auto simp: update_schedules_def Let_def)

lemma insert_event_Inr [row_simps]:
  "insert_event e d = Inr (n, d') \<longleftrightarrow>
   event_seq d < max_rowid \<and>
   (e_schedule_id e = None \<or> e_schedule_id e \<notin> e_schedule_id ` set (events d)) \<and>
   e_content_id e \<in> c_id ` set (contents d) \<and> version_fk (e_version_id e) d \<and>
   n = event_seq d + 1 \<and>
   d' = d\<lparr>events := events d @ [e\<lparr>e_id := event_seq d + 1\<rparr>], event_seq := event_seq d + 1\<rparr>"
  by (auto simp: insert_event_def)

interpretation content_table:
  table "\<lambda>_. True" contents c_id "\<lambda>c _. c" insert_content
  by unfold_locales (auto simp: row_simps)

interpretation content_slug_table:
  table "\<lambda>_. True" contents c_slug "\<lambda>c _. c" insert_content
  by unfold_locales (auto simp: row_simps)

interpretation version_table:
  table version_ids_ok versions v_id "\<lambda>v d. v\<lparr>v_id := version_seq d + 1\<rparr>" insert_version_row
  by unfold_locales (auto simp: row_simps version_ids_ok_def)

interpretation schedule_table:
  table "\<lambda>_. True" schedules s_id "\<lambda>s _. s" insert_schedule
  by unfold_locales (auto simp: row_simps)

interpretation event_table:
  table event_ids_ok events e_id "\<lambda>e d. e\<lparr>e_id := event_seq d + 1\<rparr>" insert_event
  by unfold_locales (auto simp: row_simps event_ids_ok_def)

section \<open>The partial index on active schedules\<close>

lemma active_unique_append:
  "active_unique (rows @ [s]) \<longleftrightarrow>
   active_unique rows \<and>
   (schedule_active s \<longrightarrow> s_content_id s \<notin> s_content_id ` set (filter schedule_active rows))"
  by (auto simp: active_unique_def)

text \<open>An update that keeps content ids and makes no finished schedule active again keeps the
  index.\<close>

lemma active_unique_update_where:
  assumes "active_unique rows"
    and "\<And>s. s \<in> set rows \<Longrightarrow> P s \<Longrightarrow>
           s_content_id (f s) = s_content_id s \<and> (schedule_active (f s) \<longrightarrow> schedule_active s)"
  shows "active_unique (update_where P f rows)"
proof -
  have "distinct (map s_content_id (filter schedule_active (update_where P f rows))) \<and>
        s_content_id ` set (filter schedule_active (update_where P f rows)) \<subseteq>
        s_content_id ` set (filter schedule_active rows)"
    using assms
  proof (induction rows)
    case Nil
    then show ?case by simp
  next
    case (Cons s rows)
    from Cons.prems(1) have "active_unique rows"
      by (auto simp: active_unique_def split: if_splits)
    with Cons.IH Cons.prems(2) have
      IH: "distinct (map s_content_id (filter schedule_active (update_where P f rows)))"
          "s_content_id ` set (filter schedule_active (update_where P f rows)) \<subseteq>
           s_content_id ` set (filter schedule_active rows)"
      by auto
    show ?case
    proof (cases "P s")
      case True
      with Cons.prems(2) [of s] have f: "s_content_id (f s) = s_content_id s"
        "schedule_active (f s) \<longrightarrow> schedule_active s"
        by auto
      with True IH Cons.prems(1) show ?thesis
        by (cases "schedule_active (f s)") (auto simp: update_where_def active_unique_def)
    next
      case False
      with IH Cons.prems(1) show ?thesis
        by (cases "schedule_active s") (auto simp: update_where_def active_unique_def)
    qed
  qed
  then show ?thesis by (simp add: active_unique_def)
qed

lemma active_uniqueD:
  assumes "active_unique rows" "s \<in> set rows" "s' \<in> set rows" "schedule_active s"
    "schedule_active s'" "s_content_id s = s_content_id s'"
  shows "s = s'"
  using assms by (auto simp: active_unique_def distinct_map dest: inj_onD)

end
