(* ===== verification/Integrity.thy ===== *)
theory Integrity
  imports Tables
begin

text \<open>
  The integrity invariant of the database: what every transaction of the store keeps, part by part.
  The parts say that the version history of a document is the unbroken sequence 1..n with n its
  optimistic-lock token, that the published pointer and every schedule refer to a version of the
  same document, that a schedule has a lease exactly when it is claimed, that a schedule has an
  event exactly when it is done, and that replaying the audit trail gives the published pointer.
\<close>

section \<open>Derived views\<close>

definition history :: "db \<Rightarrow> string \<Rightarrow> version_row list" where
  "history d cid = filter (\<lambda>v. v_content_id v = cid) (versions d)"

definition events_of :: "db \<Rightarrow> string \<Rightarrow> event_row list" where
  "events_of d cid = filter (\<lambda>e. e_content_id e = cid) (events d)"

text \<open>The pointer after the recorded publish and unpublish events, oldest first.\<close>

definition replay_event :: "event_row \<Rightarrow> int64 option \<Rightarrow> int64 option" where
  "replay_event e p = (case e_action e of ActionPublish \<Rightarrow> e_version_id e | ActionUnpublish \<Rightarrow> None)"

definition replay :: "event_row list \<Rightarrow> int64 option" where
  "replay es = fold replay_event es None"

definition owns :: "db \<Rightarrow> int64 \<Rightarrow> string \<Rightarrow> bool" where
  "owns d vid cid \<longleftrightarrow> (\<exists>v \<in> set (versions d). v_id v = vid \<and> v_content_id v = cid)"

definition find_content :: "db \<Rightarrow> string \<Rightarrow> content_row option" where
  "find_content d cid = row_with c_id cid (contents d)"

definition find_version :: "db \<Rightarrow> int64 \<Rightarrow> version_row option" where
  "find_version d vid = row_with v_id vid (versions d)"

definition find_schedule :: "db \<Rightarrow> string \<Rightarrow> schedule_row option" where
  "find_schedule d sid = row_with s_id sid (schedules d)"

definition events_of_schedule :: "db \<Rightarrow> string \<Rightarrow> event_row list" where
  "events_of_schedule d sid = filter (\<lambda>e. e_schedule_id e = Some sid) (events d)"

section \<open>The invariant\<close>

definition contents_ok :: "db \<Rightarrow> bool" where
  "contents_ok d \<longleftrightarrow> distinct (map c_id (contents d)) \<and> distinct (map c_slug (contents d)) \<and>
     (\<forall>c \<in> set (contents d). 1 \<le> c_current_version c \<and> in_int64 (c_current_version c))"

definition version_keys_ok :: "db \<Rightarrow> bool" where
  "version_keys_ok d \<longleftrightarrow> version_ids_ok d \<and> distinct (map v_id (versions d)) \<and>
     (\<forall>v \<in> set (versions d). v_content_id v \<in> c_id ` set (contents d))"

definition history_ok :: "db \<Rightarrow> bool" where
  "history_ok d \<longleftrightarrow> (\<forall>c \<in> set (contents d).
     map v_version (history d (c_id c)) = [1..c_current_version c])"

definition pointers_ok :: "db \<Rightarrow> bool" where
  "pointers_ok d \<longleftrightarrow> (\<forall>c \<in> set (contents d).
     (c_published_at c = None \<longleftrightarrow> c_published_version_id c = None) \<and>
     (\<forall>vid. c_published_version_id c = Some vid \<longrightarrow> owns d vid (c_id c)))"

definition lease_ok :: "schedule_row \<Rightarrow> bool" where
  "lease_ok s \<longleftrightarrow>
     (s_locked_by s \<noteq> None \<longleftrightarrow> s_status s = ScheduleClaimed) \<and>
     (s_lock_expires_at s \<noteq> None \<longleftrightarrow> s_status s = ScheduleClaimed) \<and>
     0 \<le> s_attempts s \<and>
     (s_status s \<in> {ScheduleClaimed, ScheduleDone} \<longrightarrow> 1 \<le> s_attempts s) \<and>
     s_status s \<noteq> ScheduleFailed"

definition schedules_ok :: "db \<Rightarrow> bool" where
  "schedules_ok d \<longleftrightarrow> distinct (map s_id (schedules d)) \<and> active_unique (schedules d) \<and>
     (\<forall>s \<in> set (schedules d). owns d (s_version_id s) (s_content_id s) \<and> lease_ok s)"

definition events_ok :: "db \<Rightarrow> bool" where
  "events_ok d \<longleftrightarrow> event_ids_ok d \<and> distinct (map e_id (events d)) \<and>
     (\<forall>e \<in> set (events d). e_content_id e \<in> c_id ` set (contents d) \<and>
        (\<forall>vid. e_version_id e = Some vid \<longrightarrow> owns d vid (e_content_id e)))"

text \<open>The event a completed schedule leaves behind.\<close>

definition event_for :: "schedule_row \<Rightarrow> event_row \<Rightarrow> bool" where
  "event_for s e \<longleftrightarrow> e_schedule_id e = Some (s_id s) \<and> e_action e = ActionPublish \<and>
     e_source e = SourceScheduled \<and> e_content_id e = s_content_id s \<and>
     e_version_id e = Some (s_version_id s)"

definition done_ok :: "db \<Rightarrow> bool" where
  "done_ok d \<longleftrightarrow>
     (\<forall>s \<in> set (schedules d).
        length (events_of_schedule d (s_id s)) = (if s_status s = ScheduleDone then 1 else 0)) \<and>
     (\<forall>e \<in> set (events d). e_schedule_id e \<noteq> None \<longrightarrow> (\<exists>s \<in> set (schedules d). event_for s e))"

definition audit_ok :: "db \<Rightarrow> bool" where
  "audit_ok d \<longleftrightarrow> (\<forall>c \<in> set (contents d).
     c_published_version_id c = replay (events_of d (c_id c)))"

definition db_ok :: "db \<Rightarrow> bool" where
  "db_ok d \<longleftrightarrow> contents_ok d \<and> version_keys_ok d \<and> history_ok d \<and> pointers_ok d \<and>
     schedules_ok d \<and> events_ok d \<and> done_ok d \<and> audit_ok d"

lemmas part_defs = contents_ok_def version_keys_ok_def history_ok_def pointers_ok_def
  schedules_ok_def events_ok_def done_ok_def audit_ok_def

lemma db_ok_empty: "db_ok empty_db"
  by (simp add: db_ok_def part_defs empty_db_def version_ids_ok_def event_ids_ok_def
      active_unique_def)

section \<open>Consequences used by every component\<close>

lemma replay_snoc [simp]:
  "replay (es @ [e]) =
     (case e_action e of ActionPublish \<Rightarrow> e_version_id e | ActionUnpublish \<Rightarrow> None)"
  by (simp add: replay_def replay_event_def)

lemma replay_Nil [simp]: "replay [] = None"
  by (simp add: replay_def)

text \<open>A pointer obtained by replay was set by the last event, and that event is a publish.\<close>

lemma replay_SomeD:
  assumes "replay es = Some vid"
  shows "\<exists>es' e. es = es' @ [e] \<and> e_action e = ActionPublish \<and> e_version_id e = Some vid"
  using assms by (cases es rule: rev_cases) (auto split: event_action.splits)

lemma db_ok_find_content:
  "db_ok d \<Longrightarrow> find_content d cid = Some c \<longleftrightarrow> c \<in> set (contents d) \<and> c_id c = cid"
  by (simp add: db_ok_def contents_ok_def find_content_def row_with_Some_iff)

lemma db_ok_find_version:
  "db_ok d \<Longrightarrow> find_version d vid = Some v \<longleftrightarrow> v \<in> set (versions d) \<and> v_id v = vid"
  by (simp add: db_ok_def version_keys_ok_def find_version_def row_with_Some_iff)

lemma db_ok_find_schedule:
  "db_ok d \<Longrightarrow> find_schedule d sid = Some s \<longleftrightarrow> s \<in> set (schedules d) \<and> s_id s = sid"
  by (simp add: db_ok_def schedules_ok_def find_schedule_def row_with_Some_iff)

lemma owns_find_version:
  "db_ok d \<Longrightarrow> owns d vid cid \<longleftrightarrow> (\<exists>v. find_version d vid = Some v \<and> v_content_id v = cid)"
  by (auto simp: owns_def db_ok_find_version)

lemma owns_version_fk: "owns d vid cid \<Longrightarrow> version_fk (Some vid) d"
  by (auto simp: owns_def version_fk_def)

lemma owns_mono: "set (versions d) \<subseteq> set (versions d') \<Longrightarrow> owns d vid cid \<Longrightarrow> owns d' vid cid"
  by (auto simp: owns_def)

lemma owns_content: "db_ok d \<Longrightarrow> owns d vid cid \<Longrightarrow> cid \<in> c_id ` set (contents d)"
  by (auto simp: owns_def db_ok_def version_keys_ok_def)

lemma find_content_id: "find_content d cid = Some c \<Longrightarrow> c_id c = cid"
  by (auto simp: find_content_def dest: row_with_SomeD)

lemma find_content_in: "find_content d cid = Some c \<Longrightarrow> c \<in> set (contents d)"
  by (auto simp: find_content_def dest: row_with_SomeD)

lemma find_content_None: "find_content d cid = None \<longleftrightarrow> cid \<notin> c_id ` set (contents d)"
  by (simp add: find_content_def row_with_None_iff)

lemma find_schedule_None: "find_schedule d sid = None \<longleftrightarrow> sid \<notin> s_id ` set (schedules d)"
  by (simp add: find_schedule_def row_with_None_iff)

text \<open>The versions of a document are numbered 1..n without gap, and \<open>n\<close> is its token.\<close>

lemma history_numbers:
  "db_ok d \<Longrightarrow> find_content d cid = Some c \<Longrightarrow>
   map v_version (history d cid) = [1..c_current_version c]"
  by (auto simp: db_ok_find_content db_ok_def history_ok_def)

lemma history_length:
  assumes "db_ok d" "find_content d cid = Some c"
  shows "int (length (history d cid)) = c_current_version c"
proof -
  have "length (map v_version (history d cid)) = nat (c_current_version c)"
    by (simp only: history_numbers [OF assms] length_upto)
  moreover have "1 \<le> c_current_version c"
    using assms by (auto simp: db_ok_find_content db_ok_def contents_ok_def)
  ultimately show ?thesis by simp
qed

lemma version_number_range:
  assumes "db_ok d" "v \<in> set (versions d)" "find_content d (v_content_id v) = Some c"
  shows "1 \<le> v_version v \<and> v_version v \<le> c_current_version c"
proof -
  have "v \<in> set (history d (v_content_id v))"
    using assms(2) by (simp add: history_def)
  then have "v_version v \<in> set (map v_version (history d (v_content_id v)))"
    by simp
  then show ?thesis
    by (simp only: history_numbers [OF assms(1,3)]) simp
qed

lemma history_unknown: "db_ok d \<Longrightarrow> cid \<notin> c_id ` set (contents d) \<Longrightarrow> history d cid = []"
  by (auto simp: history_def filter_empty_conv db_ok_def version_keys_ok_def)

lemma events_unknown: "db_ok d \<Longrightarrow> cid \<notin> c_id ` set (contents d) \<Longrightarrow> events_of d cid = []"
  by (auto simp: events_of_def filter_empty_conv db_ok_def events_ok_def)

lemma schedule_event_status:
  assumes "db_ok d" "e \<in> set (events d)" "e_schedule_id e = Some sid"
  shows "\<exists>s \<in> set (schedules d). s_id s = sid \<and> s_status s = ScheduleDone \<and> event_for s e"
proof -
  from assms obtain s where s: "s \<in> set (schedules d)" "event_for s e"
    by (auto simp: db_ok_def done_ok_def)
  then have sid: "s_id s = sid"
    using assms(3) by (simp add: event_for_def)
  have "e \<in> set (events_of_schedule d (s_id s))"
    using assms(2,3) sid by (simp add: events_of_schedule_def)
  then have "length (events_of_schedule d (s_id s)) \<noteq> 0" by auto
  with s(1) assms(1) have "s_status s = ScheduleDone"
    by (auto simp: db_ok_def done_ok_def split: if_splits)
  with s sid show ?thesis by blast
qed

lemma not_done_no_event:
  assumes "db_ok d" "s \<in> set (schedules d)" "s_status s \<noteq> ScheduleDone"
  shows "Some (s_id s) \<notin> e_schedule_id ` set (events d)"
proof
  assume "Some (s_id s) \<in> e_schedule_id ` set (events d)"
  then obtain e where e: "e \<in> set (events d)" "e_schedule_id e = Some (s_id s)"
    by (metis imageE)
  have "events_of_schedule d (s_id s) = []"
    using assms by (auto simp: db_ok_def done_ok_def)
  with e show False
    by (auto simp: events_of_schedule_def filter_empty_conv)
qed

end
