(* ===== verification/Store_Contents.thy ===== *)
theory Store_Contents
  imports Integrity "HOL-Library.List_Lexorder" "HOL-Library.Char_ord" "HOL-Library.Product_Lexorder"
begin

text \<open>
  \<open>internal/store/contents.go\<close>: creating a document with its first version, the
  compare-and-swap update that appends a version, and the administrative reads.
\<close>

section \<open>Reading a row\<close>

text \<open>
  \<open>scanContent\<close>. The counter is read into an int64: SQLite turns an \<open>INTEGER + 1\<close> that overflows
  into a REAL, which does not scan.
\<close>

definition scan_content :: "content_row \<Rightarrow> content_row io" where
  "scan_content c =
     (if in_int64 (c_current_version c) then io_return c
      else io_throw (ScanError ''converting driver.Value type float64 to a int64''))"

definition scan_content_with_version :: "content_row \<times> version_row \<Rightarrow> content_with_version io" where
  "scan_content_with_version cv =
     io_bind (scan_content (fst cv))
       (\<lambda>c. io_return \<lparr>cv_content = c, cv_version = snd cv\<rparr>)"

definition no_rows_to :: "string \<Rightarrow> go_error \<Rightarrow> go_error" where
  "no_rows_to msg e = (if error_is e ErrNoRows then ErrNotFound else Wrap msg e)"

text \<open>\<open>getContentTx\<close>, inside a transaction, and \<open>GetContent\<close>, on the read pool: the same query.\<close>

definition get_content_tx :: "string \<Rightarrow> content_row io" where
  "get_content_tx cid =
     map_err (no_rows_to ''read content'')
       (io_bind (query_row (\<lambda>d. find_content d cid)) scan_content)"

definition get_content :: "string \<Rightarrow> content_row io" where
  "get_content cid =
     map_err (no_rows_to ''read content'')
       (io_bind (query_row (\<lambda>d. find_content d cid)) scan_content)"

section \<open>Writing\<close>

text \<open>\<open>insertVersion\<close>: appends a version row and returns its rowid.\<close>

definition insert_version ::
    "string \<Rightarrow> int64 \<Rightarrow> version_fields \<Rightarrow> string \<Rightarrow> int64 \<Rightarrow> int64 io" where
  "insert_version cid ver f actor now =
     io_bind
       (map_err (Wrap ''insert version'')
         (sql_stmt (insert_version_row
           \<lparr>v_id = 0, v_content_id = cid, v_version = ver, v_created_by = actor,
            v_created_at = now, v_fields = f\<rparr>)))
       (\<lambda>rowid. map_err (Wrap ''read version id'') (driver_call rowid))"

text \<open>\<open>DB.CreateContent\<close>.\<close>

definition create_content ::
    "string \<Rightarrow> string \<Rightarrow> version_fields \<Rightarrow> string \<Rightarrow> int64 \<Rightarrow> content_with_version io" where
  "create_content cid slug f actor now =
     db_tx
       (io_bind
         (map_err (\<lambda>e. if is_unique_violation e then ErrSlugTaken else Wrap ''insert content'' e)
           (sql_stmt (insert_content
             \<lparr>c_id = cid, c_slug = slug, c_current_version = 1, c_published_version_id = None,
              c_published_at = None, c_created_at = now, c_updated_at = now\<rparr>)))
         (\<lambda>_. io_bind (insert_version cid 1 f actor now)
           (\<lambda>version_id. io_return
             \<lparr>cv_content =
                \<lparr>c_id = cid, c_slug = slug, c_current_version = 1, c_published_version_id = None,
                 c_published_at = None, c_created_at = now, c_updated_at = now\<rparr>,
              cv_version =
                \<lparr>v_id = version_id, v_content_id = cid, v_version = 1, v_created_by = actor,
                 v_created_at = now, v_fields = f\<rparr>\<rparr>)))"

text \<open>\<open>DB.UpdateContent\<close>: the compare-and-swap is in the UPDATE's WHERE clause.\<close>

definition update_content ::
    "string \<Rightarrow> int64 \<Rightarrow> version_fields \<Rightarrow> string \<Rightarrow> int64 \<Rightarrow> content_with_version io" where
  "update_content cid expected f actor now =
     db_tx
       (io_bind
         (map_err (Wrap ''bump content version'')
           (sql_stmt (update_contents
             (\<lambda>c. c_id c = cid \<and> c_current_version c = expected)
             (\<lambda>c. c\<lparr>c_current_version := c_current_version c + 1, c_updated_at := now\<rparr>))))
         (\<lambda>res. io_bind (map_err (Wrap ''read affected rows'') (driver_call res))
         (\<lambda>affected.
           if affected = 0
           then io_bind
                  (map_err (Wrap ''check content exists'')
                    (sql_query (\<lambda>d. length (filter (\<lambda>c. c_id c = cid) (contents d)))))
                  (\<lambda>exists. if exists = 0 then io_throw ErrNotFound else io_throw ErrVersionConflict)
           else let new_version = wrap64 (expected + 1)
                in io_bind (insert_version cid new_version f actor now)
                   (\<lambda>version_id. io_bind (get_content_tx cid)
                   (\<lambda>c. io_return
                     \<lparr>cv_content = c,
                      cv_version =
                        \<lparr>v_id = version_id, v_content_id = cid, v_version = new_version,
                         v_created_by = actor, v_created_at = now, v_fields = f\<rparr>\<rparr>)))))"

section \<open>Administrative reads\<close>

text \<open>The join of a document with its current version.\<close>

definition current_version_join :: "db \<Rightarrow> (content_row \<times> version_row) list" where
  "current_version_join d =
     concat (map (\<lambda>c. map (Pair c)
       (filter (\<lambda>v. v_content_id v = c_id c \<and> v_version v = c_current_version c) (versions d)))
       (contents d))"

definition first_row :: "'r list \<Rightarrow> 'r option" where
  "first_row rows = (case rows of [] \<Rightarrow> None | r # _ \<Rightarrow> Some r)"

definition get_content_with_current_version :: "string \<Rightarrow> content_with_version io" where
  "get_content_with_current_version cid =
     map_err (no_rows_to ''read content with version'')
       (io_bind
         (query_row (\<lambda>d. first_row (filter (\<lambda>(c, v). c_id c = cid) (current_version_join d))))
         scan_content_with_version)"

text \<open>A list query: the statement, one scan per row, the final \<open>rows.Err\<close>.\<close>

definition query_rows ::
    "string \<Rightarrow> string \<Rightarrow> (db \<Rightarrow> 'r list) \<Rightarrow> ('r \<Rightarrow> 'a io) \<Rightarrow> 'a list io" where
  "query_rows query_msg scan_msg q scan =
     io_bind (map_err (Wrap query_msg) (sql_query q))
       (\<lambda>rows. io_bind (io_map (\<lambda>r. map_err (Wrap scan_msg) (scan r)) rows)
       (\<lambda>out. driver_call out))"

text \<open>\<open>ORDER BY k DESC\<close> for a key that is unique in the table.\<close>

definition order_desc :: "('r \<Rightarrow> 'k::linorder) \<Rightarrow> 'r list \<Rightarrow> 'r list" where
  "order_desc k rows = rev (sort_key k rows)"

definition list_contents :: "int \<Rightarrow> int \<Rightarrow> content_with_version list io" where
  "list_contents limit offset =
     query_rows ''list contents'' ''scan content''
       (\<lambda>d. sql_limit limit (sql_offset offset
              (order_desc (\<lambda>(c, v). (c_created_at c, c_id c)) (current_version_join d))))
       scan_content_with_version"

definition count_contents :: "nat io" where
  "count_contents = map_err (Wrap ''count contents'') (sql_query (\<lambda>d. length (contents d)))"

definition list_versions :: "string \<Rightarrow> int \<Rightarrow> int \<Rightarrow> version_row list io" where
  "list_versions cid limit offset =
     io_bind (get_content cid)
       (\<lambda>_. query_rows ''list versions'' ''scan version''
         (\<lambda>d. sql_limit limit (sql_offset offset (order_desc v_version (history d cid))))
         io_return)"

definition get_version :: "string \<Rightarrow> int64 \<Rightarrow> version_row io" where
  "get_version cid ver =
     map_err (no_rows_to ''read version'')
       (query_row (\<lambda>d. first_row (filter (\<lambda>v. v_version v = ver) (history d cid))))"

definition get_version_by_id :: "int64 \<Rightarrow> version_row io" where
  "get_version_by_id vid =
     map_err (no_rows_to ''read version by id'') (query_row (\<lambda>d. find_version d vid))"

lemma scan_content_Inr [io_simps]:
  "scan_content c w = (Inr c', w') \<longleftrightarrow> c' = c \<and> w' = w \<and> in_int64 (c_current_version c)"
  by (auto simp: scan_content_def io_simps)

lemma readonly_scan [readonly_intros]:
  "readonly (scan_content c)" "readonly (scan_content_with_version cv)"
  by (auto simp: scan_content_def scan_content_with_version_def intro!: readonly_intros)

lemma readonly_query_rows [readonly_intros]:
  "(\<And>r. readonly (scan r)) \<Longrightarrow> readonly (query_rows m1 m2 q scan)"
  by (auto simp: query_rows_def intro!: readonly_intros)

lemma readonly_content_reads [readonly_intros]:
  "readonly (get_content_tx cid)"
  "readonly (get_content cid)"
  "readonly (get_content_with_current_version cid)"
  "readonly (list_contents l off)"
  "readonly count_contents"
  "readonly (list_versions cid l off)"
  "readonly (get_version cid ver)"
  "readonly (get_version_by_id vid)"
  by (auto simp: get_content_tx_def get_content_def get_content_with_current_version_def
      list_contents_def count_contents_def list_versions_def get_version_def get_version_by_id_def
      intro!: readonly_intros)

section \<open>What the writes do to the tables\<close>

definition new_content :: "string \<Rightarrow> string \<Rightarrow> int64 \<Rightarrow> content_row" where
  "new_content cid slug now =
     \<lparr>c_id = cid, c_slug = slug, c_current_version = 1, c_published_version_id = None,
      c_published_at = None, c_created_at = now, c_updated_at = now\<rparr>"

definition new_version ::
    "int64 \<Rightarrow> string \<Rightarrow> int64 \<Rightarrow> version_fields \<Rightarrow> string \<Rightarrow> int64 \<Rightarrow> version_row" where
  "new_version vid cid ver f actor now =
     \<lparr>v_id = vid, v_content_id = cid, v_version = ver, v_created_by = actor,
      v_created_at = now, v_fields = f\<rparr>"

lemma new_content_sel [simp]:
  "c_id (new_content cid slug now) = cid"
  "c_slug (new_content cid slug now) = slug"
  "c_current_version (new_content cid slug now) = 1"
  "c_published_version_id (new_content cid slug now) = None"
  "c_published_at (new_content cid slug now) = None"
  by (simp_all add: new_content_def)

lemma new_version_sel [simp]:
  "v_id (new_version vid cid ver f actor now) = vid"
  "v_content_id (new_version vid cid ver f actor now) = cid"
  "v_version (new_version vid cid ver f actor now) = ver"
  "v_fields (new_version vid cid ver f actor now) = f"
  by (simp_all add: new_version_def)

text \<open>A version appended to the table, as a change of the database.\<close>

definition append_version :: "string \<Rightarrow> int64 \<Rightarrow> version_fields \<Rightarrow> string \<Rightarrow> int64 \<Rightarrow> db \<Rightarrow> db" where
  "append_version cid ver f actor now d =
     d\<lparr>versions := versions d @ [new_version (version_seq d + 1) cid ver f actor now],
       version_seq := version_seq d + 1\<rparr>"

definition bump_version :: "string \<Rightarrow> int64 \<Rightarrow> int64 \<Rightarrow> db \<Rightarrow> db" where
  "bump_version cid expected now d =
     d\<lparr>contents := update_where (\<lambda>c. c_id c = cid \<and> c_current_version c = expected)
         (\<lambda>c. c\<lparr>c_current_version := c_current_version c + 1, c_updated_at := now\<rparr>) (contents d)\<rparr>"

lemma insert_version_effect:
  assumes "insert_version cid ver f actor now w = (Inr n, w')"
  shows "tables w' = append_version cid ver f actor now (tables w) \<and>
         n = version_seq (tables w) + 1 \<and> version_seq (tables w) < max_rowid \<and>
         cid \<in> c_id ` set (contents (tables w)) \<and>
         (cid, ver) \<notin> (\<lambda>r. (v_content_id r, v_version r)) ` set (versions (tables w))"
  using assms
  by (auto simp: insert_version_def io_simps row_simps append_version_def new_version_def
      dest!: next_fault_tables)

lemma create_content_effect:
  assumes "create_content cid slug f actor now w = (Inr out, w')"
  shows "cid \<notin> c_id ` set (contents (tables w)) \<and> slug \<notin> c_slug ` set (contents (tables w)) \<and>
         tables w' = append_version cid 1 f actor now
           ((tables w)\<lparr>contents := contents (tables w) @ [new_content cid slug now]\<rparr>) \<and>
         out = \<lparr>cv_content = new_content cid slug now,
                cv_version = new_version (version_seq (tables w) + 1) cid 1 f actor now\<rparr>"
  using assms
  by (auto simp: create_content_def io_simps row_simps new_content_def new_version_def
      dest!: next_fault_tables insert_version_effect)

lemma get_content_tx_effect:
  "get_content_tx cid w = (Inr c, w') \<Longrightarrow>
   find_content (tables w) cid = Some c \<and> in_int64 (c_current_version c) \<and> tables w' = tables w"
  by (auto simp: get_content_tx_def io_simps dest: next_fault_tables)

lemma update_content_effect:
  assumes "update_content cid expected f actor now w = (Inr out, w')"
  shows "tables w' = append_version cid (wrap64 (expected + 1)) f actor now
           (bump_version cid expected now (tables w)) \<and>
         (\<exists>c \<in> set (contents (tables w)). c_id c = cid \<and> c_current_version c = expected) \<and>
         find_content (tables w') cid = Some (cv_content out) \<and>
         in_int64 (c_current_version (cv_content out)) \<and>
         cv_version out =
           new_version (version_seq (tables w) + 1) cid (wrap64 (expected + 1)) f actor now"
  using assms
  by (auto simp: update_content_def io_simps row_simps bump_version_def new_version_def Let_def
      filter_empty_conv split: if_splits
      dest!: next_fault_tables insert_version_effect get_content_tx_effect)

section \<open>Integrity\<close>

lemma append_version_sel [simp]:
  "contents (append_version cid ver f actor now d) = contents d"
  "schedules (append_version cid ver f actor now d) = schedules d"
  "events (append_version cid ver f actor now d) = events d"
  "versions (append_version cid ver f actor now d) =
     versions d @ [new_version (version_seq d + 1) cid ver f actor now]"
  "version_seq (append_version cid ver f actor now d) = version_seq d + 1"
  "event_seq (append_version cid ver f actor now d) = event_seq d"
  by (simp_all add: append_version_def)

lemma bump_version_sel [simp]:
  "schedules (bump_version cid expected now d) = schedules d"
  "events (bump_version cid expected now d) = events d"
  "versions (bump_version cid expected now d) = versions d"
  "version_seq (bump_version cid expected now d) = version_seq d"
  "event_seq (bump_version cid expected now d) = event_seq d"
  by (simp_all add: bump_version_def)

lemma history_append_version [simp]:
  "history (append_version cid ver f actor now d) cid' =
     history d cid' @
     (if cid' = cid then [new_version (version_seq d + 1) cid ver f actor now] else [])"
  by (simp add: history_def)

lemma history_cong: "versions d = versions d' \<Longrightarrow> history d cid = history d' cid"
  by (simp add: history_def)

lemma events_of_cong: "events d = events d' \<Longrightarrow> events_of d cid = events_of d' cid"
  by (simp add: events_of_def)

lemma events_of_schedule_cong:
  "events d = events d' \<Longrightarrow> events_of_schedule d sid = events_of_schedule d' sid"
  by (simp add: events_of_schedule_def)

lemma version_keys_append:
  assumes "version_keys_ok d" "cid \<in> c_id ` set (contents d)"
  shows "version_keys_ok (append_version cid ver f actor now d)"
  using assms
  by (force simp: version_keys_ok_def version_ids_ok_def)

lemma version_keys_ok_keep:
  "version_keys_ok d \<Longrightarrow> versions d' = versions d \<Longrightarrow> version_seq d' = version_seq d \<Longrightarrow>
   c_id ` set (contents d) \<subseteq> c_id ` set (contents d') \<Longrightarrow> version_keys_ok d'"
  by (auto simp: version_keys_ok_def version_ids_ok_def)

text \<open>The parts of the invariant that only read one table, under a change of the others.\<close>

lemma owns_append_version:
  "owns d vid cid' \<Longrightarrow> owns (append_version cid ver f actor now d) vid cid'"
  by (auto simp: owns_def)

lemma schedules_ok_keep:
  "schedules_ok d \<Longrightarrow> schedules d' = schedules d \<Longrightarrow> set (versions d) \<subseteq> set (versions d') \<Longrightarrow>
   schedules_ok d'"
  using owns_mono [of d d'] by (auto simp: schedules_ok_def)

lemma events_ok_keep:
  "events_ok d \<Longrightarrow> events d' = events d \<Longrightarrow> event_seq d' = event_seq d \<Longrightarrow>
   set (versions d) \<subseteq> set (versions d') \<Longrightarrow> c_id ` set (contents d) \<subseteq> c_id ` set (contents d') \<Longrightarrow>
   events_ok d'"
  using owns_mono [of d d'] by (auto simp: events_ok_def event_ids_ok_def)

lemma done_ok_keep:
  "done_ok d \<Longrightarrow> events d' = events d \<Longrightarrow> schedules d' = schedules d \<Longrightarrow> done_ok d'"
  using events_of_schedule_cong [of d d'] by (simp add: done_ok_def)

lemma contents_ids_update_where:
  "(\<And>c. P c \<Longrightarrow> c_id (f c) = c_id c) \<Longrightarrow> map c_id (update_where P f cs) = map c_id cs"
  by (rule map_update_where)

lemma db_ok_create:
  fixes f actor now
  assumes ok: "db_ok d" and cid: "cid \<notin> c_id ` set (contents d)"
    and slug: "slug \<notin> c_slug ` set (contents d)"
  defines "d' \<equiv> append_version cid 1 f actor now
                   (d\<lparr>contents := contents d @ [new_content cid slug now]\<rparr>)"
  shows "db_ok d'"
proof -
  have con: "contents d' = contents d @ [new_content cid slug now]"
    by (simp add: d'_def)
  have hist: "history d' cid' = history d cid' @
      (if cid' = cid then [new_version (version_seq d + 1) cid 1 f actor now] else [])" for cid'
    by (simp add: d'_def history_cong [of "d\<lparr>contents := _\<rparr>" d])
  have ev: "events_of d' cid' = events_of d cid'" for cid'
    by (simp add: d'_def events_of_def)
  have own: "owns d vid cid' \<Longrightarrow> owns d' vid cid'" for vid cid'
    by (auto simp: d'_def owns_def)
  have "contents_ok d'"
    using ok cid slug by (auto simp: db_ok_def contents_ok_def d'_def in_int64_def)
  moreover have "version_keys_ok d'"
    unfolding d'_def using ok
    by (auto simp: db_ok_def intro!: version_keys_append version_keys_ok_keep [of d])
  moreover have "history_ok d'"
    using ok cid history_unknown [OF ok cid]
    by (auto simp: db_ok_def history_ok_def hist con simp del: upto.simps)
  moreover have "pointers_ok d'"
    using ok own by (simp add: db_ok_def pointers_ok_def con)
  moreover have "schedules_ok d'"
    using ok by (auto simp: db_ok_def d'_def intro: schedules_ok_keep)
  moreover have "events_ok d'"
    using ok by (auto simp: db_ok_def d'_def intro!: events_ok_keep [of d])
  moreover have "done_ok d'"
    using ok by (auto simp: db_ok_def d'_def intro: done_ok_keep)
  moreover have "audit_ok d'"
    using ok events_unknown [OF ok cid] by (auto simp: db_ok_def audit_ok_def ev con)
  ultimately show ?thesis by (simp add: db_ok_def)
qed

lemma history_ok_update:
  fixes f actor now
  assumes ok: "db_ok d" and c: "c \<in> set (contents d)" "c_id c = cid" "c_current_version c = expected"
  shows "history_ok (append_version cid (expected + 1) f actor now (bump_version cid expected now d))"
  unfolding history_ok_def
proof
  let ?d' = "append_version cid (expected + 1) f actor now (bump_version cid expected now d)"
  have bump: "history (bump_version cid expected now d) = history d"
    by (simp add: fun_eq_iff history_cong [of "bump_version cid expected now d" d])
  have pos: "1 \<le> expected"
    using ok c by (auto simp: db_ok_def contents_ok_def)
  fix c' assume "c' \<in> set (contents ?d')"
  then have "c' \<in> set (update_where (\<lambda>c. c_id c = cid \<and> c_current_version c = expected)
      (\<lambda>c. c\<lparr>c_current_version := c_current_version c + 1, c_updated_at := now\<rparr>) (contents d))"
    by (simp add: bump_version_def)
  then show "map v_version (history ?d' (c_id c')) = [1..c_current_version c']"
  proof (cases rule: in_update_whereE)
    case kept
    then have "c_id c' \<noteq> cid"
      using c ok by (auto simp: db_ok_def contents_ok_def dest: distinct_key_eq)
    with kept ok show ?thesis by (simp add: bump db_ok_def history_ok_def)
  next
    case (changed c0)
    then have "map v_version (history d cid) = [1..expected]"
      using ok by (auto simp: db_ok_def history_ok_def)
    with changed pos show ?thesis by (simp add: bump upto_rec2)
  qed
qed

lemma db_ok_update:
  fixes f actor now
  assumes ok: "db_ok d" and c: "c \<in> set (contents d)" "c_id c = cid" "c_current_version c = expected"
    and range: "in_int64 (expected + 1)"
  defines "d' \<equiv> append_version cid (expected + 1) f actor now (bump_version cid expected now d)"
  shows "db_ok d'"
proof -
  let ?P = "\<lambda>c. c_id c = cid \<and> c_current_version c = expected"
  let ?f = "\<lambda>c. c\<lparr>c_current_version := c_current_version c + 1, c_updated_at := now\<rparr>"
  have con: "contents d' = update_where ?P ?f (contents d)"
    by (simp add: d'_def bump_version_def)
  have ids: "map c_id (contents d') = map c_id (contents d)"
    and slugs: "map c_slug (contents d') = map c_slug (contents d)"
    by (simp_all add: con map_update_where)
  have idset: "c_id ` set (contents d') = c_id ` set (contents d)"
    by (metis ids list.set_map)
  have ev: "events_of d' cid' = events_of d cid'" for cid'
    by (simp add: d'_def events_of_def)
  have own: "owns d vid cid' \<Longrightarrow> owns d' vid cid'" for vid cid'
    by (auto simp: d'_def owns_def)
  have pos: "1 \<le> expected"
    using ok c by (auto simp: db_ok_def contents_ok_def)
  have "contents_ok d'"
    using ok range pos
    by (auto simp: db_ok_def contents_ok_def ids slugs) (auto simp: con set_update_where)
  moreover have "version_keys_ok d'"
    unfolding d'_def using ok c idset
    by (auto simp: db_ok_def d'_def intro!: version_keys_append version_keys_ok_keep [of d])
  moreover have "history_ok d'"
    unfolding d'_def by (rule history_ok_update [OF ok c])
  moreover have "pointers_ok d'"
    using ok own by (auto simp: db_ok_def pointers_ok_def con set_update_where)
  moreover have "schedules_ok d'"
    using ok by (auto simp: db_ok_def d'_def intro: schedules_ok_keep)
  moreover have "events_ok d'"
    using ok idset by (auto simp: db_ok_def d'_def intro!: events_ok_keep [of d])
  moreover have "done_ok d'"
    using ok by (auto simp: db_ok_def d'_def intro: done_ok_keep)
  moreover have "audit_ok d'"
    using ok by (auto simp: db_ok_def audit_ok_def ev con set_update_where)
  ultimately show ?thesis by (simp add: db_ok_def)
qed

text \<open>The two writes keep the invariant whatever the driver does.\<close>

lemma atomic_content_writes [atomic_intros]:
  "atomic (create_content cid slug f actor now)"
  "atomic (update_content cid expected f actor now)"
  by (simp_all add: create_content_def update_content_def atomic_tx)

lemma create_content_ok:
  assumes "db_ok (tables w)"
  shows "db_ok (tables (snd (create_content cid slug f actor now w)))"
  using assms
proof (rule atomic_keeps [OF atomic_content_writes(1)])
  fix out w' assume "create_content cid slug f actor now w = (Inr out, w')"
  note eff = create_content_effect [OF this]
  then show "db_ok (tables w')"
    by (auto intro: db_ok_create assms)
qed

text \<open>The token after a successful update is the old one plus one, with no wrap-around.\<close>

lemma update_content_token:
  assumes ok: "db_ok (tables w)" and upd: "update_content cid expected f actor now w = (Inr out, w')"
  shows "wrap64 (expected + 1) = expected + 1 \<and> in_int64 (expected + 1) \<and>
         c_current_version (cv_content out) = expected + 1"
proof -
  note eff = update_content_effect [OF upd]
  then obtain c where c: "c \<in> set (contents (tables w))" "c_id c = cid"
      "c_current_version c = expected" by blast
  then have "find_content (tables w) cid = Some c"
    by (simp add: db_ok_find_content ok)
  then have "find_content (tables w') cid =
      Some (c\<lparr>c_current_version := c_current_version c + 1, c_updated_at := now\<rparr>)"
    using eff c by (simp add: find_content_def bump_version_def row_with_update_where)
  moreover have "find_content (tables w') cid = Some (cv_content out)"
    using eff by (elim conjE)
  ultimately have
    "cv_content out = c\<lparr>c_current_version := c_current_version c + 1, c_updated_at := now\<rparr>"
    by (metis option.inject)
  then have "c_current_version (cv_content out) = expected + 1"
    by (simp add: c(3))
  with eff show ?thesis by (simp add: wrap64_id)
qed

lemma update_content_ok:
  assumes "db_ok (tables w)"
  shows "db_ok (tables (snd (update_content cid expected f actor now w)))"
  using assms
proof (rule atomic_keeps [OF atomic_content_writes(2)])
  fix out w' assume upd: "update_content cid expected f actor now w = (Inr out, w')"
  with update_content_effect [OF upd] update_content_token [OF assms upd]
  show "db_ok (tables w')"
    by (auto intro: db_ok_update assms)
qed

end
