(* ===== verification/Store_Publish.thy ===== *)
theory Store_Publish
  imports Store_Contents
begin

text \<open>
  \<open>internal/store/publish.go\<close>: moving and clearing the published pointer, each together with its
  audit event, and reading the audit trail.
\<close>

record publish_params =
  pp_content_id :: string
  pp_version_id :: int64
  pp_source :: event_source
  pp_actor :: string
  pp_schedule_id :: "string option"
  pp_now :: int64

text \<open>\<open>insertEventTx\<close>.\<close>

definition insert_event_tx :: "event_row \<Rightarrow> unit io" where
  "insert_event_tx e =
     io_bind (map_err (Wrap ''insert publish event'') (sql_stmt (insert_event e)))
       (\<lambda>_. io_return ())"

text \<open>\<open>SELECT content_id FROM content_versions WHERE id = ?\<close>.\<close>

definition version_owner :: "int64 \<Rightarrow> db \<Rightarrow> string option" where
  "version_owner vid d = map_option v_content_id (find_version d vid)"

text \<open>\<open>DB.Publish\<close>.\<close>

definition publish_event :: "publish_params \<Rightarrow> event_row" where
  "publish_event p =
     \<lparr>e_id = 0, e_content_id = pp_content_id p, e_version_id = Some (pp_version_id p),
      e_action = ActionPublish, e_source = pp_source p, e_schedule_id = pp_schedule_id p,
      e_actor = pp_actor p, e_occurred_at = pp_now p\<rparr>"

definition publish :: "publish_params \<Rightarrow> content_row io" where
  "publish p =
     db_tx
       (io_bind (get_content_tx (pp_content_id p))
       (\<lambda>current. io_bind
         (map_err (no_rows_to ''read version owner'') (query_row (version_owner (pp_version_id p))))
       (\<lambda>owner.
         if owner \<noteq> pp_content_id p then io_throw ErrNotFound
         else if c_published_version_id current = Some (pp_version_id p)
         then (if pp_schedule_id p \<noteq> None
               then io_bind (insert_event_tx (publish_event p)) (\<lambda>_. io_return current)
               else io_return current)
         else io_bind
                (map_err (Wrap ''set published version'')
                  (sql_stmt (update_contents (\<lambda>c. c_id c = pp_content_id p)
                    (\<lambda>c. c\<lparr>c_published_version_id := Some (pp_version_id p),
                           c_published_at := Some (pp_now p), c_updated_at := pp_now p\<rparr>))))
              (\<lambda>_. io_bind (insert_event_tx (publish_event p))
              (\<lambda>_. get_content_tx (pp_content_id p))))))"

text \<open>\<open>DB.Unpublish\<close>.\<close>

definition unpublish :: "string \<Rightarrow> string \<Rightarrow> int64 \<Rightarrow> content_row io" where
  "unpublish cid actor now =
     db_tx
       (io_bind (get_content_tx cid)
       (\<lambda>current.
         if c_published_version_id current = None then io_return current
         else io_bind
                (map_err (Wrap ''clear published version'')
                  (sql_stmt (update_contents (\<lambda>c. c_id c = cid)
                    (\<lambda>c. c\<lparr>c_published_version_id := None, c_published_at := None,
                           c_updated_at := now\<rparr>))))
              (\<lambda>_. io_bind
                (insert_event_tx
                  \<lparr>e_id = 0, e_content_id = cid, e_version_id = c_published_version_id current,
                   e_action = ActionUnpublish, e_source = SourceManual, e_schedule_id = None,
                   e_actor = actor, e_occurred_at = now\<rparr>)
              (\<lambda>_. get_content_tx cid))))"

text \<open>\<open>DB.ListEvents\<close>.\<close>

definition list_events :: "string \<Rightarrow> int \<Rightarrow> event_row list io" where
  "list_events cid limit =
     query_rows ''list events'' ''scan event''
       (\<lambda>d. sql_limit limit (order_desc (\<lambda>e. (e_occurred_at e, e_id e)) (events_of d cid)))
       io_return"

lemma readonly_list_events [readonly_intros]: "readonly (list_events cid limit)"
  by (auto simp: list_events_def intro!: readonly_intros)

lemma atomic_publish [atomic_intros]:
  "atomic (publish p)"
  "atomic (unpublish cid actor now)"
  by (simp_all add: publish_def unpublish_def atomic_tx)

section \<open>What the operations do to the tables\<close>

definition set_pointer :: "string \<Rightarrow> int64 option \<Rightarrow> int64 \<Rightarrow> db \<Rightarrow> db" where
  "set_pointer cid ptr now d =
     d\<lparr>contents := update_where (\<lambda>c. c_id c = cid)
         (\<lambda>c. c\<lparr>c_published_version_id := ptr,
                c_published_at := (if ptr = None then None else Some now),
                c_updated_at := now\<rparr>) (contents d)\<rparr>"

definition append_event :: "event_row \<Rightarrow> db \<Rightarrow> db" where
  "append_event e d =
     d\<lparr>events := events d @ [e\<lparr>e_id := event_seq d + 1\<rparr>], event_seq := event_seq d + 1\<rparr>"

lemma set_pointer_sel [simp]:
  "versions (set_pointer cid ptr now d) = versions d"
  "schedules (set_pointer cid ptr now d) = schedules d"
  "events (set_pointer cid ptr now d) = events d"
  "version_seq (set_pointer cid ptr now d) = version_seq d"
  "event_seq (set_pointer cid ptr now d) = event_seq d"
  "map c_id (contents (set_pointer cid ptr now d)) = map c_id (contents d)"
  "map c_slug (contents (set_pointer cid ptr now d)) = map c_slug (contents d)"
  by (simp_all add: set_pointer_def map_update_where)

lemma set_pointer_ids [simp]:
  "c_id ` set (contents (set_pointer cid ptr now d)) = c_id ` set (contents d)"
  by (metis list.set_map set_pointer_sel(6))

lemma append_event_sel [simp]:
  "contents (append_event e d) = contents d"
  "versions (append_event e d) = versions d"
  "schedules (append_event e d) = schedules d"
  "events (append_event e d) = events d @ [e\<lparr>e_id := event_seq d + 1\<rparr>]"
  "version_seq (append_event e d) = version_seq d"
  "event_seq (append_event e d) = event_seq d + 1"
  by (simp_all add: append_event_def)

lemma find_append_event [simp]:
  "find_content (append_event e d) cid = find_content d cid"
  "find_version (append_event e d) vid = find_version d vid"
  "find_schedule (append_event e d) sid = find_schedule d sid"
  "history (append_event e d) cid = history d cid"
  "owns (append_event e d) vid cid = owns d vid cid"
  by (simp_all add: find_content_def find_version_def find_schedule_def history_def owns_def)

lemma find_set_pointer [simp]:
  "find_version (set_pointer cid ptr now d) vid = find_version d vid"
  "find_schedule (set_pointer cid ptr now d) sid = find_schedule d sid"
  "history (set_pointer cid ptr now d) cid' = history d cid'"
  "owns (set_pointer cid ptr now d) vid cid' = owns d vid cid'"
  "events_of (set_pointer cid ptr now d) cid' = events_of d cid'"
  "events_of_schedule (set_pointer cid ptr now d) sid = events_of_schedule d sid"
  by (simp_all add: find_version_def find_schedule_def history_def owns_def events_of_def
      events_of_schedule_def)

lemma events_of_append_event:
  "events_of (append_event e d) cid =
     events_of d cid @ (if e_content_id e = cid then [e\<lparr>e_id := event_seq d + 1\<rparr>] else [])"
  by (simp add: events_of_def)

lemma events_of_schedule_append_event:
  "events_of_schedule (append_event e d) sid =
     events_of_schedule d sid @
     (if e_schedule_id e = Some sid then [e\<lparr>e_id := event_seq d + 1\<rparr>] else [])"
  by (simp add: events_of_schedule_def)

lemma find_content_set_pointer:
  "find_content (set_pointer cid ptr now d) cid' =
     (if cid' = cid
      then map_option (\<lambda>c. c\<lparr>c_published_version_id := ptr,
             c_published_at := (if ptr = None then None else Some now), c_updated_at := now\<rparr>)
             (find_content d cid)
      else find_content d cid')"
  by (cases "find_content d cid'")
    (auto simp: find_content_def set_pointer_def row_with_update_where dest: row_with_SomeD)

lemma insert_event_tx_effect:
  "insert_event_tx e w = (Inr u, w') \<Longrightarrow>
   tables w' = append_event e (tables w) \<and>
   (e_schedule_id e = None \<or> e_schedule_id e \<notin> e_schedule_id ` set (events (tables w)))"
  by (auto simp: insert_event_tx_def io_simps row_simps append_event_def dest!: next_fault_tables)

lemma version_owner_owns:
  "db_ok d \<Longrightarrow> version_owner vid d = Some cid \<longleftrightarrow> owns d vid cid"
  by (auto simp: version_owner_def owns_find_version)

lemma pointer_update_effect:
  "map_err g (sql_stmt (update_contents (\<lambda>c. c_id c = cid)
     (\<lambda>c. c\<lparr>c_published_version_id := Some vid, c_published_at := Some now,
            c_updated_at := now\<rparr>))) w = (Inr n, w') \<Longrightarrow>
   tables w' = set_pointer cid (Some vid) now (tables w)"
  by (auto simp: io_simps row_simps set_pointer_def)

lemma move_and_log_effect:
  assumes "io_bind (map_err g (sql_stmt (update_contents (\<lambda>c. c_id c = cid)
      (\<lambda>c. c\<lparr>c_published_version_id := Some vid, c_published_at := Some now, c_updated_at := now\<rparr>))))
    (\<lambda>_. io_bind (insert_event_tx e) (\<lambda>_. get_content_tx cid)) w = (Inr c, w')"
  shows "tables w' = append_event e (set_pointer cid (Some vid) now (tables w)) \<and> find_content (tables w') cid = Some c"
proof -
  from assms obtain n w1 u w2 where
    upd: "map_err g (sql_stmt (update_contents (\<lambda>c. c_id c = cid)
       (\<lambda>c. c\<lparr>c_published_version_id := Some vid, c_published_at := Some now, c_updated_at := now\<rparr>))) w = (Inr n, w1)" and
    ev: "insert_event_tx e w1 = (Inr u, w2)" and re: "get_content_tx cid w2 = (Inr c, w')"
    unfolding io_bind_Inr by blast
  from pointer_update_effect [OF upd] insert_event_tx_effect [OF ev] get_content_tx_effect [OF re]
  show ?thesis by simp
qed

lemma publish_effect:
  assumes "publish p w = (Inr c, w')"
  defines "d \<equiv> tables w" and "cid \<equiv> pp_content_id p" and "vid \<equiv> pp_version_id p"
  shows "version_owner vid d = Some cid \<and> find_content (tables w') cid = Some c \<and>
    (\<exists>c0. find_content d cid = Some c0 \<and>
      (if c_published_version_id c0 = Some vid
       then c = c0 \<and> tables w' = (if pp_schedule_id p = None then d else append_event (publish_event p) d)
       else tables w' = append_event (publish_event p) (set_pointer cid (Some vid) (pp_now p) d)))"
proof -
  from assms(1) [unfolded publish_def db_tx_Inr io_bind_Inr map_err_Inr query_row_Inr]
  obtain w1 w2 w3 w4 c0 owner where
    "next_fault w = (None, w1)" "next_fault w2 = (None, w3)" "next_fault w4 = (None, w')"
    and get: "get_content_tx cid w1 = (Inr c0, w2)"
    and own: "version_owner vid (tables w2) = Some owner"
    and body: "(if owner \<noteq> cid then io_throw ErrNotFound
         else if c_published_version_id c0 = Some vid
         then (if pp_schedule_id p \<noteq> None
               then io_bind (insert_event_tx (publish_event p)) (\<lambda>_. io_return c0)
               else io_return c0)
         else io_bind
                (map_err (Wrap ''set published version'')
                  (sql_stmt (update_contents (\<lambda>c. c_id c = cid)
                    (\<lambda>c. c\<lparr>c_published_version_id := Some vid,
                           c_published_at := Some (pp_now p), c_updated_at := pp_now p\<rparr>))))
              (\<lambda>_. io_bind (insert_event_tx (publish_event p))
              (\<lambda>_. get_content_tx cid))) w3 = (Inr c, w4)"
    unfolding cid_def vid_def by blast
  then have w1: "tables w1 = d" and "tables w3 = tables w2" and fin: "tables w' = tables w4"
    by (auto simp: d_def dest: next_fault_tables)
  with get_content_tx_effect [OF get]
  have found: "find_content d cid = Some c0" and w2: "tables w2 = d" and w3: "tables w3 = d"
    by simp_all
  from body have owner: "owner = cid"
    by (auto simp: io_simps split: if_splits)
  show ?thesis
  proof (cases "c_published_version_id c0 = Some vid")
    case True
    then show ?thesis
      using body owner found own w2 w3 fin
      by (auto simp: io_simps split: if_splits dest!: insert_event_tx_effect)
  next
    case False
    with body owner have "tables w4 = append_event (publish_event p) (set_pointer cid (Some vid) (pp_now p) d) \<and>
        find_content (tables w4) cid = Some c"
      unfolding w3 [symmetric] by (intro move_and_log_effect) simp
    then have "tables w4 = append_event (publish_event p) (set_pointer cid (Some vid) (pp_now p) d)"
      "find_content (tables w4) cid = Some c" by blast+
    with False found own owner w2 fin show ?thesis by simp
  qed
qed

lemma unpublish_effect:
  assumes "unpublish cid actor now w = (Inr c, w')"
  defines "d \<equiv> tables w"
  shows "find_content (tables w') cid = Some c \<and>
    (\<exists>c0. find_content d cid = Some c0 \<and>
      (if c_published_version_id c0 = None then c = c0 \<and> tables w' = d
       else tables w' =
         append_event
           \<lparr>e_id = 0, e_content_id = cid, e_version_id = c_published_version_id c0,
            e_action = ActionUnpublish, e_source = SourceManual, e_schedule_id = None,
            e_actor = actor, e_occurred_at = now\<rparr>
           (set_pointer cid None now d)))"
  using assms
  by (auto simp: unpublish_def io_simps row_simps set_pointer_def split: if_splits
      dest!: next_fault_tables get_content_tx_effect insert_event_tx_effect)

section \<open>Integrity\<close>

lemma parts_append_event [simp]:
  "contents_ok (append_event e d) = contents_ok d"
  "history_ok (append_event e d) = history_ok d"
  "pointers_ok (append_event e d) = pointers_ok d"
  by (simp_all add: contents_ok_def history_ok_def pointers_ok_def)

lemma contents_ok_set_pointer: "contents_ok d \<Longrightarrow> contents_ok (set_pointer cid ptr now d)"
  by (simp add: contents_ok_def) (auto simp: set_pointer_def ball_update_where)

lemma pointers_ok_set_pointer:
  assumes "pointers_ok d" "\<And>vid. ptr = Some vid \<Longrightarrow> owns d vid cid"
  shows "pointers_ok (set_pointer cid ptr now d)"
  unfolding pointers_ok_def
proof
  fix c assume "c \<in> set (contents (set_pointer cid ptr now d))"
  then have "c \<in> set (update_where (\<lambda>c. c_id c = cid)
      (\<lambda>c. c\<lparr>c_published_version_id := ptr,
             c_published_at := (if ptr = None then None else Some now),
             c_updated_at := now\<rparr>) (contents d))"
    by (simp add: set_pointer_def)
  then show "(c_published_at c = None \<longleftrightarrow> c_published_version_id c = None) \<and>
      (\<forall>vid. c_published_version_id c = Some vid \<longrightarrow>
         owns (set_pointer cid ptr now d) vid (c_id c))"
    using assms by (cases rule: in_update_whereE) (auto simp: pointers_ok_def)
qed

lemma history_ok_set_pointer: "history_ok d \<Longrightarrow> history_ok (set_pointer cid ptr now d)"
  by (simp add: history_ok_def) (auto simp: set_pointer_def ball_update_where)

lemma events_ok_append_event:
  assumes "events_ok d" "e_content_id e \<in> c_id ` set (contents d)"
    "\<And>vid. e_version_id e = Some vid \<Longrightarrow> owns d vid (e_content_id e)"
  shows "events_ok (append_event e d)"
  using assms by (force simp: events_ok_def event_ids_ok_def)

lemma done_ok_append_event:
  "done_ok d \<Longrightarrow> e_schedule_id e = None \<Longrightarrow> done_ok (append_event e d)"
  by (auto simp: done_ok_def events_of_schedule_append_event)

lemma audit_ok_set_pointer:
  assumes "audit_ok d" "e_content_id e = cid"
    "ptr = (case e_action e of ActionPublish \<Rightarrow> e_version_id e | ActionUnpublish \<Rightarrow> None)"
  shows "audit_ok (append_event e (set_pointer cid ptr now d))"
  unfolding audit_ok_def append_event_sel
proof
  fix c assume "c \<in> set (contents (set_pointer cid ptr now d))"
  then have "c \<in> set (update_where (\<lambda>c. c_id c = cid)
      (\<lambda>c. c\<lparr>c_published_version_id := ptr,
             c_published_at := (if ptr = None then None else Some now),
             c_updated_at := now\<rparr>) (contents d))"
    by (simp add: set_pointer_def)
  then show "c_published_version_id c =
      replay (events_of (append_event e (set_pointer cid ptr now d)) (c_id c))"
    using assms by (cases rule: in_update_whereE) (auto simp: audit_ok_def events_of_append_event split: event_action.split)
qed

text \<open>Moving the pointer together with its event keeps every part but the one on schedules.\<close>

lemma pointer_move_parts:
  fixes now
  assumes ok: "db_ok d" and cid: "cid \<in> c_id ` set (contents d)" "e_content_id e = cid"
    and ptr: "ptr = (case e_action e of ActionPublish \<Rightarrow> e_version_id e | ActionUnpublish \<Rightarrow> None)"
    and own: "\<And>vid. e_version_id e = Some vid \<Longrightarrow> owns d vid cid"
  defines "d' \<equiv> append_event e (set_pointer cid ptr now d)"
  shows "contents_ok d'" "version_keys_ok d'" "history_ok d'" "pointers_ok d'" "schedules_ok d'"
    "events_ok d'" "audit_ok d'"
proof -
  note parts = ok [unfolded db_ok_def]
  show "contents_ok d'"
    using parts by (simp add: d'_def contents_ok_set_pointer)
  show "version_keys_ok d'"
    using parts by (auto simp: d'_def intro!: version_keys_ok_keep [of d])
  show "history_ok d'"
    using parts by (simp add: d'_def history_ok_set_pointer)
  have "pointers_ok (set_pointer cid ptr now d)"
    using parts own ptr by (auto intro!: pointers_ok_set_pointer split: event_action.splits)
  then show "pointers_ok d'" by (simp add: d'_def)
  show "schedules_ok d'"
    using parts by (auto simp: d'_def intro!: schedules_ok_keep [of d])
  have "events_ok (set_pointer cid ptr now d)"
    using parts by (auto intro!: events_ok_keep [of d])
  then show "events_ok d'"
    unfolding d'_def using cid own by (auto intro!: events_ok_append_event)
  show "audit_ok d'"
    unfolding d'_def using parts cid ptr by (auto intro!: audit_ok_set_pointer)
qed

lemma db_ok_pointer_move:
  assumes "db_ok d" "cid \<in> c_id ` set (contents d)" "e_content_id e = cid"
    "ptr = (case e_action e of ActionPublish \<Rightarrow> e_version_id e | ActionUnpublish \<Rightarrow> None)"
    "\<And>vid. e_version_id e = Some vid \<Longrightarrow> owns d vid cid" "e_schedule_id e = None"
  shows "db_ok (append_event e (set_pointer cid ptr now d))"
proof -
  have "done_ok (set_pointer cid ptr now d)"
    using assms(1) by (auto simp: db_ok_def intro: done_ok_keep)
  then have "done_ok (append_event e (set_pointer cid ptr now d))"
    using assms(6) by (rule done_ok_append_event)
  with pointer_move_parts [OF assms(1-5)] show ?thesis
    by (simp add: db_ok_def)
qed

text \<open>
  \<open>Publish\<close> keeps the invariant when it is called without a schedule id, as its only caller
  \<open>Service.Publish\<close> does.
\<close>

lemma publish_ok:
  assumes ok: "db_ok (tables w)" and manual: "pp_schedule_id p = None"
  shows "db_ok (tables (snd (publish p w)))"
  using ok
proof (rule atomic_keeps [OF atomic_publish(1)])
  fix c w' assume "publish p w = (Inr c, w')"
  note eff = publish_effect [OF this]
  then have own: "owns (tables w) (pp_version_id p) (pp_content_id p)"
    using ok by (simp add: version_owner_owns)
  from eff have "tables w' = tables w \<or>
      tables w' = append_event (publish_event p)
        (set_pointer (pp_content_id p) (Some (pp_version_id p)) (pp_now p) (tables w))"
    using manual by (auto split: if_splits)
  moreover have "db_ok (append_event (publish_event p)
        (set_pointer (pp_content_id p) (Some (pp_version_id p)) (pp_now p) (tables w)))"
    using ok own owns_content [OF ok own] manual
    by (intro db_ok_pointer_move) (auto simp: publish_event_def)
  ultimately show "db_ok (tables w')" using ok by auto
qed

lemma unpublish_ok:
  assumes ok: "db_ok (tables w)"
  shows "db_ok (tables (snd (unpublish cid actor now w)))"
  using ok
proof (rule atomic_keeps [OF atomic_publish(2)])
  fix c w' assume "unpublish cid actor now w = (Inr c, w')"
  from unpublish_effect [OF this] obtain c0 where
    c0: "find_content (tables w) cid = Some c0" and
    eff: "tables w' = tables w \<or> tables w' =
       append_event
         \<lparr>e_id = 0, e_content_id = cid, e_version_id = c_published_version_id c0,
          e_action = ActionUnpublish, e_source = SourceManual, e_schedule_id = None,
          e_actor = actor, e_occurred_at = now\<rparr> (set_pointer cid None now (tables w))"
    by (auto split: if_splits)
  from c0 ok have "c0 \<in> set (contents (tables w))" "c_id c0 = cid"
    by (simp_all add: db_ok_find_content)
  with ok have "\<And>vid. c_published_version_id c0 = Some vid \<Longrightarrow> owns (tables w) vid cid"
      and "cid \<in> c_id ` set (contents (tables w))"
    by (auto simp: db_ok_def pointers_ok_def)
  with ok eff show "db_ok (tables w')"
    by (auto intro!: db_ok_pointer_move)
qed

end
