(* ===== verification/Store_Schedules.thy ===== *)
theory Store_Schedules
  imports Store_Publish
begin

text \<open>
  \<open>internal/store/schedules.go\<close>: creating and cancelling a schedule, and the leased job protocol
  of the worker: claim, complete, fail, release.

  SQL leaves two orders open here: which of several schedules with the same \<open>run_at\<close> come first
  under the LIMIT, and the order of the rows of RETURNING. Both are parameters: a \<open>planner\<close> holds
  the order in which the table is visited (a stable sort by \<open>run_at\<close> follows) and the order of the
  returned rows. What is known of them is that they permute.
\<close>

record claimed_job =
  j_schedule_id :: string
  j_content_id :: string
  j_version_id :: int64

record planner =
  scan_order :: "schedule_row list \<Rightarrow> schedule_row list"
  returning_order :: "claimed_job list \<Rightarrow> claimed_job list"

definition planner_ok :: "planner \<Rightarrow> bool" where
  "planner_ok pl \<longleftrightarrow> (\<forall>rows. mset (scan_order pl rows) = mset rows) \<and>
                   (\<forall>jobs. mset (returning_order pl jobs) = mset jobs)"

definition table_order :: planner where
  "table_order = \<lparr>scan_order = (\<lambda>rows. rows), returning_order = (\<lambda>jobs. jobs)\<rparr>"

lemma table_order_ok: "planner_ok table_order"
  by (simp add: planner_ok_def table_order_def)

section \<open>Scheduling and cancelling\<close>

text \<open>\<open>DB.CreateSchedule\<close>.\<close>

definition new_schedule :: "string \<Rightarrow> string \<Rightarrow> int64 \<Rightarrow> int64 \<Rightarrow> int64 \<Rightarrow> schedule_row" where
  "new_schedule sid cid vid run_at now =
     \<lparr>s_id = sid, s_content_id = cid, s_version_id = vid, s_run_at = run_at,
      s_status = SchedulePending, s_attempts = 0, s_locked_by = None, s_lock_expires_at = None,
      s_last_error = [], s_created_at = now, s_updated_at = now\<rparr>"

definition create_schedule ::
    "string \<Rightarrow> string \<Rightarrow> int64 \<Rightarrow> int64 \<Rightarrow> int64 \<Rightarrow> schedule_row io" where
  "create_schedule sid cid vid run_at now =
     db_tx
       (io_bind
         (map_err (no_rows_to ''read version owner'') (query_row (version_owner vid)))
       (\<lambda>owner.
         if owner \<noteq> cid then io_throw ErrNotFound
         else io_bind
           (map_err (\<lambda>e. if is_unique_violation e then ErrScheduleExists else Wrap ''insert schedule'' e)
             (sql_stmt (insert_schedule (new_schedule sid cid vid run_at now))))
           (\<lambda>_. io_return (new_schedule sid cid vid run_at now))))"

text \<open>\<open>DB.GetSchedule\<close> and \<open>DB.ListSchedules\<close>.\<close>

definition get_schedule :: "string \<Rightarrow> schedule_row io" where
  "get_schedule sid =
     map_err (no_rows_to ''read schedule'') (query_row (\<lambda>d. find_schedule d sid))"

definition list_schedules :: "string \<Rightarrow> schedule_row list io" where
  "list_schedules cid =
     query_rows ''list schedules'' ''scan schedule''
       (\<lambda>d. order_desc (\<lambda>s. (s_created_at s, s_id s))
              (filter (\<lambda>s. s_content_id s = cid) (schedules d)))
       io_return"

text \<open>\<open>DB.CancelSchedule\<close>: the status check is in the WHERE clause.\<close>

definition unlock :: "schedule_status \<Rightarrow> int64 \<Rightarrow> schedule_row \<Rightarrow> schedule_row" where
  "unlock st now s = s\<lparr>s_status := st, s_locked_by := None, s_lock_expires_at := None,
                      s_updated_at := now\<rparr>"

definition cancel_schedule :: "string \<Rightarrow> int64 \<Rightarrow> unit io" where
  "cancel_schedule sid now =
     db_tx
       (io_bind
         (map_err (Wrap ''cancel schedule'')
           (sql_stmt (update_schedules (\<lambda>s. s_id s = sid \<and> s_status s = SchedulePending)
             (unlock ScheduleCancelled now))))
       (\<lambda>res. io_bind (map_err (Wrap ''read affected rows'') (driver_call res))
       (\<lambda>affected.
         if affected = 1 then io_return ()
         else io_bind
           (map_err (no_rows_to ''read schedule status'')
             (query_row (\<lambda>d. map_option s_status (find_schedule d sid))))
           (\<lambda>_. io_throw ErrNotCancellable))))"

section \<open>The job protocol\<close>

text \<open>\<open>DB.ClaimDueSchedules\<close>: one UPDATE ... RETURNING over the due rows.\<close>

definition schedule_due :: "int64 \<Rightarrow> schedule_row \<Rightarrow> bool" where
  "schedule_due now s \<longleftrightarrow>
     (s_status s = SchedulePending \<and> s_run_at s \<le> now) \<or>
     (s_status s = ScheduleClaimed \<and>
        (case s_lock_expires_at s of None \<Rightarrow> False | Some exp \<Rightarrow> exp \<le> now))"

definition due_ids :: "planner \<Rightarrow> int64 \<Rightarrow> int \<Rightarrow> db \<Rightarrow> string list" where
  "due_ids pl now limit d =
     map s_id (sql_limit limit
       (sort_key s_run_at (filter (schedule_due now) (scan_order pl (schedules d)))))"

definition claim_row :: "string \<Rightarrow> int64 \<Rightarrow> int64 \<Rightarrow> schedule_row \<Rightarrow> schedule_row" where
  "claim_row worker lease_expiry now s =
     s\<lparr>s_status := ScheduleClaimed, s_locked_by := Some worker,
       s_lock_expires_at := Some lease_expiry, s_attempts := s_attempts s + 1,
       s_updated_at := now\<rparr>"

definition job_of :: "schedule_row \<Rightarrow> claimed_job" where
  "job_of s = \<lparr>j_schedule_id = s_id s, j_content_id = s_content_id s, j_version_id = s_version_id s\<rparr>"

definition claim_update ::
    "planner \<Rightarrow> string \<Rightarrow> int64 \<Rightarrow> int64 \<Rightarrow> int \<Rightarrow> db \<Rightarrow> sqlite_code + (claimed_job list \<times> db)" where
  "claim_update pl worker now lease_expiry limit d =
     (let ids = due_ids pl now limit d in
      case update_schedules (\<lambda>s. s_id s \<in> set ids) (claim_row worker lease_expiry now) d of
        Inl c \<Rightarrow> Inl c
      | Inr (_, d') \<Rightarrow>
          Inr (returning_order pl (map job_of (filter (\<lambda>s. s_id s \<in> set ids) (schedules d'))), d'))"

definition claim_due_schedules ::
    "planner \<Rightarrow> string \<Rightarrow> int64 \<Rightarrow> int64 \<Rightarrow> int \<Rightarrow> claimed_job list io" where
  "claim_due_schedules pl worker now lease_expiry limit =
     db_tx
       (io_bind
         (map_err (Wrap ''claim schedules'')
           (sql_stmt (claim_update pl worker now lease_expiry limit)))
       (\<lambda>jobs. driver_call jobs))"

text \<open>\<open>DB.CompleteScheduledPublish\<close>: pointer, event and status in one transaction, and only if
  the row is still claimed by this worker.\<close>

definition job_event :: "claimed_job \<Rightarrow> int64 \<Rightarrow> event_row" where
  "job_event j now =
     \<lparr>e_id = 0, e_content_id = j_content_id j, e_version_id = Some (j_version_id j),
      e_action = ActionPublish, e_source = SourceScheduled,
      e_schedule_id = Some (j_schedule_id j), e_actor = [], e_occurred_at = now\<rparr>"

definition held_by :: "string \<Rightarrow> string \<Rightarrow> schedule_row \<Rightarrow> bool" where
  "held_by worker sid s \<longleftrightarrow>
     s_id s = sid \<and> s_status s = ScheduleClaimed \<and> s_locked_by s = Some worker"

definition complete_body :: "claimed_job \<Rightarrow> string \<Rightarrow> int64 \<Rightarrow> bool io" where
  "complete_body j worker now =
     io_bind
       (map_err (Wrap ''set published version'')
         (sql_stmt (update_contents (\<lambda>c. c_id c = j_content_id j)
           (\<lambda>c. c\<lparr>c_published_version_id := Some (j_version_id j), c_published_at := Some now,
                  c_updated_at := now\<rparr>))))
     (\<lambda>_. io_bind (insert_event_tx (job_event j now))
     (\<lambda>_. io_bind
       (map_err (Wrap ''mark schedule done'')
         (sql_stmt (update_schedules (held_by worker (j_schedule_id j)) (unlock ScheduleDone now))))
     (\<lambda>res. io_bind (map_err (Wrap ''read affected rows'') (driver_call res))
     (\<lambda>affected. if affected = 0 then io_throw ErrLeaseLost else io_return True))))"

definition complete_scheduled_publish :: "claimed_job \<Rightarrow> string \<Rightarrow> int64 \<Rightarrow> bool io" where
  "complete_scheduled_publish j worker now =
     io_catch (db_tx (complete_body j worker now))
       (\<lambda>e. if error_is e ErrLeaseLost then io_return False else io_throw e)"

text \<open>\<open>DB.FailSchedule\<close>.\<close>

definition fail_schedule :: "string \<Rightarrow> string \<Rightarrow> string \<Rightarrow> int64 \<Rightarrow> unit io" where
  "fail_schedule sid worker reason now =
     db_tx
       (io_bind
         (map_err (Wrap ''record schedule failure'')
           (sql_stmt (update_schedules (held_by worker sid)
             (\<lambda>s. (unlock SchedulePending now s)\<lparr>s_last_error := reason\<rparr>))))
       (\<lambda>_. io_return ()))"

text \<open>\<open>DB.ReleaseClaims\<close>. (The count the Go function returns beside an error is not modelled; its
  only use is a log line.)\<close>

definition release_claims :: "string \<Rightarrow> int64 \<Rightarrow> nat io" where
  "release_claims worker now =
     db_tx
       (io_bind
         (map_err (Wrap ''release claims'')
           (sql_stmt (update_schedules
             (\<lambda>s. s_status s = ScheduleClaimed \<and> s_locked_by s = Some worker)
             (unlock SchedulePending now))))
       (\<lambda>res. map_err (Wrap ''read affected rows'') (driver_call res)))"

lemma readonly_schedule_reads [readonly_intros]:
  "readonly (get_schedule sid)"
  "readonly (list_schedules cid)"
  by (auto simp: get_schedule_def list_schedules_def intro!: readonly_intros)

lemma atomic_schedule_writes [atomic_intros]:
  "atomic (create_schedule sid cid vid run_at now)"
  "atomic (cancel_schedule sid now)"
  "atomic (claim_due_schedules pl worker now lease_expiry limit)"
  "atomic (fail_schedule sid worker reason now)"
  "atomic (release_claims worker now)"
  by (simp_all add: create_schedule_def cancel_schedule_def claim_due_schedules_def
      fail_schedule_def release_claims_def atomic_tx)

text \<open>A lost lease is not an error, yet it writes nothing either.\<close>

lemma complete_body_True: "complete_body j worker now w = (Inr b, w') \<Longrightarrow> b"
  by (auto simp: complete_body_def io_simps split: if_splits)

lemma complete_tx_cases:
  assumes "complete_scheduled_publish j worker now w = (r, w')"
  shows "(r = Inr True \<and> db_tx (complete_body j worker now) w = (Inr True, w')) \<or>
         (r \<noteq> Inr True \<and> tables w' = tables w)"
proof (cases "db_tx (complete_body j worker now) w")
  case (Pair r0 w0)
  show ?thesis
  proof (cases r0)
    case (Inl e)
    with Pair have "tables w0 = tables w" by (auto dest: db_tx_Inl_tables)
    with assms Pair Inl show ?thesis
      by (auto simp: complete_scheduled_publish_def io_catch_def io_throw_def io_return_def
          split: if_splits)
  next
    case (Inr b)
    with Pair have "b" by (auto simp: db_tx_Inr dest: complete_body_True)
    with assms Pair Inr show ?thesis
      by (simp add: complete_scheduled_publish_def io_catch_def)
  qed
qed

lemma atomic_complete [atomic_intros]: "atomic (complete_scheduled_publish j worker now)"
  by (auto simp: atomic_def dest: complete_tx_cases)

section \<open>What the operations do to the tables\<close>

definition set_schedules ::
    "(schedule_row \<Rightarrow> bool) \<Rightarrow> (schedule_row \<Rightarrow> schedule_row) \<Rightarrow> db \<Rightarrow> db" where
  "set_schedules P f d = d\<lparr>schedules := update_where P f (schedules d)\<rparr>"

lemma set_schedules_sel [simp]:
  "contents (set_schedules P f d) = contents d"
  "versions (set_schedules P f d) = versions d"
  "events (set_schedules P f d) = events d"
  "schedules (set_schedules P f d) = update_where P f (schedules d)"
  "version_seq (set_schedules P f d) = version_seq d"
  "event_seq (set_schedules P f d) = event_seq d"
  by (simp_all add: set_schedules_def)

lemma find_set_schedules [simp]:
  "find_content (set_schedules P f d) cid = find_content d cid"
  "find_version (set_schedules P f d) vid = find_version d vid"
  "history (set_schedules P f d) cid = history d cid"
  "owns (set_schedules P f d) vid cid = owns d vid cid"
  "events_of (set_schedules P f d) cid = events_of d cid"
  "events_of_schedule (set_schedules P f d) sid = events_of_schedule d sid"
  by (simp_all add: find_content_def find_version_def history_def owns_def events_of_def
      events_of_schedule_def)

lemma find_schedule_set_schedules:
  "(\<And>s. P s \<Longrightarrow> s_id (f s) = s_id s) \<Longrightarrow>
   find_schedule (set_schedules P f d) sid =
     map_option (\<lambda>s. if P s then f s else s) (find_schedule d sid)"
  by (simp add: find_schedule_def row_with_update_where)

text \<open>The columns no statement of the job protocol writes.\<close>

lemma unlock_sel [simp]:
  "s_id (unlock st now s) = s_id s"
  "s_content_id (unlock st now s) = s_content_id s"
  "s_version_id (unlock st now s) = s_version_id s"
  "s_run_at (unlock st now s) = s_run_at s"
  "s_status (unlock st now s) = st"
  "s_attempts (unlock st now s) = s_attempts s"
  "s_locked_by (unlock st now s) = None"
  "s_lock_expires_at (unlock st now s) = None"
  by (simp_all add: unlock_def)

lemma claim_row_sel [simp]:
  "s_id (claim_row worker exp now s) = s_id s"
  "s_content_id (claim_row worker exp now s) = s_content_id s"
  "s_version_id (claim_row worker exp now s) = s_version_id s"
  "s_run_at (claim_row worker exp now s) = s_run_at s"
  "s_status (claim_row worker exp now s) = ScheduleClaimed"
  "s_attempts (claim_row worker exp now s) = s_attempts s + 1"
  "s_locked_by (claim_row worker exp now s) = Some worker"
  "s_lock_expires_at (claim_row worker exp now s) = Some exp"
  by (simp_all add: claim_row_def)

lemma job_of_claim_row [simp]: "job_of (claim_row worker exp now s) = job_of s"
  by (simp add: job_of_def)

lemma create_schedule_effect:
  "create_schedule sid cid vid run_at now w = (Inr s, w') \<Longrightarrow>
   s = new_schedule sid cid vid run_at now \<and> version_owner vid (tables w) = Some cid \<and>
   sid \<notin> s_id ` set (schedules (tables w)) \<and> active_unique (schedules (tables w) @ [s]) \<and>
   tables w' = (tables w)\<lparr>schedules := schedules (tables w) @ [s]\<rparr>"
  by (auto simp: create_schedule_def io_simps row_simps new_schedule_def split: if_splits
      dest!: next_fault_tables)

lemma cancel_schedule_effect:
  assumes "cancel_schedule sid now w = (Inr u, w')"
  shows "length (filter (\<lambda>s. s_id s = sid \<and> s_status s = SchedulePending) (schedules (tables w))) = 1 \<and>
    tables w' = set_schedules (\<lambda>s. s_id s = sid \<and> s_status s = SchedulePending)
      (unlock ScheduleCancelled now) (tables w)"
  using assms
  by (auto simp: cancel_schedule_def io_simps row_simps set_schedules_def split: if_splits
      dest!: next_fault_tables)

lemma claim_update_Inr:
  "claim_update pl worker now exp limit d = (Inr (jobs, d')) \<Longrightarrow>
   d' = set_schedules (\<lambda>s. s_id s \<in> set (due_ids pl now limit d)) (claim_row worker exp now) d \<and>
   jobs = returning_order pl
     (map job_of (filter (\<lambda>s. s_id s \<in> set (due_ids pl now limit d)) (schedules d)))"
  by (auto simp: claim_update_def Let_def update_schedules_def set_schedules_def update_where_def
      filter_map comp_def if_distrib cong: if_cong split: if_splits)

lemma claim_effect:
  assumes "claim_due_schedules pl worker now exp limit w = (Inr jobs, w')"
  defines "ids \<equiv> set (due_ids pl now limit (tables w))"
  shows "tables w' = set_schedules (\<lambda>s. s_id s \<in> ids) (claim_row worker exp now) (tables w) \<and>
    jobs = returning_order pl (map job_of (filter (\<lambda>s. s_id s \<in> ids) (schedules (tables w))))"
  using assms
  by (auto simp: claim_due_schedules_def io_simps dest!: next_fault_tables claim_update_Inr)

lemma complete_effect:
  assumes "complete_scheduled_publish j worker now w = (Inr True, w')"
  shows "tables w' = set_schedules (held_by worker (j_schedule_id j)) (unlock ScheduleDone now)
      (append_event (job_event j now)
        (set_pointer (j_content_id j) (Some (j_version_id j)) now (tables w))) \<and>
    (\<exists>s \<in> set (schedules (tables w)). held_by worker (j_schedule_id j) s) \<and>
    Some (j_schedule_id j) \<notin> e_schedule_id ` set (events (tables w))"
proof -
  from complete_tx_cases [OF assms] obtain w1 w2 where
    "next_fault w = (None, w1)" "complete_body j worker now w1 = (Inr True, w2)"
    "next_fault w2 = (None, w')"
    by (auto simp: db_tx_Inr)
  then have w1: "tables w1 = tables w" and fin: "tables w' = tables w2"
    and "complete_body j worker now w1 = (Inr True, w2)"
    by (auto dest: next_fault_tables)
  from this(3) [unfolded complete_body_def io_bind_Inr] obtain n w3 u w4 m w5 k w6 where
    upd: "map_err (Wrap ''set published version'')
         (sql_stmt (update_contents (\<lambda>c. c_id c = j_content_id j)
           (\<lambda>c. c\<lparr>c_published_version_id := Some (j_version_id j), c_published_at := Some now,
                  c_updated_at := now\<rparr>))) w1 = (Inr n, w3)"
    and ev: "insert_event_tx (job_event j now) w3 = (Inr u, w4)"
    and fin_upd: "map_err (Wrap ''mark schedule done'')
         (sql_stmt (update_schedules (held_by worker (j_schedule_id j)) (unlock ScheduleDone now))) w4
         = (Inr m, w5)"
    and rest: "map_err (Wrap ''read affected rows'') (driver_call m) w5 = (Inr k, w6)"
      "(if k = 0 then io_throw ErrLeaseLost else io_return True) w6 = (Inr True, w2)"
    by blast
  have d3: "tables w3 = set_pointer (j_content_id j) (Some (j_version_id j)) now (tables w)"
    using pointer_update_effect [OF upd] w1 by simp
  have d4: "tables w4 = append_event (job_event j now) (tables w3)"
    and fresh: "Some (j_schedule_id j) \<notin> e_schedule_id ` set (events (tables w3))"
    using insert_event_tx_effect [OF ev] by (simp_all add: job_event_def)
  from rest have "m \<noteq> 0" and w2: "tables w2 = tables w5"
    by (auto simp: io_simps split: if_splits dest: next_fault_tables)
  with fin_upd have "tables w5 = set_schedules (held_by worker (j_schedule_id j))
      (unlock ScheduleDone now) (tables w4)"
    and "\<exists>s \<in> set (schedules (tables w4)). held_by worker (j_schedule_id j) s"
    by (auto simp: io_simps row_simps set_schedules_def filter_empty_conv)
  with fin w2 d3 d4 fresh show ?thesis by simp
qed

lemma fail_effect:
  "fail_schedule sid worker reason now w = (Inr u, w') \<Longrightarrow>
   tables w' = set_schedules (held_by worker sid)
     (\<lambda>s. (unlock SchedulePending now s)\<lparr>s_last_error := reason\<rparr>) (tables w)"
  by (auto simp: fail_schedule_def io_simps row_simps set_schedules_def dest!: next_fault_tables)

lemma release_effect:
  "release_claims worker now w = (Inr n, w') \<Longrightarrow>
   tables w' = set_schedules (\<lambda>s. s_status s = ScheduleClaimed \<and> s_locked_by s = Some worker)
     (unlock SchedulePending now) (tables w) \<and>
   n = length (filter (\<lambda>s. s_status s = ScheduleClaimed \<and> s_locked_by s = Some worker)
         (schedules (tables w)))"
  by (auto simp: release_claims_def io_simps row_simps set_schedules_def dest!: next_fault_tables)

section \<open>Integrity\<close>

text \<open>An update of schedule rows that keeps identity and is not a step into or out of done.\<close>

definition keeps_schedule :: "schedule_row \<Rightarrow> schedule_row \<Rightarrow> bool" where
  "keeps_schedule s s' \<longleftrightarrow>
     s_id s' = s_id s \<and> s_content_id s' = s_content_id s \<and> s_version_id s' = s_version_id s \<and>
     (schedule_active s' \<longrightarrow> schedule_active s) \<and> (lease_ok s \<longrightarrow> lease_ok s')"

lemma schedules_ok_set_schedules:
  assumes ok: "schedules_ok d"
    and keep: "\<And>s. s \<in> set (schedules d) \<Longrightarrow> P s \<Longrightarrow> keeps_schedule s (f s)"
    and id: "\<And>s. s_id (f s) = s_id s"
  shows "schedules_ok (set_schedules P f d)"
proof -
  have "map s_id (update_where P f (schedules d)) = map s_id (schedules d)"
    by (rule map_update_where) (rule id)
  moreover have "active_unique (update_where P f (schedules d))"
    using ok keep by (intro active_unique_update_where) (auto simp: schedules_ok_def keeps_schedule_def)
  ultimately show ?thesis
    using ok keep
    by (auto simp: schedules_ok_def ball_update_where keeps_schedule_def)
qed

lemma done_ok_set_schedules:
  assumes ok: "done_ok d"
    and keep: "\<And>s. s \<in> set (schedules d) \<Longrightarrow> P s \<Longrightarrow> keeps_schedule s (f s) \<and>
      (s_status (f s) = ScheduleDone \<longleftrightarrow> s_status s = ScheduleDone)"
  shows "done_ok (set_schedules P f d)"
proof -
  have "length (events_of_schedule d (s_id s')) = (if s_status s' = ScheduleDone then 1 else 0)"
    if "s' \<in> set (update_where P f (schedules d))" for s'
    using that ok keep
    by (cases rule: in_update_whereE) (auto simp: done_ok_def keeps_schedule_def)
  moreover have "\<exists>s \<in> set (update_where P f (schedules d)). event_for s e"
    if "e \<in> set (events d)" "e_schedule_id e \<noteq> None" for e
  proof -
    from that ok obtain s where s: "s \<in> set (schedules d)" "event_for s e"
      by (auto simp: done_ok_def)
    then have "(if P s then f s else s) \<in> set (update_where P f (schedules d))"
      by (auto simp: update_where_def)
    moreover have "event_for (if P s then f s else s) e"
      using s keep [OF s(1)] by (auto simp: event_for_def keeps_schedule_def)
    ultimately show ?thesis by blast
  qed
  ultimately show ?thesis by (simp add: done_ok_def)
qed

lemma parts_set_schedules [simp]:
  "contents_ok (set_schedules P f d) = contents_ok d"
  "version_keys_ok (set_schedules P f d) = version_keys_ok d"
  "history_ok (set_schedules P f d) = history_ok d"
  "pointers_ok (set_schedules P f d) = pointers_ok d"
  "events_ok (set_schedules P f d) = events_ok d"
  "audit_ok (set_schedules P f d) = audit_ok d"
  by (simp_all add: contents_ok_def version_keys_ok_def version_ids_ok_def history_ok_def
      pointers_ok_def events_ok_def event_ids_ok_def audit_ok_def)

lemma db_ok_set_schedules:
  assumes "db_ok d" "\<And>s. s_id (f s) = s_id s"
    and "\<And>s. s \<in> set (schedules d) \<Longrightarrow> P s \<Longrightarrow> keeps_schedule s (f s) \<and>
      (s_status (f s) = ScheduleDone \<longleftrightarrow> s_status s = ScheduleDone)"
  shows "db_ok (set_schedules P f d)"
  using assms schedules_ok_set_schedules [of d P f] done_ok_set_schedules [of d P f]
  by (auto simp: db_ok_def)

lemma create_schedule_ok:
  assumes ok: "db_ok (tables w)"
  shows "db_ok (tables (snd (create_schedule sid cid vid run_at now w)))"
  using ok
proof (rule atomic_keeps [OF atomic_schedule_writes(1)])
  fix s w' assume "create_schedule sid cid vid run_at now w = (Inr s, w')"
  note eff = create_schedule_effect [OF this]
  let ?d = "tables w" and ?d' = "(tables w)\<lparr>schedules := schedules (tables w) @ [s]\<rparr>"
  have s: "s_id s = sid" "s_content_id s = cid" "s_version_id s = vid" "lease_ok s"
    "s_status s = SchedulePending"
    using eff by (simp_all add: new_schedule_def lease_ok_def)
  have own: "owns ?d vid cid"
    using eff ok by (simp add: version_owner_owns)
  have none: "events_of_schedule ?d sid = []"
    using eff ok schedule_event_status [OF ok]
    by (force simp: events_of_schedule_def filter_empty_conv)
  have "schedules_ok ?d'"
    using ok eff own s by (auto simp: db_ok_def schedules_ok_def owns_def)
  moreover have "done_ok ?d'"
    using ok none s by (auto simp: db_ok_def done_ok_def events_of_schedule_def)
  moreover have "contents_ok ?d'" "version_keys_ok ?d'" "history_ok ?d'" "pointers_ok ?d'"
      "events_ok ?d'" "audit_ok ?d'"
    using ok by (simp_all add: db_ok_def contents_ok_def version_keys_ok_def version_ids_ok_def
        history_ok_def history_def pointers_ok_def owns_def events_ok_def event_ids_ok_def
        audit_ok_def events_of_def)
  ultimately show "db_ok (tables w')"
    using eff by (simp add: db_ok_def)
qed

lemma schedule_active_not_done: "schedule_active s \<Longrightarrow> s_status s \<noteq> ScheduleDone"
  by (auto simp: schedule_active_def)

lemma keeps_unlock:
  "schedule_active s \<Longrightarrow> st = SchedulePending \<or> st = ScheduleCancelled \<Longrightarrow>
   keeps_schedule s (unlock st now s)"
  by (auto simp: keeps_schedule_def lease_ok_def schedule_active_def)

lemma keeps_fail:
  "schedule_active s \<Longrightarrow> keeps_schedule s ((unlock SchedulePending now s)\<lparr>s_last_error := r\<rparr>)"
  by (auto simp: keeps_schedule_def lease_ok_def schedule_active_def)

lemma keeps_claim: "schedule_active s \<Longrightarrow> keeps_schedule s (claim_row worker exp now s)"
  by (auto simp: keeps_schedule_def lease_ok_def schedule_active_def)

lemma cancel_schedule_ok:
  assumes ok: "db_ok (tables w)"
  shows "db_ok (tables (snd (cancel_schedule sid now w)))"
  using ok
proof (rule atomic_keeps [OF atomic_schedule_writes(2)])
  fix u w' assume "cancel_schedule sid now w = (Inr u, w')"
  from cancel_schedule_effect [OF this] show "db_ok (tables w')"
    using ok by (auto intro!: db_ok_set_schedules keeps_unlock simp: schedule_active_def)
qed

text \<open>A due row is pending or claimed, so the chosen ids are ids of active rows.\<close>

lemma due_ids_active:
  assumes "planner_ok pl" "sid \<in> set (due_ids pl now limit d)"
  shows "\<exists>s \<in> set (schedules d). s_id s = sid \<and> schedule_due now s"
proof -
  have "set (scan_order pl (schedules d)) = set (schedules d)"
    using assms(1) by (metis planner_ok_def set_mset_mset)
  moreover have "sid \<in> s_id ` set (filter (schedule_due now) (scan_order pl (schedules d)))"
    using assms(2) set_sql_limit by (fastforce simp: due_ids_def)
  ultimately show ?thesis by auto
qed

lemma schedule_due_active: "schedule_due now s \<Longrightarrow> schedule_active s"
  by (auto simp: schedule_due_def schedule_active_def)

lemma due_row:
  assumes ok: "db_ok d" and "planner_ok pl" "s \<in> set (schedules d)"
    "s_id s \<in> set (due_ids pl now limit d)"
  shows "schedule_due now s"
proof -
  from due_ids_active [OF assms(2,4)] obtain s' where
    "s' \<in> set (schedules d)" "s_id s' = s_id s" "schedule_due now s'" by blast
  with ok assms(3) show ?thesis
    by (metis db_ok_def distinct_key_eq schedules_ok_def)
qed

lemma claim_ok:
  assumes ok: "db_ok (tables w)" and pl: "planner_ok pl"
  shows "db_ok (tables (snd (claim_due_schedules pl worker now exp limit w)))"
  using ok
proof (rule atomic_keeps [OF atomic_schedule_writes(3)])
  fix jobs w' assume "claim_due_schedules pl worker now exp limit w = (Inr jobs, w')"
  from claim_effect [OF this] have eff: "tables w' =
      set_schedules (\<lambda>s. s_id s \<in> set (due_ids pl now limit (tables w)))
        (claim_row worker exp now) (tables w)" by simp
  have "schedule_active s"
    if "s \<in> set (schedules (tables w))" "s_id s \<in> set (due_ids pl now limit (tables w))" for s
    using due_row [OF ok pl that] by (rule schedule_due_active)
  then show "db_ok (tables w')"
    unfolding eff using ok
    by (intro db_ok_set_schedules) (auto simp: keeps_claim dest: schedule_active_not_done)
qed

lemma fail_schedule_ok:
  assumes ok: "db_ok (tables w)"
  shows "db_ok (tables (snd (fail_schedule sid worker reason now w)))"
  using ok
proof (rule atomic_keeps [OF atomic_schedule_writes(4)])
  fix u w' assume "fail_schedule sid worker reason now w = (Inr u, w')"
  from fail_effect [OF this] show "db_ok (tables w')"
    using ok by (auto intro!: db_ok_set_schedules keeps_fail simp: held_by_def schedule_active_def)
qed

lemma release_claims_ok:
  assumes ok: "db_ok (tables w)"
  shows "db_ok (tables (snd (release_claims worker now w)))"
  using ok
proof (rule atomic_keeps [OF atomic_schedule_writes(5)])
  fix n w' assume "release_claims worker now w = (Inr n, w')"
  from release_effect [OF this] show "db_ok (tables w')"
    using ok by (auto intro!: db_ok_set_schedules keeps_unlock simp: schedule_active_def)
qed

text \<open>A job is genuine when it was read off a schedule row; those columns never change.\<close>

definition job_ok :: "db \<Rightarrow> claimed_job \<Rightarrow> bool" where
  "job_ok d j \<longleftrightarrow> j \<in> job_of ` set (schedules d)"

lemma claim_jobs_ok:
  assumes "planner_ok pl" "claim_due_schedules pl worker now exp limit w = (Inr jobs, w')"
    "j \<in> set jobs"
  shows "job_ok (tables w') j"
proof -
  let ?ids = "set (due_ids pl now limit (tables w))"
  from claim_effect [OF assms(2)] have
    w': "schedules (tables w') =
      update_where (\<lambda>s. s_id s \<in> ?ids) (claim_row worker exp now) (schedules (tables w))" and
    jobs: "mset jobs = mset (map job_of (filter (\<lambda>s. s_id s \<in> ?ids) (schedules (tables w))))"
    using assms(1) by (simp_all add: planner_ok_def)
  have "job_of ` set (schedules (tables w')) = job_of ` set (schedules (tables w))"
    unfolding w' by (metis (no_types, lifting) job_of_claim_row list.set_map map_update_where)
  moreover have "j \<in> job_of ` set (schedules (tables w))"
    using assms(3) mset_eq_setD [OF jobs] by auto
  ultimately show ?thesis by (simp add: job_ok_def)
qed

text \<open>A schedule that an event is for remains one when the row is updated.\<close>

lemma event_for_update:
  assumes "s \<in> set rows" "event_for s e" "event_for (f s) e"
  shows "\<exists>s \<in> set (update_where P f rows). event_for s e"
proof -
  have "(if P s then f s else s) \<in> set (update_where P f rows)"
    using assms(1) by (auto simp: update_where_def)
  moreover have "event_for (if P s then f s else s) e" using assms by simp
  ultimately show ?thesis by blast
qed

lemma complete_done_ok:
  fixes now
  assumes ok: "db_ok d" and s: "s \<in> set (schedules d)" "held_by worker (s_id s) s"
  defines "d' \<equiv> set_schedules (held_by worker (s_id s)) (unlock ScheduleDone now)
      (append_event (job_event (job_of s) now)
        (set_pointer (s_content_id s) (Some (s_version_id s)) now d))"
  shows "done_ok d'"
  unfolding done_ok_def
proof (intro conjI ballI impI)
  let ?e = "(job_event (job_of s) now)\<lparr>e_id := event_seq d + 1\<rparr>"
  have sch: "schedules d' = update_where (held_by worker (s_id s)) (unlock ScheduleDone now) (schedules d)"
    by (simp add: d'_def)
  have ev: "events_of_schedule d' sid =
      events_of_schedule d sid @ (if sid = s_id s then [?e] else [])" for sid
    by (auto simp: d'_def events_of_schedule_append_event job_event_def job_of_def)
  fix s' assume "s' \<in> set (schedules d')"
  then show "length (events_of_schedule d' (s_id s')) = (if s_status s' = ScheduleDone then 1 else 0)"
    unfolding sch
  proof (cases rule: in_update_whereE)
    case kept
    then have "s_id s' \<noteq> s_id s"
      using ok s by (auto simp: db_ok_def schedules_ok_def dest: distinct_key_eq)
    with kept ok show ?thesis by (auto simp: ev db_ok_def done_ok_def)
  next
    case (changed s0)
    have "events_of_schedule d (s_id s) = []"
      using ok s by (auto simp: db_ok_def done_ok_def held_by_def)
    with changed show ?thesis by (simp add: ev held_by_def)
  qed
next
  let ?e = "(job_event (job_of s) now)\<lparr>e_id := event_seq d + 1\<rparr>"
  fix e assume e: "e \<in> set (events d')" "e_schedule_id e \<noteq> None"
  have "\<exists>s0 \<in> set (schedules d). event_for s0 e"
  proof (cases "e = ?e")
    case True
    then have "event_for s e" by (simp add: event_for_def job_event_def job_of_def)
    with s show ?thesis by blast
  next
    case False
    with e ok show ?thesis by (auto simp: d'_def db_ok_def done_ok_def)
  qed
  then obtain s0 where "s0 \<in> set (schedules d)" "event_for s0 e" by blast
  then have "\<exists>s \<in> set (update_where (held_by worker (s_id s)) (unlock ScheduleDone now) (schedules d)). event_for s e"
    by (rule event_for_update) (use \<open>event_for s0 e\<close> in \<open>simp add: event_for_def\<close>)
  then show "\<exists>s \<in> set (schedules d'). event_for s e" by (simp add: d'_def)
qed

lemma complete_schedules_ok:
  fixes now
  assumes ok: "db_ok d"
  shows "schedules_ok (set_schedules (held_by worker (s_id s)) (unlock ScheduleDone now)
      (append_event (job_event (job_of s) now)
        (set_pointer (s_content_id s) (Some (s_version_id s)) now d)))"
proof -
  have "keeps_schedule s' (unlock ScheduleDone now s')"
    if "s' \<in> set (schedules d)" "held_by worker (s_id s) s'" for s'
    using that by (auto simp: keeps_schedule_def held_by_def lease_ok_def schedule_active_def)
  moreover have "schedules_ok (append_event (job_event (job_of s) now)
        (set_pointer (s_content_id s) (Some (s_version_id s)) now d))"
    using ok by (auto simp: db_ok_def intro!: schedules_ok_keep [of d])
  ultimately show ?thesis by (intro schedules_ok_set_schedules) simp_all
qed

lemma complete_ok:
  assumes ok: "db_ok (tables w)" and job: "job_ok (tables w) j"
  shows "db_ok (tables (snd (complete_scheduled_publish j worker now w)))"
  using ok
proof (rule atomic_keeps [OF atomic_complete])
  fix b w' assume run: "complete_scheduled_publish j worker now w = (Inr b, w')"
  show "db_ok (tables w')"
  proof (cases b)
    case False
    with complete_tx_cases [OF run] ok show ?thesis by simp
  next
    case True
    with run have "complete_scheduled_publish j worker now w = (Inr True, w')" by simp
    note eff = complete_effect [OF this]
    from job obtain s where s: "s \<in> set (schedules (tables w))" "j = job_of s"
      by (auto simp: job_ok_def)
    then have "held_by worker (s_id s) s"
      using eff ok by (auto simp: held_by_def job_of_def db_ok_def schedules_ok_def
          dest: distinct_key_eq)
    note fin = complete_done_ok [OF ok s(1) this, where now = now] complete_schedules_ok [OF ok, where now = now]
    have own: "owns (tables w) (s_version_id s) (s_content_id s)"
      using ok s by (simp add: db_ok_def schedules_ok_def)
    have "e_content_id (job_event j now) = s_content_id s"
      "Some (s_version_id s) = (case e_action (job_event j now) of
         ActionPublish \<Rightarrow> e_version_id (job_event j now) | ActionUnpublish \<Rightarrow> None)"
      "\<And>vid. e_version_id (job_event j now) = Some vid \<Longrightarrow> owns (tables w) vid (s_content_id s)"
      using s(2) own by (simp_all add: job_event_def job_of_def)
    note parts = pointer_move_parts [OF ok owns_content [OF ok own] this]
    from eff s(2) parts fin show ?thesis
      by (simp add: db_ok_def job_of_def)
  qed
qed

end
