(* ===== verification/Store_Public.thy ===== *)
theory Store_Public
  imports Store_Schedules "HOL-Library.Option_ord"
begin

text \<open>
  \<open>internal/store/public.go\<close>: the public reads. Each is a query over the join of a document with
  the version its published pointer refers to.
\<close>

record public_content =
  p_slug :: string
  p_title :: string
  p_body :: string
  p_fields :: version_fields
  p_published_at :: int64
  p_updated_at :: int64

text \<open>\<open>FROM contents c JOIN content_versions v ON v.id = c.published_version_id\<close>.\<close>

definition published_join :: "db \<Rightarrow> (content_row \<times> version_row) list" where
  "published_join d =
     concat (map (\<lambda>c. map (Pair c)
       (filter (\<lambda>v. c_published_version_id c = Some (v_id v)) (versions d)))
       (contents d))"

text \<open>\<open>scanPublic\<close>; a NULL \<open>published_at\<close> reads as 0.\<close>

definition scan_public :: "content_row \<times> version_row \<Rightarrow> public_content io" where
  "scan_public cv =
     (case cv of (c, v) \<Rightarrow> io_return
       \<lparr>p_slug = c_slug c, p_title = f_title (v_fields v), p_body = f_body (v_fields v),
        p_fields = v_fields v,
        p_published_at = (case c_published_at c of None \<Rightarrow> 0 | Some t \<Rightarrow> t),
        p_updated_at = c_updated_at c\<rparr>)"

text \<open>\<open>DB.GetPublicBySlug\<close>.\<close>

definition get_public_by_slug :: "string \<Rightarrow> public_content io" where
  "get_public_by_slug slug =
     map_err (no_rows_to ''read public content'')
       (io_bind
         (query_row (\<lambda>d. first_row (filter (\<lambda>(c, v). c_slug c = slug) (published_join d))))
         scan_public)"

text \<open>\<open>DB.ListPublic\<close>; NULL sorts below every value.\<close>

definition public_order :: "content_row \<times> version_row \<Rightarrow> int64 option \<times> string" where
  "public_order cv = (c_published_at (fst cv), c_id (fst cv))"

definition list_public :: "int \<Rightarrow> int \<Rightarrow> public_content list io" where
  "list_public limit offset =
     query_rows ''list public content'' ''scan public content''
       (\<lambda>d. sql_limit limit (sql_offset offset (order_desc public_order (published_join d))))
       scan_public"

text \<open>\<open>DB.CountPublic\<close>.\<close>

definition count_public :: "nat io" where
  "count_public =
     map_err (Wrap ''count public content'') (sql_query (\<lambda>d. length (published_join d)))"

text \<open>\<open>DB.ListSitemapEntries\<close>; \<open>COALESCE\<close> falls back to \<open>updated_at\<close>.\<close>

record sitemap_entry =
  sm_slug :: string
  sm_last_modified :: int64

definition sitemap_entry_of :: "content_row \<times> version_row \<Rightarrow> sitemap_entry" where
  "sitemap_entry_of cv =
     \<lparr>sm_slug = c_slug (fst cv),
      sm_last_modified =
        (case c_published_at (fst cv) of Some t \<Rightarrow> t | None \<Rightarrow> c_updated_at (fst cv))\<rparr>"

definition list_sitemap_entries :: "int \<Rightarrow> sitemap_entry list io" where
  "list_sitemap_entries limit =
     query_rows ''list sitemap entries'' ''scan sitemap entry''
       (\<lambda>d. sql_limit limit
          (order_desc public_order
            (filter (\<lambda>(c, v). \<not> f_noindex (v_fields v)) (published_join d))))
       (\<lambda>cv. io_return (sitemap_entry_of cv))"

text \<open>\<open>DB.LatestPublishedAt\<close>: MAX over no rows is NULL, which reads as 0.\<close>

definition sql_max :: "int list \<Rightarrow> int option" where
  "sql_max xs = fold (\<lambda>x m. case m of None \<Rightarrow> Some x | Some y \<Rightarrow> Some (max y x)) xs None"

definition latest_published_at :: "int64 io" where
  "latest_published_at =
     io_bind
       (map_err (Wrap ''read latest publish time'')
         (sql_query (\<lambda>d. sql_max (map (\<lambda>(c, v). c_updated_at c) (published_join d)))))
       (\<lambda>ts. io_return (case ts of None \<Rightarrow> 0 | Some t \<Rightarrow> t))"

lemma readonly_scan_public [readonly_intros]: "readonly (scan_public cv)"
  by (auto simp: scan_public_def intro!: readonly_intros split: prod.split)

lemma readonly_public_reads [readonly_intros]:
  "readonly (get_public_by_slug slug)"
  "readonly (list_public l off)"
  "readonly count_public"
  "readonly (list_sitemap_entries l)"
  "readonly latest_published_at"
  by (auto simp: get_public_by_slug_def list_public_def count_public_def
      list_sitemap_entries_def latest_published_at_def intro!: readonly_intros)

section \<open>The join\<close>

lemma published_join_iff:
  "(c, v) \<in> set (published_join d) \<longleftrightarrow>
   c \<in> set (contents d) \<and> v \<in> set (versions d) \<and> c_published_version_id c = Some (v_id v)"
  by (auto simp: published_join_def)

text \<open>Under the invariant each published document joins with exactly one version, its own.\<close>

lemma published_version_of:
  assumes ok: "db_ok d" and c: "c \<in> set (contents d)"
  shows "filter (\<lambda>v. c_published_version_id c = Some (v_id v)) (versions d) =
         (case c_published_version_id c of None \<Rightarrow> []
          | Some vid \<Rightarrow> (case find_version d vid of None \<Rightarrow> [] | Some v \<Rightarrow> [v]))"
proof (cases "c_published_version_id c")
  case None
  then show ?thesis by (simp add: filter_empty_conv)
next
  case (Some vid)
  then have eq: "filter (\<lambda>v. c_published_version_id c = Some (v_id v)) (versions d) =
      filter (\<lambda>v. v_id v = vid) (versions d)"
    by (intro filter_cong) auto
  show ?thesis
    unfolding eq using Some ok filter_key_unique [of v_id "versions d" vid] filter_key_none [of v_id vid "versions d"]
    by (auto simp: find_version_def db_ok_def version_keys_ok_def split: option.split)
qed

lemma published_pointer:
  assumes "db_ok d" "c \<in> set (contents d)" "c_published_version_id c = Some vid"
  shows "\<exists>v. find_version d vid = Some v \<and> v_content_id v = c_id c"
  using assms owns_find_version [OF assms(1)] by (auto simp: db_ok_def pointers_ok_def)

definition published_contents :: "db \<Rightarrow> content_row list" where
  "published_contents d = filter is_published (contents d)"

lemma map_fst_published_join:
  assumes ok: "db_ok d"
  shows "map fst (published_join d) = published_contents d"
proof -
  have "map fst (concat (map (\<lambda>c. map (Pair c)
          (filter (\<lambda>v. c_published_version_id c = Some (v_id v)) (versions d))) cs)) =
        filter is_published cs" if "set cs \<subseteq> set (contents d)" for cs
    using that
  proof (induction cs)
    case (Cons c cs)
    then have c: "c \<in> set (contents d)" by simp
    show ?case
    proof (cases "c_published_version_id c")
      case None
      with Cons show ?thesis by (simp add: is_published_def)
    next
      case (Some vid)
      with published_pointer [OF ok c] obtain v where "find_version d vid = Some v" by blast
      with Cons Some published_version_of [OF ok c] show ?thesis
        by (simp add: is_published_def)
    qed
  qed simp
  then show ?thesis by (simp add: published_join_def published_contents_def)
qed

lemma io_map_return [simp]: "io_map (\<lambda>r. map_err g (io_return (f r))) rs = io_return (map f rs)"
proof (induction rs)
  case (Cons r rs)
  then show ?case
    by (intro ext) (simp add: io_bind_def map_err_def io_catch_def io_return_def)
qed (simp add: io_return_def)

definition public_of :: "content_row \<Rightarrow> version_row \<Rightarrow> public_content" where
  "public_of c v =
     \<lparr>p_slug = c_slug c, p_title = f_title (v_fields v), p_body = f_body (v_fields v),
      p_fields = v_fields v,
      p_published_at = (case c_published_at c of None \<Rightarrow> 0 | Some t \<Rightarrow> t),
      p_updated_at = c_updated_at c\<rparr>"

lemma scan_public_eq: "scan_public = (\<lambda>cv. io_return (public_of (fst cv) (snd cv)))"
  by (auto simp: scan_public_def public_of_def fun_eq_iff split: prod.split)

lemma first_row_SomeD: "first_row rows = Some r \<Longrightarrow> r \<in> set rows"
  by (auto simp: first_row_def split: list.splits)

lemma first_row_Nil [simp]: "first_row [] = None"
  by (simp add: first_row_def)

lemma first_row_None [simp]: "first_row rows = None \<longleftrightarrow> rows = []"
  by (simp add: first_row_def split: list.splits)

text \<open>A public read that succeeds returns a version the pointer of that slug refers to.\<close>

lemma get_public_effect:
  "get_public_by_slug slug w = (Inr p, w') \<Longrightarrow>
   \<exists>c v. (c, v) \<in> set (published_join (tables w)) \<and> c_slug c = slug \<and> p = public_of c v"
  by (force simp: get_public_by_slug_def io_simps scan_public_eq dest!: first_row_SomeD)

text \<open>Without driver failures the read finds exactly the published documents.\<close>

lemma get_public_nofault:
  assumes ok: "db_ok (tables w)" and nf: "faults w = []"
  shows "get_public_by_slug slug w =
    (case row_with c_slug slug (contents (tables w)) of
       None \<Rightarrow> Inl ErrNotFound
     | Some c \<Rightarrow>
         (case c_published_version_id c of
            None \<Rightarrow> Inl ErrNotFound
          | Some vid \<Rightarrow>
              (case find_version (tables w) vid of
                 None \<Rightarrow> Inl ErrNotFound
               | Some v \<Rightarrow> Inr (public_of c v))), w)"
proof -
  let ?d = "tables w"
  have slugs: "distinct (map c_slug (contents ?d))"
    using ok by (simp add: db_ok_def contents_ok_def)
  have run: "get_public_by_slug slug w =
      (case first_row (filter (\<lambda>(c, v). c_slug c = slug) (published_join ?d)) of
         None \<Rightarrow> Inl ErrNotFound | Some (c, v) \<Rightarrow> Inr (public_of c v), w)"
    using nf
    by (auto simp: get_public_by_slug_def map_err_def io_catch_def io_bind_def nofault
        io_throw_def io_return_def no_rows_to_def scan_public_eq split: option.split)
  have "filter (\<lambda>(c, v). c_slug c = slug) (published_join ?d) =
      (case row_with c_slug slug (contents ?d) of None \<Rightarrow> [] | Some c \<Rightarrow>
        map (Pair c) (filter (\<lambda>v. c_published_version_id c = Some (v_id v)) (versions ?d)))"
  proof -
    have fl: "filter (\<lambda>(c, v). c_slug c = slug) (concat (map (\<lambda>c. map (Pair c) (g c)) cs)) =
        concat (map (\<lambda>c. map (Pair c) (g c)) (filter (\<lambda>c. c_slug c = slug) cs))"
      for cs :: "content_row list" and g :: "content_row \<Rightarrow> version_row list"
      by (induction cs) (auto simp: filter_map comp_def)
    show ?thesis
      unfolding published_join_def fl
      using filter_key_unique [OF slugs, of slug] filter_key_none [of c_slug slug "contents ?d"]
      by (cases "row_with c_slug slug (contents ?d)") simp_all
  qed
  note fl = this
  show ?thesis
  proof (cases "row_with c_slug slug (contents ?d)")
    case None
    show ?thesis unfolding run fl None by simp
  next
    case (Some c)
    then have "c \<in> set (contents ?d)" by (blast dest: row_with_SomeD)
    note pv = published_version_of [OF ok this]
    show ?thesis
      unfolding run fl Some option.case pv
      by (simp add: first_row_def split: option.split)
  qed
qed

end
