(* ===== verification/Clock.thy ===== *)
theory Clock
  imports Sql
begin

text \<open>
  \<open>internal/clock/clock.go\<close>: instants, the conversion to and from the Unix milliseconds that every
  column stores, and the two clocks. An instant (\<open>time.Time\<close> in UTC) is the number of nanoseconds
  since the Unix epoch; Go's integer division and remainder, which truncate, are written out.
\<close>

type_synonym instant = int

definition go_div :: "int \<Rightarrow> int \<Rightarrow> int" where
  "go_div a b = sgn a * sgn b * (\<bar>a\<bar> div \<bar>b\<bar>)"

definition go_mod :: "int \<Rightarrow> int \<Rightarrow> int" where
  "go_mod a b = a - go_div a b * b"

text \<open>\<open>time.Unix(sec, nsec)\<close>: brings the nanoseconds into 0..999999999 first.\<close>

definition time_unix :: "int64 \<Rightarrow> int64 \<Rightarrow> instant" where
  "time_unix sec nsec =
     (if nsec < 0 \<or> nsec \<ge> 1000000000
      then let n = go_div nsec 1000000000;
               sec1 = sec + n;
               nsec1 = nsec - n * 1000000000
           in if nsec1 < 0 then (sec1 - 1) * 1000000000 + (nsec1 + 1000000000)
              else sec1 * 1000000000 + nsec1
      else sec * 1000000000 + nsec)"

text \<open>\<open>ToMillis\<close>: seconds times 1000 plus the milliseconds of the fraction, in an int64.\<close>

definition to_millis :: "instant \<Rightarrow> int64" where
  "to_millis t = wrap64 ((t div 1000000000) * 1000 + (t mod 1000000000) div 1000000)"

definition from_millis :: "int64 \<Rightarrow> instant" where
  "from_millis ms = time_unix (go_div ms 1000) (go_mod ms 1000 * 1000000)"

definition time_add :: "instant \<Rightarrow> int64 \<Rightarrow> instant" where
  "time_add t d = t + d"

text \<open>\<open>clock.Fake\<close>.\<close>

record fake_clock =
  fc_now :: instant

definition new_fake :: "instant \<Rightarrow> fake_clock" where
  "new_fake t = \<lparr>fc_now = t\<rparr>"

definition fake_now :: "fake_clock \<Rightarrow> instant" where
  "fake_now f = fc_now f"

definition fake_advance :: "int64 \<Rightarrow> fake_clock \<Rightarrow> fake_clock" where
  "fake_advance d f = f\<lparr>fc_now := time_add (fc_now f) d\<rparr>"

definition fake_set :: "instant \<Rightarrow> fake_clock \<Rightarrow> fake_clock" where
  "fake_set t f = f\<lparr>fc_now := t\<rparr>"

text \<open>
  \<open>Clock.Now\<close> in the world: the current reading; the following readings are the world's to
  choose, and the last one stays.
\<close>

definition clk_now :: "instant io" where
  "clk_now w =
     (Inr (clock_now w),
      case clock_later w of [] \<Rightarrow> w | t # ts \<Rightarrow> w\<lparr>clock_now := t, clock_later := ts\<rparr>)"

section \<open>Facts\<close>

lemma readonly_clk_now [readonly_intros]: "readonly clk_now"
  by (auto simp: readonly_def clk_now_def split: list.split)

lemma clk_now_effect: "clk_now w = (r, w') \<Longrightarrow> tables w' = tables w \<and> r = Inr (clock_now w)"
  by (auto simp: clk_now_def split: list.splits)

lemma clk_now_faults: "clk_now w = (r, w') \<Longrightarrow> faults w' = faults w"
  by (auto simp: clk_now_def split: list.splits)

text \<open>A clock that stands still: every reading is the current one.\<close>

lemma clk_now_still [nofault]: "clock_later w = [] \<Longrightarrow> clk_now w = (Inr (clock_now w), w)"
  by (simp add: clk_now_def)

lemma go_div_mod_pos: "0 \<le> a \<Longrightarrow> 0 < b \<Longrightarrow> go_div a b = a div b \<and> go_mod a b = a mod b"
  by (cases "a = 0") (simp_all add: go_div_def go_mod_def sgn_if minus_div_mult_eq_mod)

lemma go_mod_bounds: "0 < b \<Longrightarrow> - b < go_mod a b \<and> go_mod a b < b"
proof (cases "0 \<le> a")
  case True
  assume b: "0 < b"
  show ?thesis
    using go_div_mod_pos [OF True b] pos_mod_sign [OF b, of a] pos_mod_bound [OF b, of a] b by linarith
next
  case False
  assume b: "0 < b"
  from False b have "go_mod a b = - ((- a) mod b)"
    by (simp add: go_mod_def go_div_def sgn_if minus_div_mult_eq_mod [symmetric])
  then show ?thesis
    using pos_mod_sign [OF b, of "- a"] pos_mod_bound [OF b, of "- a"] b by linarith
qed

lemma from_millis_eq: "from_millis ms = ms * 1000000"
proof -
  let ?r = "go_mod ms 1000"
  have ms: "ms = go_div ms 1000 * 1000 + ?r" by (simp add: go_mod_def)
  have b: "- 1000 < ?r" "?r < 1000" using go_mod_bounds [of 1000 ms] by simp_all
  show ?thesis
  proof (cases "0 \<le> ?r")
    case True
    with b ms show ?thesis by (simp add: from_millis_def time_unix_def)
  next
    case False
    then have "go_div (?r * 1000000) 1000000000 = 0"
      using b by (simp add: go_div_def)
    with False ms show ?thesis by (simp add: from_millis_def time_unix_def Let_def)
  qed
qed

lemma to_millis_eq: "to_millis t = wrap64 (t div 1000000)"
proof -
  have "t div 1000000 = (t div 1000000000) * 1000 + (t mod 1000000000) div 1000000"
  proof -
    have "t = t mod 1000000000 + (t div 1000000000 * 1000) * 1000000"
      using mod_div_mult_eq [of t 1000000000] by (simp add: mult.assoc)
    then have "t div 1000000 = (t mod 1000000000 + (t div 1000000000 * 1000) * 1000000) div 1000000"
      by simp
    also have "\<dots> = t div 1000000000 * 1000 + (t mod 1000000000) div 1000000"
      by (rule div_mult_self1) simp
    finally show ?thesis .
  qed
  then show ?thesis by (simp add: to_millis_def)
qed

end
