(* ===== verification/Go_Strings.thy ===== *)
theory Go_Strings
  imports Prelude
begin

text \<open>
  What the program uses of Go's string functions. A Go string is its bytes, one \<open>char\<close> each, so
  \<open>len\<close> is \<open>length\<close>; the functions that see runes (\<open>strings.TrimSpace\<close>,
  \<open>utf8.RuneCountInString\<close>) decode UTF-8 as Go does, an invalid byte being a rune of width 1.
\<close>

section \<open>Prefixes and suffixes\<close>

definition has_prefix :: "string \<Rightarrow> string \<Rightarrow> bool" where
  "has_prefix p s \<longleftrightarrow> take (length p) s = p"

lemma has_prefixD: "has_prefix p s \<Longrightarrow> s = p @ drop (length p) s"
  by (metis append_take_drop_id has_prefix_def)

lemma has_prefix_drop: "p \<noteq> [] \<Longrightarrow> has_prefix p s \<Longrightarrow> length (drop (length p) s) < length s"
  by (cases s) (auto simp: has_prefix_def)

lemma has_prefix_append [simp]: "has_prefix p (p @ s)"
  by (simp add: has_prefix_def)

section \<open>TrimSpace\<close>

text \<open>The UTF-8 encodings of the runes of \<open>unicode.IsSpace\<close>.\<close>

definition space_encodings :: "string list" where
  "space_encodings =
     [[CHR 0x09], [CHR 0x0A], [CHR 0x0B], [CHR 0x0C], [CHR 0x0D], [CHR 0x20],
      [CHR 0xC2, CHR 0x85], [CHR 0xC2, CHR 0xA0], [CHR 0xE1, CHR 0x9A, CHR 0x80],
      [CHR 0xE2, CHR 0x80, CHR 0x80], [CHR 0xE2, CHR 0x80, CHR 0x81],
      [CHR 0xE2, CHR 0x80, CHR 0x82], [CHR 0xE2, CHR 0x80, CHR 0x83],
      [CHR 0xE2, CHR 0x80, CHR 0x84], [CHR 0xE2, CHR 0x80, CHR 0x85],
      [CHR 0xE2, CHR 0x80, CHR 0x86], [CHR 0xE2, CHR 0x80, CHR 0x87],
      [CHR 0xE2, CHR 0x80, CHR 0x88], [CHR 0xE2, CHR 0x80, CHR 0x89],
      [CHR 0xE2, CHR 0x80, CHR 0x8A], [CHR 0xE2, CHR 0x80, CHR 0xA8],
      [CHR 0xE2, CHR 0x80, CHR 0xA9], [CHR 0xE2, CHR 0x80, CHR 0xAF],
      [CHR 0xE2, CHR 0x81, CHR 0x9F], [CHR 0xE3, CHR 0x80, CHR 0x80]]"

text \<open>Strip the given non-empty words from the front as long as one of them is there.\<close>

function strip_words :: "string list \<Rightarrow> string \<Rightarrow> string" where
  "strip_words ws s =
     (case find (\<lambda>w. w \<noteq> [] \<and> has_prefix w s) ws of
        None \<Rightarrow> s
      | Some w \<Rightarrow> strip_words ws (drop (length w) s))"
  by pat_completeness auto
termination
  by (relation "measure (\<lambda>(ws, s). length s)")
    (auto simp: find_Some_iff simp del: length_drop intro: has_prefix_drop)

declare strip_words.simps [simp del]

definition trim_left :: "string \<Rightarrow> string" where
  "trim_left s = strip_words space_encodings s"

text \<open>From the right, a rune is a space when its encoding is the end of the string.\<close>

definition trim_right :: "string \<Rightarrow> string" where
  "trim_right s = rev (strip_words (map rev space_encodings) (rev s))"

definition trim_space :: "string \<Rightarrow> string" where
  "trim_space s = trim_right (trim_left s)"

definition stripped :: "string list \<Rightarrow> string \<Rightarrow> bool" where
  "stripped ws s \<longleftrightarrow> (\<forall>w \<in> set ws. w \<noteq> [] \<longrightarrow> \<not> has_prefix w s)"

lemma strip_words_id: "stripped ws s \<Longrightarrow> strip_words ws s = s"
  by (subst strip_words.simps) (auto simp: stripped_def find_None_iff split: option.split
      dest!: find_Some_iff [THEN iffD1])

lemma strip_words_stripped: "stripped ws (strip_words ws s)"
proof (induction ws s rule: strip_words.induct)
  case (1 ws s)
  then show ?case
    by (subst strip_words.simps)
      (auto simp: stripped_def find_None_iff split: option.split)
qed

lemma strip_words_suffix: "\<exists>p. s = p @ strip_words ws s"
proof (induction ws s rule: strip_words.induct)
  case (1 ws s)
  show ?case
  proof (cases "find (\<lambda>w. w \<noteq> [] \<and> has_prefix w s) ws")
    case None
    then show ?thesis by (subst strip_words.simps) simp
  next
    case (Some w)
    then have "has_prefix w s" by (auto simp: find_Some_iff)
    with 1 Some obtain p where "drop (length w) s = p @ strip_words ws (drop (length w) s)"
      by blast
    with Some have "s = (w @ p) @ strip_words ws s"
      using has_prefixD [OF \<open>has_prefix w s\<close>] by (simp add: strip_words.simps [of ws s])
    then show ?thesis by blast
  qed
qed

lemma stripped_take: "stripped ws (s @ t) \<Longrightarrow> stripped ws s"
  by (auto simp: stripped_def has_prefix_def)

lemma trim_right_prefix: "\<exists>t. s = trim_right s @ t"
proof -
  obtain p where "rev s = p @ strip_words (map rev space_encodings) (rev s)"
    using strip_words_suffix by blast
  then have "s = trim_right s @ rev p"
    by (metis rev_append rev_rev_ident trim_right_def)
  then show ?thesis ..
qed

lemma trim_left_stripped: "stripped space_encodings (trim_space s)"
proof -
  obtain t where "trim_left s = trim_right (trim_left s) @ t"
    using trim_right_prefix by blast
  then show ?thesis
    by (metis strip_words_stripped stripped_take trim_left_def trim_space_def)
qed

lemma trim_right_stripped: "stripped (map rev space_encodings) (rev (trim_space s))"
  by (simp add: trim_space_def trim_right_def strip_words_stripped)

lemma trim_space_idem: "trim_space (trim_space s) = trim_space s"
  using strip_words_id [OF trim_left_stripped, of s] strip_words_id [OF trim_right_stripped, of s]
  by (simp add: trim_space_def [of "trim_space s"] trim_left_def trim_right_def)

lemma trim_space_infix: "\<exists>p q. s = p @ trim_space s @ q"
proof -
  obtain p where p: "s = p @ trim_left s"
    using strip_words_suffix [of s space_encodings] by (auto simp: trim_left_def)
  obtain q where "trim_left s = trim_right (trim_left s) @ q"
    using trim_right_prefix by blast
  with p show ?thesis by (metis trim_space_def)
qed

lemma trim_space_Nil [simp]: "trim_space [] = []"
  using trim_space_infix [of "[]"] by simp

section \<open>Runes\<close>

definition byte_of :: "char \<Rightarrow> nat" where
  "byte_of c = of_char c"

definition between :: "nat \<Rightarrow> nat \<Rightarrow> nat \<Rightarrow> bool" where
  "between lo hi b \<longleftrightarrow> lo \<le> b \<and> b \<le> hi"

definition cont_byte :: "nat \<Rightarrow> bool" where
  "cont_byte b = between 0x80 0xBF b"

text \<open>The width of the first rune of a non-empty string: 1 for an invalid sequence.\<close>

definition rune_width :: "string \<Rightarrow> nat" where
  "rune_width s =
     (case map byte_of (take 4 s) of
        b0 # b1 # b2 # b3 # _ \<Rightarrow>
          if between 0xC2 0xDF b0 \<and> cont_byte b1 then 2
          else if ((b0 = 0xE0 \<and> between 0xA0 0xBF b1) \<or> (b0 = 0xED \<and> between 0x80 0x9F b1) \<or>
                   ((between 0xE1 0xEC b0 \<or> between 0xEE 0xEF b0) \<and> cont_byte b1)) \<and>
                  cont_byte b2 then 3
          else if ((b0 = 0xF0 \<and> between 0x90 0xBF b1) \<or> (b0 = 0xF4 \<and> between 0x80 0x8F b1) \<or>
                   (between 0xF1 0xF3 b0 \<and> cont_byte b1)) \<and>
                  cont_byte b2 \<and> cont_byte b3 then 4
          else 1
      | [b0, b1, b2] \<Rightarrow>
          if between 0xC2 0xDF b0 \<and> cont_byte b1 then 2
          else if ((b0 = 0xE0 \<and> between 0xA0 0xBF b1) \<or> (b0 = 0xED \<and> between 0x80 0x9F b1) \<or>
                   ((between 0xE1 0xEC b0 \<or> between 0xEE 0xEF b0) \<and> cont_byte b1)) \<and>
                  cont_byte b2 then 3
          else 1
      | [b0, b1] \<Rightarrow> if between 0xC2 0xDF b0 \<and> cont_byte b1 then 2 else 1
      | _ \<Rightarrow> 1)"

lemma rune_width_pos: "1 \<le> rune_width s"
  by (auto simp: rune_width_def split: list.split)

function rune_count :: "string \<Rightarrow> nat" where
  "rune_count [] = 0"
| "rune_count (c # cs) = Suc (rune_count (drop (rune_width (c # cs)) (c # cs)))"
  by pat_completeness auto
termination
  by (relation "measure length") (use rune_width_pos in \<open>auto simp: Suc_le_eq\<close>)

lemma rune_count_le: "rune_count s \<le> length s"
proof (induction s rule: rune_count.induct)
  case (2 c cs)
  have "length (drop (rune_width (c # cs)) (c # cs)) \<le> length cs"
    using rune_width_pos [of "c # cs"] by simp
  with 2 show ?case by simp
qed simp

lemma rune_width_ascii: "byte_of c < 0x80 \<Longrightarrow> rune_width (c # cs) = 1"
  by (auto simp: rune_width_def between_def split: list.split)

lemma rune_count_ascii: "(\<forall>c \<in> set s. byte_of c < 0x80) \<Longrightarrow> rune_count s = length s"
  by (induction s) (simp_all add: rune_width_ascii)

end
