(* ===== verification/Slug.thy ===== *)
theory Slug
  imports Go_Strings
begin

text \<open>
  The slug pattern of \<open>internal/content/service.go\<close>. The regular expression is kept as an
  expression and matched by derivatives; its language is proved to be the words of lower-case
  letters and digits separated by single hyphens, which a one-pass scanner recognises.
\<close>

datatype regex =
    Never
  | Empty
  | Class "char \<Rightarrow> bool"
  | Alt regex regex
  | Cat regex regex
  | Star regex

definition Plus :: "regex \<Rightarrow> regex" where
  "Plus r = Cat r (Star r)"

fun nullable :: "regex \<Rightarrow> bool" where
  "nullable Never = False"
| "nullable Empty = True"
| "nullable (Class p) = False"
| "nullable (Alt r s) = (nullable r \<or> nullable s)"
| "nullable (Cat r s) = (nullable r \<and> nullable s)"
| "nullable (Star r) = True"

fun deriv :: "char \<Rightarrow> regex \<Rightarrow> regex" where
  "deriv c Never = Never"
| "deriv c Empty = Never"
| "deriv c (Class p) = (if p c then Empty else Never)"
| "deriv c (Alt r s) = Alt (deriv c r) (deriv c s)"
| "deriv c (Cat r s) =
     (if nullable r then Alt (Cat (deriv c r) s) (deriv c s) else Cat (deriv c r) s)"
| "deriv c (Star r) = Cat (deriv c r) (Star r)"

text \<open>\<open>MatchString\<close> of a pattern anchored with \<open>^\<close> and \<open>$\<close>: the whole string matches.\<close>

fun full_match :: "regex \<Rightarrow> string \<Rightarrow> bool" where
  "full_match r [] = nullable r"
| "full_match r (c # cs) = full_match (deriv c r) cs"

definition slug_char :: "char \<Rightarrow> bool" where
  "slug_char c \<longleftrightarrow> between 0x61 0x7A (byte_of c) \<or> between 0x30 0x39 (byte_of c)"

definition hyphen :: char where
  "hyphen = CHR ''-''"

definition slug_pattern :: regex where
  "slug_pattern = Cat (Plus (Class slug_char))
     (Star (Cat (Class (\<lambda>c. c = hyphen)) (Plus (Class slug_char))))"

section \<open>The language of an expression\<close>

inductive matches :: "regex \<Rightarrow> string \<Rightarrow> bool" where
  Empty: "matches Empty []"
| Class: "p c \<Longrightarrow> matches (Class p) [c]"
| AltL: "matches r s \<Longrightarrow> matches (Alt r r') s"
| AltR: "matches r' s \<Longrightarrow> matches (Alt r r') s"
| Cat: "matches r s \<Longrightarrow> matches r' s' \<Longrightarrow> matches (Cat r r') (s @ s')"
| Star0: "matches (Star r) []"
| StarS: "matches r s \<Longrightarrow> matches (Star r) s' \<Longrightarrow> matches (Star r) (s @ s')"

inductive_cases matches_NeverE: "matches Never s"
inductive_cases matches_EmptyE: "matches Empty s"
inductive_cases matches_ClassE: "matches (Class p) s"
inductive_cases matches_AltE: "matches (Alt r r') s"
inductive_cases matches_CatE: "matches (Cat r r') s"

lemma matches_simps [simp]:
  "\<not> matches Never s"
  "matches Empty s \<longleftrightarrow> s = []"
  "matches (Class p) s \<longleftrightarrow> (\<exists>c. s = [c] \<and> p c)"
  "matches (Alt r r') s \<longleftrightarrow> matches r s \<or> matches r' s"
  by (auto intro: matches.intros
      elim: matches_NeverE matches_EmptyE matches_ClassE matches_AltE)

lemma matches_Cat_iff:
  "matches (Cat r r') s \<longleftrightarrow> (\<exists>u v. s = u @ v \<and> matches r u \<and> matches r' v)"
  by (blast intro: matches.Cat elim: matches_CatE)

lemma nullable_iff: "nullable r \<longleftrightarrow> matches r []"
  by (induction r) (auto simp: matches_Cat_iff intro: matches.Star0)

lemma matches_Star_Cons:
  "matches (Star r) (c # cs) \<Longrightarrow> \<exists>u v. cs = u @ v \<and> matches r (c # u) \<and> matches (Star r) v"
proof (induction "Star r" "c # cs" arbitrary: cs rule: matches.induct)
  case (StarS s s')
  then show ?case by (cases s) auto
qed

lemma matches_Cat_Cons:
  "matches (Cat r r') (c # cs) \<longleftrightarrow>
   (\<exists>u v. cs = u @ v \<and> matches r (c # u) \<and> matches r' v) \<or> (matches r [] \<and> matches r' (c # cs))"
  by (auto simp: matches_Cat_iff Cons_eq_append_conv)

lemma matches_deriv: "matches (deriv c r) cs \<longleftrightarrow> matches r (c # cs)"
proof (induction r arbitrary: cs)
  case (Cat r r')
  then show ?case
    by (auto simp: matches_Cat_Cons nullable_iff matches_Cat_iff [of "deriv c r"])
next
  case (Star r)
  have "matches (Cat (deriv c r) (Star r)) cs \<longleftrightarrow>
      (\<exists>u v. cs = u @ v \<and> matches r (c # u) \<and> matches (Star r) v)"
    by (auto simp: matches_Cat_iff Star)
  also have "\<dots> \<longleftrightarrow> matches (Star r) (c # cs)"
    using matches_Star_Cons [of r c cs] matches.StarS [of r "c # _" _]
    by (metis append_Cons)
  finally show ?case by simp
qed auto

lemma full_match_iff: "full_match r s \<longleftrightarrow> matches r s"
  by (induction r s rule: full_match.induct) (simp_all add: nullable_iff matches_deriv)

section \<open>The language of the slug pattern\<close>

text \<open>\<open>slug_scan at_start s\<close>: \<open>at_start\<close> holds at the beginning and right after a hyphen.\<close>

fun slug_scan :: "bool \<Rightarrow> string \<Rightarrow> bool" where
  "slug_scan at_start [] = (\<not> at_start)"
| "slug_scan at_start (c # cs) =
     (if slug_char c then slug_scan False cs
      else c = hyphen \<and> \<not> at_start \<and> slug_scan True cs)"

lemma hyphen_not_slug_char [simp]: "\<not> slug_char hyphen"
  by (simp add: slug_char_def hyphen_def between_def byte_of_def)

text \<open>The pattern after at least one letter of a word, and right after a hyphen.\<close>

abbreviation words_tail :: regex where
  "words_tail \<equiv> Star (Cat (Class (\<lambda>c. c = hyphen)) (Plus (Class slug_char)))"

lemma matches_Star_class: "matches (Star (Class p)) s \<longleftrightarrow> (\<forall>c \<in> set s. p c)"
proof (induction s)
  case (Cons c cs)
  have "matches (Star (Class p)) (c # cs) \<longleftrightarrow> matches (deriv c (Star (Class p))) cs"
    by (simp only: matches_deriv)
  also have "\<dots> \<longleftrightarrow> p c \<and> matches (Star (Class p)) cs"
    by (auto simp: matches_Cat_iff)
  finally show ?case using Cons by auto
qed (auto intro: matches.Star0)

lemma in_word_step:
  "matches (Cat (Star (Class slug_char)) words_tail) (c # cs) \<longleftrightarrow>
   (if slug_char c then matches (Cat (Star (Class slug_char)) words_tail) cs
    else c = hyphen \<and> matches (Cat (Plus (Class slug_char)) words_tail) cs)"
proof -
  have "matches (Cat (Star (Class slug_char)) words_tail) (c # cs) \<longleftrightarrow>
      matches (deriv c (Cat (Star (Class slug_char)) words_tail)) cs"
    by (simp only: matches_deriv)
  also have "\<dots> \<longleftrightarrow>
      matches (Cat (Cat (if slug_char c then Empty else Never) (Star (Class slug_char))) words_tail) cs \<or>
      matches (Cat (Cat (if c = hyphen then Empty else Never) (Plus (Class slug_char))) words_tail) cs"
    by simp
  also have "\<dots> \<longleftrightarrow>
   (if slug_char c then matches (Cat (Star (Class slug_char)) words_tail) cs
    else c = hyphen \<and> matches (Cat (Plus (Class slug_char)) words_tail) cs)"
    using hyphen_not_slug_char by (auto simp: matches_Cat_iff simp del: hyphen_not_slug_char)
  finally show ?thesis .
qed

lemma at_start_step:
  "matches (Cat (Plus (Class slug_char)) words_tail) (c # cs) \<longleftrightarrow>
   slug_char c \<and> matches (Cat (Star (Class slug_char)) words_tail) cs"
proof -
  have "matches (Cat (Plus (Class slug_char)) words_tail) (c # cs) \<longleftrightarrow>
      matches (deriv c (Cat (Plus (Class slug_char)) words_tail)) cs"
    by (simp only: matches_deriv)
  also have "\<dots> \<longleftrightarrow> matches (Cat (Cat (if slug_char c then Empty else Never)
      (Star (Class slug_char))) words_tail) cs"
    by (simp add: Plus_def)
  also have "\<dots> \<longleftrightarrow> slug_char c \<and> matches (Cat (Star (Class slug_char)) words_tail) cs"
    by (auto simp: matches_Cat_iff)
  finally show ?thesis .
qed

lemma slug_language:
  "slug_scan False s = matches (Cat (Star (Class slug_char)) words_tail) s \<and>
   slug_scan True s = matches slug_pattern s"
proof (induction s)
  case Nil
  have "nullable (Cat (Star (Class slug_char)) words_tail)" "\<not> nullable slug_pattern"
    by (simp_all add: slug_pattern_def Plus_def)
  then show ?case by (simp only: nullable_iff slug_scan.simps) simp
next
  case (Cons c cs)
  then show ?case
    using in_word_step [of c cs] at_start_step [of c cs]
    by (auto simp: slug_pattern_def)
qed

lemma slug_match_scan: "full_match slug_pattern s \<longleftrightarrow> slug_scan True s"
  by (simp add: full_match_iff slug_language)

lemma slug_scan_chars: "slug_scan b s \<Longrightarrow> c \<in> set s \<Longrightarrow> slug_char c \<or> c = hyphen"
  by (induction b s rule: slug_scan.induct) (auto split: if_splits)

lemma slug_scan_last: "slug_scan b s \<Longrightarrow> s \<noteq> [] \<Longrightarrow> slug_char (last s)"
  by (induction b s rule: slug_scan.induct) (auto split: if_splits)

lemma slug_scan_no_double:
  "slug_scan b (p @ hyphen # hyphen # q) = False"
  by (induction p arbitrary: b) auto

lemma slug_scan_iff:
  "slug_scan b s \<longleftrightarrow>
   (\<forall>c \<in> set s. slug_char c \<or> c = hyphen) \<and>
   (s = [] \<longrightarrow> \<not> b) \<and> (s \<noteq> [] \<longrightarrow> slug_char (last s) \<and> (b \<longrightarrow> slug_char (hd s))) \<and>
   (\<forall>p q. s \<noteq> p @ hyphen # hyphen # q)"
proof (induction b s rule: slug_scan.induct)
  case (2 b c cs)
  have "(\<exists>p q. c # cs = p @ hyphen # hyphen # q) \<longleftrightarrow>
      (c = hyphen \<and> (\<exists>q. cs = hyphen # q)) \<or> (\<exists>p q. cs = p @ hyphen # hyphen # q)"
    by (auto simp: Cons_eq_append_conv)
  then have split: "(\<forall>p q. c # cs \<noteq> p @ hyphen # hyphen # q) \<longleftrightarrow>
      \<not> (c = hyphen \<and> cs \<noteq> [] \<and> hd cs = hyphen) \<and> (\<forall>p q. cs \<noteq> p @ hyphen # hyphen # q)"
    by (cases cs) auto
  show ?case
  proof (cases "slug_char c")
    case True
    then have "c \<noteq> hyphen" by auto
    with True 2 split show ?thesis by auto
  next
    case False
    with 2 split show ?thesis by (cases cs) auto
  qed
qed auto

end
