(* ===== verification/Go_Numbers.thy ===== *)
theory Go_Numbers
  imports Go_Strings
begin

text \<open>
  What the program uses of Go's \<open>strconv\<close> for integers: \<open>FormatInt\<close> and \<open>Itoa\<close> in base 10,
  \<open>ParseInt(s, 10, 64)\<close> and \<open>Atoi\<close> (the same function where an int has 64 bits). Main result: parsing
  what was formatted gives the number back.
\<close>

section \<open>Formatting\<close>

definition digit_char :: "int \<Rightarrow> char" where
  "digit_char d = char_of (48 + nat d)"

function show_digits :: "int \<Rightarrow> string" where
  "show_digits n =
     (if n < 10 then [digit_char n] else show_digits (n div 10) @ [digit_char (n mod 10)])"
  by pat_completeness auto
termination
  by (relation "measure nat") (auto simp: nat_less_eq_zless)

declare show_digits.simps [simp del]

definition show_int :: "int \<Rightarrow> string" where
  "show_int n = (if n < 0 then CHR ''-'' # show_digits (- n) else show_digits n)"

section \<open>Parsing\<close>

definition is_digit :: "char \<Rightarrow> bool" where
  "is_digit c \<longleftrightarrow> between 0x30 0x39 (byte_of c)"

definition digit_value :: "char \<Rightarrow> int" where
  "digit_value c = int (byte_of c) - 48"

fun digits_value :: "int \<Rightarrow> string \<Rightarrow> int option" where
  "digits_value acc [] = Some acc"
| "digits_value acc (c # cs) =
     (if is_digit c then digits_value (acc * 10 + digit_value c) cs else None)"

text \<open>
  An optional sign, then at least one digit and nothing else. A value that does not fit 64 bits is
  an error like a malformed one.
\<close>

definition parse_int :: "string \<Rightarrow> int64 option" where
  "parse_int s =
     (case s of
        [] \<Rightarrow> None
      | c # cs \<Rightarrow>
          let body = (if c = CHR ''-'' \<or> c = CHR ''+'' then cs else s)
          in if body = [] then None
             else case digits_value 0 body of
                 None \<Rightarrow> None
               | Some n \<Rightarrow>
                   (let v = (if c = CHR ''-'' then - n else n)
                    in if in_int64 v then Some v else None))"

section \<open>Round trip\<close>

lemma digit_char_props:
  assumes "0 \<le> d" "d < 10"
  shows "is_digit (digit_char d)" and "digit_value (digit_char d) = d"
    and "digit_char d \<noteq> CHR ''-''" and "digit_char d \<noteq> CHR ''+''"
proof -
  have byte: "byte_of (digit_char d) = 48 + nat d"
    using assms by (simp add: byte_of_def digit_char_def nat_less_iff)
  then show "is_digit (digit_char d)" and "digit_value (digit_char d) = d"
    using assms by (auto simp: is_digit_def between_def digit_value_def)
  have "byte_of (CHR ''-'') = 45" "byte_of (CHR ''+'') = 43"
    by (simp_all add: byte_of_def)
  with byte show "digit_char d \<noteq> CHR ''-''" "digit_char d \<noteq> CHR ''+''" by force+
qed

lemma digits_value_append:
  "digits_value acc (xs @ ys) =
     (case digits_value acc xs of None \<Rightarrow> None | Some v \<Rightarrow> digits_value v ys)"
  by (induction xs arbitrary: acc) auto

lemma show_digits_digits: "0 \<le> n \<Longrightarrow> c \<in> set (show_digits n) \<Longrightarrow> is_digit c"
proof (induction n rule: show_digits.induct)
  case (1 n)
  then show ?case
    by (subst (asm) (2) show_digits.simps) (auto simp: digit_char_props split: if_splits)
qed

lemma show_digits_not_Nil [simp]: "show_digits n \<noteq> []"
  by (subst show_digits.simps) simp

lemma digits_value_show: "0 \<le> n \<Longrightarrow> digits_value 0 (show_digits n) = Some n"
proof (induction n rule: show_digits.induct)
  case (1 n)
  show ?case
  proof (cases "n < 10")
    case True
    with 1 show ?thesis by (subst show_digits.simps) (simp add: digit_char_props)
  next
    case False
    with 1 have "digits_value 0 (show_digits (n div 10)) = Some (n div 10)" by simp
    with False show ?thesis
      by (subst show_digits.simps) (simp add: digits_value_append digit_char_props)
  qed
qed

lemma is_digit_not_sign: "is_digit c \<Longrightarrow> c \<noteq> CHR ''-'' \<and> c \<noteq> CHR ''+''"
  by (auto simp: is_digit_def between_def byte_of_def)

lemma parse_int_show: "in_int64 n \<Longrightarrow> parse_int (show_int n) = Some n"
proof (cases "n < 0")
  case True
  assume "in_int64 n"
  with True show ?thesis
    by (simp add: parse_int_def show_int_def digits_value_show)
next
  case False
  assume n: "in_int64 n"
  obtain c cs where s: "show_digits n = c # cs" by (cases "show_digits n") auto
  then have "is_digit c" using False show_digits_digits [of n c] by simp
  then have "c \<noteq> CHR ''-''" "c \<noteq> CHR ''+''" using is_digit_not_sign by blast+
  with n s False show ?thesis
    using digits_value_show [of n] by (simp add: parse_int_def show_int_def)
qed

lemma show_int_not_Nil [simp]: "show_int n \<noteq> []"
  by (simp add: show_int_def)

lemma show_digits_inj: "0 \<le> m \<Longrightarrow> 0 \<le> n \<Longrightarrow> show_digits m = show_digits n \<longleftrightarrow> m = n"
  by (metis digits_value_show option.inject)

lemma show_int_inj [simp]: "show_int m = show_int n \<longleftrightarrow> m = n"
proof
  assume eq: "show_int m = show_int n"
  have head: "hd (show_digits k) \<noteq> CHR ''-''" if "0 \<le> k" for k
    using that show_digits_digits [of k "hd (show_digits k)"] is_digit_not_sign by auto
  show "m = n"
  proof (cases "m < 0 \<longleftrightarrow> n < 0")
    case True
    with eq show ?thesis
      using show_digits_inj [of "- m" "- n"] show_digits_inj [of m n]
      by (cases "m < 0") (simp_all add: show_int_def)
  next
    case False
    with eq show ?thesis
      using head [of m] head [of n]
      by (auto simp: show_int_def split: if_splits) (metis list.sel(1))
  qed
qed simp

lemma show_int_chars: "c \<in> set (show_int n) \<Longrightarrow> is_digit c \<or> c = CHR ''-''"
  using show_digits_digits [of n c] show_digits_digits [of "- n" c]
  by (auto simp: show_int_def split: if_splits)

lemma parse_int_range: "parse_int s = Some v \<Longrightarrow> in_int64 v"
  by (auto simp: parse_int_def Let_def split: list.splits option.splits if_splits)

end
