(* ===== verification/Service.thy ===== *)
theory Service
  imports Store_Public Clock Slug Go_Numbers
begin

text \<open>
  The domain layer, \<open>internal/content/service.go\<close> and \<open>internal/content/publish.go\<close>: validation and
  normalisation of input, and the operations that combine store calls with the clock. The identifier
  from \<open>uuid.NewString\<close> is an argument.
\<close>

section \<open>Validation\<close>

definition max_slug_len :: int where "max_slug_len = 200"
definition max_title_len :: int where "max_title_len = 500"
definition max_body_len :: int where "max_body_len = 500000"
definition max_meta_len :: int where "max_meta_len = 1000"
definition max_url_len :: int where "max_url_len = 2000"

definition invalid :: "string \<Rightarrow> string \<Rightarrow> go_error" where
  "invalid fld msg = ValidationError fld msg"

definition at_most_msg :: "int \<Rightarrow> string" where
  "at_most_msg n = ''must be at most '' @ show_int n @ '' characters''"

definition validate_slug :: "string \<Rightarrow> go_error option" where
  "validate_slug slug =
     (if slug = [] then Some (invalid ''slug'' ''must not be empty'')
      else if int (length slug) > max_slug_len then Some (invalid ''slug'' (at_most_msg max_slug_len))
      else if \<not> full_match slug_pattern slug
        then Some (invalid ''slug'' ''must be lowercase alphanumerics separated by single hyphens'')
      else None)"

definition trim_fields :: "version_fields \<Rightarrow> version_fields" where
  "trim_fields f =
     f\<lparr>f_title := trim_space (f_title f), f_meta_title := trim_space (f_meta_title f),
       f_meta_description := trim_space (f_meta_description f),
       f_canonical_url := trim_space (f_canonical_url f),
       f_og_image_url := trim_space (f_og_image_url f)\<rparr>"

definition field_limits :: "version_fields \<Rightarrow> (string \<times> string \<times> int) list" where
  "field_limits f =
     [(''title'', f_title f, max_title_len), (''body'', f_body f, max_body_len),
      (''meta_title'', f_meta_title f, max_meta_len),
      (''meta_description'', f_meta_description f, max_meta_len),
      (''canonical_url'', f_canonical_url f, max_url_len),
      (''og_image_url'', f_og_image_url f, max_url_len)]"

fun check_limits :: "(string \<times> string \<times> int) list \<Rightarrow> go_error option" where
  "check_limits [] = None"
| "check_limits ((fld, val, n) # rest) =
     (if int (rune_count val) > n then Some (invalid fld (at_most_msg n)) else check_limits rest)"

text \<open>\<open>normalizeFields\<close>. The body is not trimmed.\<close>

definition normalize_fields :: "version_fields \<Rightarrow> go_error + version_fields" where
  "normalize_fields f0 =
     (let f = trim_fields f0 in
      if f_title f = [] then Inl (invalid ''title'' ''must not be empty'')
      else case check_limits (field_limits f) of Some e \<Rightarrow> Inl e | None \<Rightarrow> Inr f)"

definition lift_sum :: "go_error + 'a \<Rightarrow> 'a io" where
  "lift_sum r = (case r of Inl e \<Rightarrow> io_throw e | Inr x \<Rightarrow> io_return x)"

definition now_millis :: "int64 io" where
  "now_millis = io_bind clk_now (\<lambda>t. io_return (to_millis t))"

section \<open>service.go\<close>

record create_input =
  ci_slug :: string
  ci_fields :: version_fields
  ci_actor :: string

record update_input =
  ui_id :: string
  ui_expected_version :: int64
  ui_fields :: version_fields
  ui_actor :: string

definition service_create :: "string \<Rightarrow> create_input \<Rightarrow> content_with_version io" where
  "service_create uuid i =
     (let slug = trim_space (ci_slug i) in
      case validate_slug slug of
        Some e \<Rightarrow> io_throw e
      | None \<Rightarrow>
          io_bind (lift_sum (normalize_fields (ci_fields i)))
          (\<lambda>fields. io_bind now_millis
          (\<lambda>now. create_content uuid slug fields (ci_actor i) now)))"

definition service_update :: "update_input \<Rightarrow> content_with_version io" where
  "service_update i =
     io_bind (lift_sum (normalize_fields (ui_fields i)))
     (\<lambda>fields. io_bind now_millis
     (\<lambda>now. update_content (ui_id i) (ui_expected_version i) fields (ui_actor i) now))"

definition service_get :: "string \<Rightarrow> content_with_version io" where
  "service_get cid = get_content_with_current_version cid"

definition service_list :: "int \<Rightarrow> int \<Rightarrow> (content_with_version list \<times> nat) io" where
  "service_list limit offset =
     io_bind (list_contents limit offset)
     (\<lambda>items. io_bind count_contents (\<lambda>total. io_return (items, total)))"

definition service_list_versions :: "string \<Rightarrow> int \<Rightarrow> int \<Rightarrow> version_row list io" where
  "service_list_versions cid limit offset = list_versions cid limit offset"

definition service_get_version :: "string \<Rightarrow> int64 \<Rightarrow> version_row io" where
  "service_get_version cid ver = get_version cid ver"

section \<open>publish.go\<close>

definition service_publish :: "string \<Rightarrow> int64 \<Rightarrow> string \<Rightarrow> content_row io" where
  "service_publish cid ver actor =
     io_bind (get_version cid ver)
     (\<lambda>v. io_bind now_millis
     (\<lambda>now. publish
        \<lparr>pp_content_id = cid, pp_version_id = v_id v, pp_source = SourceManual,
         pp_actor = actor, pp_schedule_id = None, pp_now = now\<rparr>))"

definition service_unpublish :: "string \<Rightarrow> string \<Rightarrow> content_row io" where
  "service_unpublish cid actor = io_bind now_millis (\<lambda>now. unpublish cid actor now)"

record schedule_input =
  si_content_id :: string
  si_version :: int64
  si_run_at_ms :: int64

definition service_schedule :: "string \<Rightarrow> schedule_input \<Rightarrow> schedule_row io" where
  "service_schedule uuid i =
     io_bind now_millis
     (\<lambda>now.
       if si_run_at_ms i \<le> now
       then io_throw (invalid ''run_at''
              ''must be in the future; use the publish endpoint to publish immediately'')
       else io_bind (get_version (si_content_id i) (si_version i))
         (\<lambda>v. create_schedule uuid (si_content_id i) (v_id v) (si_run_at_ms i) now))"

definition service_list_schedules :: "string \<Rightarrow> schedule_row list io" where
  "service_list_schedules cid = io_bind (get_content cid) (\<lambda>_. list_schedules cid)"

definition service_cancel_schedule :: "string \<Rightarrow> unit io" where
  "service_cancel_schedule sid = io_bind now_millis (\<lambda>now. cancel_schedule sid now)"

definition service_get_public_by_slug :: "string \<Rightarrow> public_content io" where
  "service_get_public_by_slug slug = get_public_by_slug slug"

definition service_list_public :: "int \<Rightarrow> int \<Rightarrow> (public_content list \<times> nat) io" where
  "service_list_public limit offset =
     io_bind (list_public limit offset)
     (\<lambda>items. io_bind count_public (\<lambda>total. io_return (items, total)))"

section \<open>Reads and writes\<close>

lemma readonly_lift_sum [readonly_intros]: "readonly (lift_sum r)"
  by (auto simp: lift_sum_def intro!: readonly_intros split: sum.split)

lemma readonly_now_millis [readonly_intros]: "readonly now_millis"
  by (auto simp: now_millis_def intro!: readonly_intros)

lemma readonly_service_reads [readonly_intros]:
  "readonly (service_get cid)"
  "readonly (service_list l off)"
  "readonly (service_list_versions cid l off)"
  "readonly (service_get_version cid ver)"
  "readonly (service_list_schedules cid)"
  "readonly (service_get_public_by_slug slug)"
  "readonly (service_list_public l off)"
  by (auto simp: service_get_def service_list_def service_list_versions_def
      service_get_version_def service_list_schedules_def service_get_public_by_slug_def
      service_list_public_def intro!: readonly_intros)

lemma atomic_service [atomic_intros]:
  "atomic (service_create uuid ci)"
  "atomic (service_update ui)"
  "atomic (service_publish cid ver actor)"
  "atomic (service_unpublish cid actor)"
  "atomic (service_schedule uuid si)"
  "atomic (service_cancel_schedule sid)"
  by (auto simp: service_create_def service_update_def service_publish_def service_unpublish_def
      service_schedule_def service_cancel_schedule_def Let_def
      intro!: atomic_intros readonly_intros split: option.split)

section \<open>Normalised input\<close>

lemma trim_fields_idem [simp]: "trim_fields (trim_fields f) = trim_fields f"
  by (simp add: trim_fields_def trim_space_idem)

lemma check_limits_None:
  "check_limits xs = None \<longleftrightarrow> (\<forall>(fld, val, n) \<in> set xs. int (rune_count val) \<le> n)"
  by (induction xs rule: check_limits.induct) auto

lemma normalize_fields_Inr:
  "normalize_fields f0 = Inr f \<longleftrightarrow>
   f = trim_fields f0 \<and> f_title f \<noteq> [] \<and> check_limits (field_limits f) = None"
  by (auto simp: normalize_fields_def Let_def split: option.splits)

lemma validate_slug_None:
  "validate_slug s = None \<longleftrightarrow> s \<noteq> [] \<and> int (length s) \<le> max_slug_len \<and> slug_scan True s"
  by (auto simp: validate_slug_def slug_match_scan)

text \<open>What a successful service write hands to the store.\<close>

lemma now_millis_effect:
  "now_millis w = (Inr t, w') \<Longrightarrow> tables w' = tables w \<and> t = to_millis (clock_now w)"
  by (auto simp: now_millis_def io_simps dest!: clk_now_effect)

lemma lift_sum_Inr [io_simps]: "lift_sum r w = (Inr x, w') \<longleftrightarrow> r = Inr x \<and> w' = w"
  by (auto simp: lift_sum_def io_simps split: sum.split)

lemma service_create_effect:
  assumes "service_create uuid i w = (Inr out, w')"
  shows "\<exists>w1 now. tables w1 = tables w \<and> validate_slug (trim_space (ci_slug i)) = None \<and>
    normalize_fields (ci_fields i) = Inr (trim_fields (ci_fields i)) \<and>
    create_content uuid (trim_space (ci_slug i)) (trim_fields (ci_fields i)) (ci_actor i) now w1
      = (Inr out, w')"
  using assms
  by (auto simp: service_create_def Let_def io_simps normalize_fields_Inr split: option.splits
      dest!: now_millis_effect)

lemma service_update_effect:
  assumes "service_update i w = (Inr out, w')"
  shows "\<exists>w1 now. tables w1 = tables w \<and>
    normalize_fields (ui_fields i) = Inr (trim_fields (ui_fields i)) \<and>
    update_content (ui_id i) (ui_expected_version i) (trim_fields (ui_fields i)) (ui_actor i) now w1
      = (Inr out, w')"
  using assms
  by (auto simp: service_update_def io_simps normalize_fields_Inr dest!: now_millis_effect)

lemma get_version_effect:
  assumes "get_version cid ver w = (Inr v, w')"
  shows "tables w' = tables w \<and> v \<in> set (history (tables w) cid) \<and> v_version v = ver \<and>
         v_content_id v = cid"
proof -
  from assms have "first_row (filter (\<lambda>v. v_version v = ver) (history (tables w) cid)) = Some v"
      and "tables w' = tables w"
    by (auto simp: get_version_def io_simps dest: next_fault_tables)
  then show ?thesis by (auto simp: history_def dest: first_row_SomeD)
qed

lemma service_publish_effect:
  assumes "service_publish cid ver actor w = (Inr c, w')"
  shows "\<exists>w1 v now. tables w1 = tables w \<and> v \<in> set (history (tables w) cid) \<and> v_version v = ver \<and>
    publish \<lparr>pp_content_id = cid, pp_version_id = v_id v, pp_source = SourceManual,
             pp_actor = actor, pp_schedule_id = None, pp_now = now\<rparr> w1 = (Inr c, w')"
proof -
  from assms obtain v w1 now w2 where
    "get_version cid ver w = (Inr v, w1)" "now_millis w1 = (Inr now, w2)"
    "publish \<lparr>pp_content_id = cid, pp_version_id = v_id v, pp_source = SourceManual,
             pp_actor = actor, pp_schedule_id = None, pp_now = now\<rparr> w2 = (Inr c, w')"
    by (auto simp: service_publish_def io_bind_Inr)
  with get_version_effect [of cid ver w v w1] now_millis_effect [of w1 now w2]
  show ?thesis by auto
qed

section \<open>Integrity\<close>

lemma keeps_store [keeps_intros]:
  "keeps db_ok (create_content cid slug f actor now)"
  "keeps db_ok (update_content cid expected f actor now)"
  "pp_schedule_id p = None \<Longrightarrow> keeps db_ok (publish p)"
  "keeps db_ok (unpublish cid actor now)"
  "keeps db_ok (create_schedule sid cid vid run_at now)"
  "keeps db_ok (cancel_schedule sid now)"
  "planner_ok pl \<Longrightarrow> keeps db_ok (claim_due_schedules pl worker now exp limit)"
  "keeps db_ok (fail_schedule sid worker reason now)"
  "keeps db_ok (release_claims worker now)"
  by (simp_all add: keeps_def create_content_ok update_content_ok publish_ok unpublish_ok
      create_schedule_ok cancel_schedule_ok claim_ok fail_schedule_ok release_claims_ok)

lemma keeps_reads [keeps_intros]:
  "keeps I (lift_sum r)"
  "keeps I now_millis"
  "keeps I (get_version cid ver)"
  by (simp_all add: keeps_readonly readonly_intros)

lemma keeps_service [keeps_intros]:
  "keeps db_ok (service_create uuid i)"
  "keeps db_ok (service_update ui)"
  "keeps db_ok (service_publish cid ver actor)"
  "keeps db_ok (service_unpublish cid actor)"
  "keeps db_ok (service_schedule uuid si)"
  "keeps db_ok (service_cancel_schedule sid)"
  by (auto simp: service_create_def service_update_def service_publish_def service_unpublish_def
      service_schedule_def service_cancel_schedule_def Let_def
      intro!: keeps_intros split: option.split)

end
