(* ===== verification/Etag.thy ===== *)
theory Etag
  imports Go_Numbers
begin

text \<open>
  \<open>internal/httpapi/etag.go\<close>: entity tags and the two conditional request headers. The results are
  that a tag the API hands out is read back as the version it stands for, that \<open>If-Match\<close> accepts
  exactly one strong tag, and that \<open>If-None-Match\<close> compares weakly against a list.
\<close>

section \<open>Tags\<close>

definition dquote :: char where
  "dquote = CHR 0x22"

definition format_etag :: "int64 \<Rightarrow> string" where
  "format_etag v = dquote # show_int v @ [dquote]"

datatype if_match_error = ErrNoIfMatch | ErrBadIfMatch | ErrWeakIfMatch

fun if_match_text :: "if_match_error \<Rightarrow> string" where
  "if_match_text ErrNoIfMatch = ''missing If-Match header''"
| "if_match_text ErrBadIfMatch = ''malformed If-Match header''"
| "if_match_text ErrWeakIfMatch = ''If-Match must be a strong validator''"

text \<open>\<open>parseIfMatch\<close>: the version and whether the header is the wildcard.\<close>

definition parse_if_match :: "string \<Rightarrow> if_match_error + (int64 \<times> bool)" where
  "parse_if_match header =
     (let raw = trim_space header in
      if raw = [] then Inl ErrNoIfMatch
      else if raw = ''*'' then Inr (0, True)
      else if CHR '','' \<in> set raw then Inl ErrBadIfMatch
      else if has_prefix ''W/'' raw then Inl ErrWeakIfMatch
      else if length raw < 2 \<or> hd raw \<noteq> dquote \<or> last raw \<noteq> dquote then Inl ErrBadIfMatch
      else case parse_int (butlast (tl raw)) of
          None \<Rightarrow> Inl ErrBadIfMatch
        | Some v \<Rightarrow> if v < 1 then Inl ErrBadIfMatch else Inr (v, False))"

text \<open>\<open>strings.Split\<close> at one character, and \<open>strings.TrimPrefix\<close>.\<close>

fun split_at :: "char \<Rightarrow> string \<Rightarrow> string list" where
  "split_at sep [] = [[]]"
| "split_at sep (c # cs) =
     (if c = sep then [] # split_at sep cs
      else case split_at sep cs of [] \<Rightarrow> [[c]] | w # ws \<Rightarrow> (c # w) # ws)"

definition trim_prefix :: "string \<Rightarrow> string \<Rightarrow> string" where
  "trim_prefix p s = (if has_prefix p s then drop (length p) s else s)"

definition if_none_match_matches :: "string \<Rightarrow> string \<Rightarrow> bool" where
  "if_none_match_matches header current =
     (let raw = trim_space header in
      if raw = [] then False
      else if raw = ''*'' then True
      else \<exists>candidate \<in> set (split_at (CHR '','') raw).
             trim_prefix ''W/'' (trim_space candidate) = current)"

section \<open>Tags have no white space around them\<close>

definition ascii_visible :: "char \<Rightarrow> bool" where
  "ascii_visible c \<longleftrightarrow> between 0x21 0x7E (byte_of c)"

lemma space_encoding_ends:
  "w \<in> set space_encodings \<Longrightarrow> \<not> ascii_visible (hd w) \<and> \<not> ascii_visible (last w) \<and> w \<noteq> []"
  by (auto simp: space_encodings_def ascii_visible_def between_def byte_of_def)

lemma stripped_visible:
  assumes "s = [] \<or> ascii_visible (hd s)" and "\<And>w. w \<in> set ws \<Longrightarrow> w \<noteq> [] \<and> \<not> ascii_visible (hd w)"
  shows "stripped ws s"
proof -
  have "\<not> has_prefix w s" if "w \<in> set ws" for w
  proof
    assume "has_prefix w s"
    from has_prefixD [OF this] have "s = w @ drop (length w) s" .
    with assms(2) [OF that] have "s \<noteq> []" "hd s = hd w" by (metis append_is_Nil_conv, metis hd_append2)
    with assms(1) assms(2) [OF that] show False by simp
  qed
  then show ?thesis by (simp add: stripped_def)
qed

lemma trim_space_visible:
  assumes "s = [] \<or> (ascii_visible (hd s) \<and> ascii_visible (last s))"
  shows "trim_space s = s"
proof -
  have "stripped space_encodings s"
    using assms by (intro stripped_visible) (auto dest: space_encoding_ends)
  moreover have "stripped (map rev space_encodings) (rev s)"
    using assms space_encoding_ends by (intro stripped_visible) (auto simp: hd_rev)
  ultimately show ?thesis
    by (simp add: trim_space_def trim_left_def trim_right_def strip_words_id)
qed

lemma dquote_visible [simp]: "ascii_visible dquote"
  by (simp add: ascii_visible_def dquote_def between_def byte_of_def)

lemma trim_format_etag [simp]: "trim_space (format_etag v) = format_etag v"
  by (rule trim_space_visible) (simp add: format_etag_def)

lemma trim_space_lead: "trim_space (CHR '' '' # s) = trim_space s"
proof -
  have "find (\<lambda>w. w \<noteq> [] \<and> has_prefix w (CHR '' '' # s)) space_encodings = Some [CHR 0x20]"
    by (simp add: space_encodings_def has_prefix_def)
  then show ?thesis
    by (simp add: trim_space_def trim_left_def strip_words.simps [of space_encodings "CHR '' '' # s"])
qed

lemma format_etag_inj [simp]: "format_etag v = format_etag v' \<longleftrightarrow> v = v'"
  by (simp add: format_etag_def)

lemma format_etag_chars:
  "c \<in> set (format_etag v) \<Longrightarrow> is_digit c \<or> c = CHR ''-'' \<or> c = dquote"
  using show_int_chars by (auto simp: format_etag_def)

lemma format_etag_no_comma: "CHR '','' \<notin> set (format_etag v)"
  using format_etag_chars [of "CHR '','' " v]
  by (auto simp: is_digit_def between_def byte_of_def dquote_def)

lemma format_etag_not_weak: "\<not> has_prefix ''W/'' (format_etag v)"
  by (simp add: has_prefix_def format_etag_def dquote_def)

section \<open>If-Match\<close>

lemma parse_if_match_format:
  "in_int64 v \<Longrightarrow> parse_if_match (format_etag v) = (if 1 \<le> v then Inr (v, False) else Inl ErrBadIfMatch)"
  using format_etag_no_comma [of v] format_etag_not_weak [of v]
  by (simp add: parse_if_match_def Let_def) (simp add: format_etag_def dquote_def parse_int_show)

lemma parse_if_match_Inr:
  "parse_if_match h = Inr (v, wild) \<longleftrightarrow>
   (trim_space h = ''*'' \<and> v = 0 \<and> wild) \<or>
   (\<exists>inner. trim_space h = dquote # inner @ [dquote] \<and> CHR '','' \<notin> set inner \<and>
      parse_int inner = Some v \<and> 1 \<le> v \<and> \<not> wild)"
  (is "?l \<longleftrightarrow> ?star \<or> ?tag")
proof
  assume l: ?l
  show "?star \<or> ?tag"
  proof (cases "trim_space h = ''*''")
    case True
    with l show ?thesis by (simp add: parse_if_match_def)
  next
    case False
    let ?raw = "trim_space h"
    from l False have f: "CHR '','' \<notin> set ?raw" "2 \<le> length ?raw" "hd ?raw = dquote" "last ?raw = dquote"
      and p: "parse_int (butlast (tl ?raw)) = Some v" "1 \<le> v" "\<not> wild"
      by (auto simp: parse_if_match_def Let_def split: if_splits option.splits)
    from f have "?raw = dquote # butlast (tl ?raw) @ [dquote]"
      by (cases ?raw) (auto simp: last_ConsR split: if_splits, metis append_butlast_last_id)
    with f(1) p have "CHR '','' \<notin> set (butlast (tl ?raw))"
      by (metis in_set_butlastD list.set_sel(2) set_ConsD list.distinct(1))
    with \<open>?raw = _\<close> p show ?thesis by blast
  qed
next
  assume "?star \<or> ?tag"
  then show ?l
  proof
    assume ?star
    then show ?l by (simp add: parse_if_match_def)
  next
    assume ?tag
    then obtain inner where t: "trim_space h = dquote # inner @ [dquote]" "CHR '','' \<notin> set inner"
      "parse_int inner = Some v" "1 \<le> v" "\<not> wild" by blast
    then show ?l
      by (simp add: parse_if_match_def has_prefix_def Let_def dquote_def)
  qed
qed

section \<open>If-None-Match\<close>

text \<open>A list of tags as a client sends it, each possibly marked weak.\<close>

fun tag_list :: "(bool \<times> int64) list \<Rightarrow> string" where
  "tag_list [] = []"
| "tag_list [(weak, v)] = (if weak then ''W/'' else []) @ format_etag v"
| "tag_list ((weak, v) # ts) = ((if weak then ''W/'' else []) @ format_etag v) @ '', '' @ tag_list ts"

lemma split_at_no_sep: "sep \<notin> set s \<Longrightarrow> split_at sep s = [s]"
  by (induction s) auto

lemma split_at_append: "sep \<notin> set s \<Longrightarrow> split_at sep (s @ sep # t) = s # split_at sep t"
  by (induction s) auto

abbreviation weak_tag :: "bool \<Rightarrow> int64 \<Rightarrow> string" where
  "weak_tag weak v \<equiv> (if weak then ''W/'' else []) @ format_etag v"

lemma trim_weak_tag [simp]: "trim_space (weak_tag weak v) = weak_tag weak v"
  by (rule trim_space_visible) (simp add: format_etag_def ascii_visible_def dquote_def between_def byte_of_def)

lemma trim_padded_tag:
  assumes "pad = [] \<or> pad = '' ''"
  shows "trim_space (pad @ weak_tag weak v) = weak_tag weak v"
  using assms trim_weak_tag [of weak v] trim_space_lead [of "weak_tag weak v"]
  by (elim disjE) (simp_all del: trim_weak_tag)

lemma trim_prefix_weak_tag [simp]: "trim_prefix ''W/'' (weak_tag weak v) = format_etag v"
  using format_etag_not_weak [of v] by (simp add: trim_prefix_def has_prefix_def)

lemma weak_tag_no_comma: "CHR '','' \<notin> set (weak_tag weak v)"
  using format_etag_no_comma [of v] by auto

lemma split_tag_list:
  "ts \<noteq> [] \<Longrightarrow> map (\<lambda>s. trim_prefix ''W/'' (trim_space s)) (split_at (CHR '','') (pad @ tag_list ts)) =
     map (\<lambda>(weak, v). format_etag v) ts"
  if "pad = [] \<or> pad = '' ''" for pad
  using that
proof (induction ts arbitrary: pad rule: tag_list.induct)
  case (2 weak v)
  have "CHR '','' \<notin> set (pad @ weak_tag weak v)"
    using 2 weak_tag_no_comma [of weak v] by auto
  then have "split_at (CHR '','') (pad @ weak_tag weak v) = [pad @ weak_tag weak v]"
    by (rule split_at_no_sep)
  moreover have "trim_space (pad @ weak_tag weak v) = weak_tag weak v"
    using 2(2) by (rule trim_padded_tag)
  ultimately show ?case by simp
next
  case (3 weak v t ts)
  have nc: "CHR '','' \<notin> set (pad @ weak_tag weak v)"
    using 3(3) weak_tag_no_comma [of weak v] by auto
  have "split_at (CHR '','') (pad @ tag_list ((weak, v) # t # ts)) =
      (pad @ weak_tag weak v) # split_at (CHR '','') ('' '' @ tag_list (t # ts))"
    using split_at_append [OF nc, of "'' '' @ tag_list (t # ts)"] by simp
  moreover have "trim_space (pad @ weak_tag weak v) = weak_tag weak v"
    using 3(3) by (rule trim_padded_tag)
  ultimately show ?case using 3(1) [of "'' ''"] by simp
qed simp

lemma tag_list_ends:
  "ts \<noteq> [] \<Longrightarrow> ascii_visible (hd (tag_list ts)) \<and> last (tag_list ts) = dquote \<and> tag_list ts \<noteq> []"
  by (induction ts rule: tag_list.induct)
    (auto simp: format_etag_def ascii_visible_def dquote_def between_def byte_of_def)

lemma if_none_match_tag_list:
  assumes "ts \<noteq> []"
  shows "if_none_match_matches (tag_list ts) (format_etag v) \<longleftrightarrow> v \<in> snd ` set ts"
proof -
  let ?raw = "tag_list ts"
  have ends: "ascii_visible (hd ?raw)" "last ?raw = dquote" "?raw \<noteq> []"
    using tag_list_ends [OF assms] by auto
  then have raw: "trim_space ?raw = ?raw" by (intro trim_space_visible) simp
  have "?raw \<noteq> ''*''" using ends(2) by (auto simp: dquote_def)
  with ends raw have "if_none_match_matches ?raw (format_etag v) \<longleftrightarrow>
      format_etag v \<in> set (map (\<lambda>s. trim_prefix ''W/'' (trim_space s)) (split_at (CHR '','') ?raw))"
    by (force simp: if_none_match_matches_def)
  also have "map (\<lambda>s. trim_prefix ''W/'' (trim_space s)) (split_at (CHR '','') ?raw) =
      map (\<lambda>(weak, v). format_etag v) ts"
    using split_tag_list [of "[]" ts] assms by simp
  also have "format_etag v \<in> set (map (\<lambda>(weak, v). format_etag v) ts) \<longleftrightarrow> v \<in> snd ` set ts"
    by force
  finally show ?thesis .
qed

end
