(* ===== verification/Go_Time.thy ===== *)
theory Go_Time
  imports Go_Numbers Clock
begin

text \<open>
  What the program uses of Go's \<open>time\<close> package on an instant (nanoseconds since 1970, UTC): the
  proleptic Gregorian calendar, the layouts of \<open>Format\<close>, and \<open>time.Parse(time.RFC3339, s)\<close> with
  the leniencies it has (a one-digit hour, a fraction after a comma, offsets of up to 24:60). Main
  result: parsing what \<open>Format\<close> printed gives the instant back to the millisecond.
\<close>

section \<open>The calendar\<close>

definition is_leap :: "int \<Rightarrow> bool" where
  "is_leap y \<longleftrightarrow> y mod 4 = 0 \<and> (y mod 100 \<noteq> 0 \<or> y mod 400 = 0)"

definition month_lengths :: "bool \<Rightarrow> int list" where
  "month_lengths leap = [31, if leap then 29 else 28, 31, 30, 31, 30, 31, 31, 30, 31, 30, 31]"

definition days_in :: "int \<Rightarrow> int \<Rightarrow> int" where
  "days_in m y = month_lengths (is_leap y) ! nat (m - 1)"

text \<open>Days are counted from 1 January of the year 1; 1970 begins on day 719162.\<close>

definition epoch_day :: int where
  "epoch_day = 719162"

definition days_before_year :: "int \<Rightarrow> int" where
  "days_before_year y =
     (let p = y - 1 in 365 * p + p div 4 - p div 100 + p div 400)"

definition day_of_date :: "int \<Rightarrow> int \<Rightarrow> int \<Rightarrow> int" where
  "day_of_date y m d =
     days_before_year y + sum_list (take (nat (m - 1)) (month_lengths (is_leap y))) + (d - 1)"

text \<open>Year and day of the year: cut off cycles of 400, 100, 4 and 1 years.\<close>

definition year_of_day :: "int \<Rightarrow> int \<times> int" where
  "year_of_day z =
     (let r400 = z mod 146097;
          n100 = min 3 (r400 div 36524);
          r100 = r400 - 36524 * n100;
          r4 = r100 mod 1461;
          n1 = min 3 (r4 div 365)
      in (400 * (z div 146097) + 100 * n100 + 4 * (r100 div 1461) + n1 + 1, r4 - 365 * n1))"

fun month_of_day :: "int list \<Rightarrow> int \<Rightarrow> int \<Rightarrow> int \<times> int" where
  "month_of_day [] m yd = (m, yd + 1)"
| "month_of_day (len # lens) m yd =
     (if yd < len then (m, yd + 1) else month_of_day lens (m + 1) (yd - len))"

record civil =
  cl_year :: int
  cl_month :: int
  cl_day :: int
  cl_hour :: int
  cl_minute :: int
  cl_second :: int
  cl_nano :: int

definition civil_of :: "instant \<Rightarrow> civil" where
  "civil_of t =
     (let sec = t div 1000000000;
          sod = sec mod 86400;
          (y, yd) = year_of_day (sec div 86400 + epoch_day);
          (m, d) = month_of_day (month_lengths (is_leap y)) 1 yd
      in \<lparr>cl_year = y, cl_month = m, cl_day = d, cl_hour = sod div 3600,
          cl_minute = sod mod 3600 div 60, cl_second = sod mod 60, cl_nano = t mod 1000000000\<rparr>)"

definition instant_of :: "civil \<Rightarrow> instant" where
  "instant_of c =
     (((day_of_date (cl_year c) (cl_month c) (cl_day c) - epoch_day) * 86400 +
       cl_hour c * 3600 + cl_minute c * 60 + cl_second c) * 1000000000) + cl_nano c"

section \<open>Formatting\<close>

definition zero_pad :: "nat \<Rightarrow> int \<Rightarrow> string" where
  "zero_pad width n =
     (let ds = show_digits \<bar>n\<bar>
      in (if n < 0 then ''-'' else []) @ replicate (width - length ds) (CHR ''0'') @ ds)"

definition format_date :: "civil \<Rightarrow> string" where
  "format_date c = zero_pad 4 (cl_year c) @ ''-'' @ zero_pad 2 (cl_month c) @ ''-'' @ zero_pad 2 (cl_day c)"

definition format_clock :: "civil \<Rightarrow> string" where
  "format_clock c = zero_pad 2 (cl_hour c) @ '':'' @ zero_pad 2 (cl_minute c) @ '':'' @ zero_pad 2 (cl_second c)"

text \<open>The layouts \<open>2006-01-02T15:04:05.000Z07:00\<close> and \<open>2006-01-02T15:04:05Z07:00\<close> in UTC.\<close>

definition format_rfc3339_milli :: "instant \<Rightarrow> string" where
  "format_rfc3339_milli t =
     (let c = civil_of t
      in format_date c @ ''T'' @ format_clock c @ ''.'' @ zero_pad 3 (cl_nano c div 1000000) @ ''Z'')"

definition format_rfc3339 :: "instant \<Rightarrow> string" where
  "format_rfc3339 t = (let c = civil_of t in format_date c @ ''T'' @ format_clock c @ ''Z'')"

definition month_names :: "string list" where
  "month_names = [''January'', ''February'', ''March'', ''April'', ''May'', ''June'', ''July'',
     ''August'', ''September'', ''October'', ''November'', ''December'']"

definition day_names :: "string list" where
  "day_names = [''Monday'', ''Tuesday'', ''Wednesday'', ''Thursday'', ''Friday'', ''Saturday'', ''Sunday'']"

definition month_name :: "civil \<Rightarrow> string" where
  "month_name c = month_names ! nat (cl_month c - 1)"

text \<open>Day 0, 1 January of the year 1, is a Monday.\<close>

definition day_name :: "instant \<Rightarrow> string" where
  "day_name t = day_names ! nat ((t div 1000000000 div 86400 + epoch_day) mod 7)"

text \<open>\<open>http.TimeFormat\<close>, \<open>Mon, 02 Jan 2006 15:04:05 GMT\<close>, and the layout \<open>2 January 2006\<close>.\<close>

definition format_http :: "instant \<Rightarrow> string" where
  "format_http t =
     (let c = civil_of t
      in take 3 (day_name t) @ '', '' @ zero_pad 2 (cl_day c) @ '' '' @ take 3 (month_name c) @ '' '' @
         zero_pad 4 (cl_year c) @ '' '' @ format_clock c @ '' GMT'')"

definition format_human :: "instant \<Rightarrow> string" where
  "format_human t =
     (let c = civil_of t
      in show_int (cl_day c) @ '' '' @ month_name c @ '' '' @ zero_pad 4 (cl_year c))"

section \<open>Parsing RFC 3339\<close>

text \<open>Each reader returns what it read and the rest of the input.\<close>

definition expect :: "char \<Rightarrow> string \<Rightarrow> string option" where
  "expect c s = (case s of [] \<Rightarrow> None | x # r \<Rightarrow> if x = c then Some r else None)"

text \<open>\<open>getnum\<close>: two digits, or one when the width is not fixed.\<close>

definition get_num :: "bool \<Rightarrow> string \<Rightarrow> (int \<times> string) option" where
  "get_num fixed s =
     (case s of
        [] \<Rightarrow> None
      | c # r \<Rightarrow>
          if \<not> is_digit c then None
          else if r \<noteq> [] \<and> is_digit (hd r)
            then Some (digit_value c * 10 + digit_value (hd r), tl r)
          else if fixed then None else Some (digit_value c, r))"

definition get_num_in :: "bool \<Rightarrow> int \<Rightarrow> int \<Rightarrow> string \<Rightarrow> (int \<times> string) option" where
  "get_num_in fixed lo hi s =
     Option.bind (get_num fixed s) (\<lambda>(n, r). if lo \<le> n \<and> n \<le> hi then Some (n, r) else None)"

definition get_year :: "string \<Rightarrow> (int \<times> string) option" where
  "get_year s =
     (if length s < 4 then None
      else Option.bind (digits_value 0 (take 4 s)) (\<lambda>y. Some (y, drop 4 s)))"

text \<open>A fraction of a second is read although the layout has none; nine digits count.\<close>

definition get_fraction :: "string \<Rightarrow> int \<times> string" where
  "get_fraction s =
     (case s of
        c # d # r \<Rightarrow>
          if (c = CHR ''.'' \<or> c = CHR '','') \<and> is_digit d
          then let ds = takeWhile is_digit (d # r); used = take 9 ds
               in (the (digits_value 0 used) * 10 ^ (9 - length used), drop (length ds) (d # r))
          else (0, s)
      | _ \<Rightarrow> (0, s))"

definition get_zone :: "string \<Rightarrow> (int \<times> string) option" where
  "get_zone s =
     (case s of
        [] \<Rightarrow> None
      | c # r \<Rightarrow>
          if c = CHR ''Z'' then Some (0, r)
          else if length s < 6 \<or> s ! 3 \<noteq> CHR '':'' then None
          else Option.bind (get_num_in True 0 24 (take 2 r))
            (\<lambda>(hr, _). Option.bind (get_num_in True 0 60 (take 2 (drop 4 s)))
            (\<lambda>(mm, _).
               if c = CHR ''+'' then Some ((hr * 60 + mm) * 60, drop 6 s)
               else if c = CHR ''-'' then Some (- ((hr * 60 + mm) * 60), drop 6 s)
               else None)))"

definition parse_rfc3339 :: "string \<Rightarrow> instant option" where
  "parse_rfc3339 s =
     Option.bind (get_year s) (\<lambda>(y, s).
     Option.bind (expect (CHR ''-'') s) (\<lambda>s.
     Option.bind (get_num_in True 1 12 s) (\<lambda>(mo, s).
     Option.bind (expect (CHR ''-'') s) (\<lambda>s.
     Option.bind (get_num True s) (\<lambda>(d, s).
     Option.bind (expect (CHR ''T'') s) (\<lambda>s.
     Option.bind (get_num_in False 0 23 s) (\<lambda>(h, s).
     Option.bind (expect (CHR '':'') s) (\<lambda>s.
     Option.bind (get_num_in True 0 59 s) (\<lambda>(mi, s).
     Option.bind (expect (CHR '':'') s) (\<lambda>s.
     Option.bind (get_num_in True 0 59 s) (\<lambda>(sec, s).
     case get_fraction s of (nano, s) \<Rightarrow>
     Option.bind (get_zone s) (\<lambda>(offset, s).
     if s \<noteq> [] \<or> d < 1 \<or> days_in mo y < d then None
     else Some (instant_of \<lparr>cl_year = y, cl_month = mo, cl_day = d, cl_hour = h, cl_minute = mi,
                            cl_second = sec, cl_nano = nano\<rparr> - offset * 1000000000)))))))))))))"

section \<open>The calendar is consistent\<close>

lemma div_block: "0 \<le> r \<Longrightarrow> r < k \<Longrightarrow> (k * q + r) div k = q" for k q r :: int
  by simp

lemma year_of_day_parts:
  assumes "year_of_day z = (y, yd)"
  obtains a b c d where "y - 1 = 400 * a + 100 * b + 4 * c + d"
    and "z = 146097 * a + 36524 * b + 1461 * c + 365 * d + yd"
    and "0 \<le> b" "b \<le> 3" "0 \<le> c" "c \<le> 24" "0 \<le> d" "d \<le> 3" "0 \<le> yd"
    and "yd \<le> 364 \<or> (yd = 365 \<and> d = 3 \<and> (c = 24 \<longrightarrow> b = 3))"
proof -
  define r400 where "r400 = z mod 146097"
  define b where "b = min 3 (r400 div 36524)"
  define r100 where "r100 = r400 - 36524 * b"
  define c where "c = r100 div 1461"
  define r4 where "r4 = r100 mod 1461"
  define d where "d = min 3 (r4 div 365)"
  note defs = r400_def b_def r100_def c_def r4_def d_def
  have y: "y = 400 * (z div 146097) + 100 * b + 4 * c + d + 1" "yd = r4 - 365 * d"
    using assms by (simp_all add: year_of_day_def Let_def defs)
  have z: "z = 146097 * (z div 146097) + r400" "0 \<le> r400" "r400 < 146097"
    by (simp_all add: r400_def)
  have b: "0 \<le> b" "b \<le> 3" "0 \<le> r100" "r100 \<le> 36524" "r100 = 36524 \<longrightarrow> b = 3"
    using z(2,3) by (auto simp: b_def r100_def min_def)
  have c: "r100 = 1461 * c + r4" "0 \<le> r4" "r4 < 1461"
    by (simp_all add: c_def r4_def)
  have c': "0 \<le> c" "c \<le> 24" using b(3,4) by (auto simp: c_def)
  have d: "0 \<le> d" "d \<le> 3" "0 \<le> r4 - 365 * d" "r4 - 365 * d \<le> 364 \<or> (r4 = 1460 \<and> d = 3)"
    using c(2,3) by (auto simp: d_def min_def)
  show ?thesis
  proof (rule that [of "z div 146097" b c d])
    show "yd \<le> 364 \<or> (yd = 365 \<and> d = 3 \<and> (c = 24 \<longrightarrow> b = 3))"
      using d(4) y(2) b(4,5) c(1) by auto
    show "z = 146097 * (z div 146097) + 36524 * b + 1461 * c + 365 * d + yd"
      using z(1) c(1) y(2) by (simp add: r100_def)
  qed (use y b c' d in simp_all)
qed

lemma year_of_day_days:
  assumes "year_of_day z = (y, yd)"
  shows "days_before_year y + yd = z" and "0 \<le> yd" and "yd < (if is_leap y then 366 else 365)"
proof -
  from year_of_day_parts [OF assms] obtain a b c d where
    y: "y - 1 = 400 * a + 100 * b + 4 * c + d" and
    z: "z = 146097 * a + 36524 * b + 1461 * c + 365 * d + yd" and
    r: "0 \<le> b" "b \<le> 3" "0 \<le> c" "c \<le> 24" "0 \<le> d" "d \<le> 3" "0 \<le> yd" and
    l: "yd \<le> 364 \<or> (yd = 365 \<and> d = 3 \<and> (c = 24 \<longrightarrow> b = 3))" .
  have "y - 1 = 4 * (100 * a + 25 * b + c) + d" "y - 1 = 100 * (4 * a + b) + (4 * c + d)"
    "y - 1 = 400 * a + (100 * b + 4 * c + d)"
    using y by simp_all
  then have "(y - 1) div 4 = 100 * a + 25 * b + c" "(y - 1) div 100 = 4 * a + b" "(y - 1) div 400 = a"
    using r div_block [of d 4 "100 * a + 25 * b + c"] div_block [of "4 * c + d" 100 "4 * a + b"]
      div_block [of "100 * b + 4 * c + d" 400 a] by simp_all
  then show "days_before_year y + yd = z"
    using y z by (simp add: days_before_year_def Let_def)
  show "0 \<le> yd" by fact
  have "is_leap y" if "d = 3" "c = 24 \<longrightarrow> b = 3"
  proof -
    from y that(1) have y4: "y = 4 * (100 * a + 25 * b + c + 1)" by simp
    then have "y mod 4 = 0" by simp
    moreover have "y mod 400 = 0" if "y mod 100 = 0"
    proof -
      from that have "100 dvd y" by (simp add: dvd_eq_mod_eq_0)
      then obtain k where "y = 100 * k" by (rule dvdE)
      then have "25 * (k - 4 * a - b) = c + 1" using y4 by presburger
      then have "c = 24" using r by presburger
      with \<open>c = 24 \<longrightarrow> b = 3\<close> y4 have "y = 400 * (a + 1)" by simp
      then show ?thesis by simp
    qed
    ultimately show ?thesis by (auto simp: is_leap_def)
  qed
  with l show "yd < (if is_leap y then 366 else 365)" by auto
qed

lemma month_of_day_props:
  assumes "month_of_day ls m0 yd = (m, d)" "0 \<le> yd" "yd < sum_list ls"
  shows "m0 \<le> m \<and> m < m0 + int (length ls) \<and> 1 \<le> d \<and> d \<le> ls ! nat (m - m0) \<and>
    sum_list (take (nat (m - m0)) ls) + (d - 1) = yd"
  using assms
proof (induction ls m0 yd rule: month_of_day.induct)
  case (2 len lens m0 yd)
  show ?case
  proof (cases "yd < len")
    case False
    with 2 have ih: "m0 + 1 \<le> m \<and> m < m0 + 1 + int (length lens) \<and> 1 \<le> d \<and>
        d \<le> lens ! nat (m - (m0 + 1)) \<and> sum_list (take (nat (m - (m0 + 1))) lens) + (d - 1) = yd - len"
      by simp
    have "nat (m - m0) = Suc (nat (m - (m0 + 1)))" using ih by linarith
    with ih show ?thesis by simp
  qed (use 2 in auto)
qed simp

lemma civil_date:
  assumes "civil_of t = c"
  shows "1 \<le> cl_month c \<and> cl_month c \<le> 12 \<and> 1 \<le> cl_day c \<and> cl_day c \<le> days_in (cl_month c) (cl_year c)"
    and "day_of_date (cl_year c) (cl_month c) (cl_day c) = t div 1000000000 div 86400 + epoch_day"
proof -
  obtain y yd where y: "year_of_day (t div 1000000000 div 86400 + epoch_day) = (y, yd)" by fastforce
  obtain m d where m: "month_of_day (month_lengths (is_leap y)) 1 yd = (m, d)" by fastforce
  have c: "cl_year c = y" "cl_month c = m" "cl_day c = d"
    using assms y m by (auto simp: civil_of_def Let_def)
  have "sum_list (month_lengths (is_leap y)) = (if is_leap y then 366 else 365)"
    by (simp add: month_lengths_def)
  with month_of_day_props [OF m] year_of_day_days [OF y]
  have p: "1 \<le> m \<and> m < 1 + int (length (month_lengths (is_leap y))) \<and> 1 \<le> d \<and>
    d \<le> month_lengths (is_leap y) ! nat (m - 1) \<and>
    sum_list (take (nat (m - 1)) (month_lengths (is_leap y))) + (d - 1) = yd" by simp
  then show "1 \<le> cl_month c \<and> cl_month c \<le> 12 \<and> 1 \<le> cl_day c \<and>
      cl_day c \<le> days_in (cl_month c) (cl_year c)"
    by (simp add: c days_in_def) (simp add: month_lengths_def)
  show "day_of_date (cl_year c) (cl_month c) (cl_day c) = t div 1000000000 div 86400 + epoch_day"
    using p year_of_day_days(1) [OF y] by (simp add: c day_of_date_def)
qed

lemma civil_clock:
  "0 \<le> cl_hour (civil_of t) \<and> cl_hour (civil_of t) \<le> 23 \<and>
   0 \<le> cl_minute (civil_of t) \<and> cl_minute (civil_of t) \<le> 59 \<and>
   0 \<le> cl_second (civil_of t) \<and> cl_second (civil_of t) \<le> 59 \<and>
   0 \<le> cl_nano (civil_of t) \<and> cl_nano (civil_of t) \<le> 999999999"
  "cl_hour (civil_of t) * 3600 + cl_minute (civil_of t) * 60 + cl_second (civil_of t) =
     t div 1000000000 mod 86400"
  "cl_nano (civil_of t) = t mod 1000000000"
proof -
  define sod where "sod = t div 1000000000 mod 86400"
  have sod: "0 \<le> sod" "sod < 86400" by (simp_all add: sod_def)
  have c: "cl_hour (civil_of t) = sod div 3600" "cl_minute (civil_of t) = sod mod 3600 div 60"
    "cl_second (civil_of t) = sod mod 60" "cl_nano (civil_of t) = t mod 1000000000"
    by (simp_all add: civil_of_def Let_def sod_def split: prod.split)
  show "0 \<le> cl_hour (civil_of t) \<and> cl_hour (civil_of t) \<le> 23 \<and>
   0 \<le> cl_minute (civil_of t) \<and> cl_minute (civil_of t) \<le> 59 \<and>
   0 \<le> cl_second (civil_of t) \<and> cl_second (civil_of t) \<le> 59 \<and>
   0 \<le> cl_nano (civil_of t) \<and> cl_nano (civil_of t) \<le> 999999999"
  proof -
    have "sod div 3600 \<le> 23 \<and> 0 \<le> sod div 3600"
      using sod mult_div_mod_eq [of 3600 sod] pos_mod_sign [of 3600 sod] pos_mod_bound [of 3600 sod]
      by linarith
    moreover have "sod mod 3600 div 60 \<le> 59 \<and> 0 \<le> sod mod 3600 div 60"
      using mult_div_mod_eq [of 60 "sod mod 3600"] pos_mod_sign [of 60 "sod mod 3600"]
        pos_mod_bound [of 60 "sod mod 3600"] pos_mod_sign [of 3600 sod] pos_mod_bound [of 3600 sod]
      by linarith
    moreover have "sod mod 60 \<le> 59" "t mod 1000000000 \<le> 999999999"
      using pos_mod_bound [of 60 sod] pos_mod_bound [of 1000000000 t] by linarith+
    ultimately show ?thesis
      unfolding c by simp
  qed
  show "cl_hour (civil_of t) * 3600 + cl_minute (civil_of t) * 60 + cl_second (civil_of t) =
     t div 1000000000 mod 86400"
    unfolding c sod_def [symmetric]
    using mult_div_mod_eq [of 3600 sod] mult_div_mod_eq [of 60 "sod mod 3600"]
      mod_mod_cancel [of 60 3600 sod, simplified] by linarith
qed (simp add: civil_of_def Let_def split: prod.split)

lemma instant_of_civil: "instant_of (civil_of t) = t"
proof -
  let ?s = "t div 1000000000"
  let ?c = "civil_of t"
  have "(?s div 86400) * 86400 + cl_hour ?c * 3600 + cl_minute ?c * 60 + cl_second ?c = ?s"
    using civil_clock(2) [of t] div_mult_mod_eq [of ?s 86400] by linarith
  moreover have "?s * 1000000000 + t mod 1000000000 = t" by simp
  ultimately show ?thesis
    by (simp add: instant_of_def civil_date(2) [OF refl] civil_clock(3))
qed

section \<open>Printed times parse\<close>

lemma take_0_sum [simp]: "digits_value 0 (replicate k (CHR ''0'') @ s) = digits_value 0 s"
proof (induction k)
  case (Suc k)
  have "is_digit (CHR ''0'')" "digit_value (CHR ''0'') = 0"
    by (simp_all add: is_digit_def between_def digit_value_def byte_of_def)
  with Suc show ?case by simp
qed simp

lemma length_show_digits: "0 \<le> n \<Longrightarrow> n < 10 ^ Suc k \<Longrightarrow> length (show_digits n) \<le> Suc k"
proof (induction k arbitrary: n)
  case (Suc k)
  then have "n div 10 < 10 ^ Suc k" by simp
  with Suc show ?case by (subst show_digits.simps) simp
qed (simp add: show_digits.simps)

lemma zero_pad_facts:
  assumes "0 \<le> n" "n < 10 ^ Suc k"
  shows "length (zero_pad (Suc k) n) = Suc k" and "digits_value 0 (zero_pad (Suc k) n) = Some n"
    and "\<forall>c \<in> set (zero_pad (Suc k) n). is_digit c"
proof -
  have zp: "zero_pad (Suc k) n = replicate (Suc k - length (show_digits n)) (CHR ''0'') @ show_digits n"
    using assms(1) by (simp add: zero_pad_def Let_def)
  show "length (zero_pad (Suc k) n) = Suc k" using length_show_digits [OF assms] by (simp add: zp)
  show "digits_value 0 (zero_pad (Suc k) n) = Some n" by (simp add: zp digits_value_show [OF assms(1)])
  have "is_digit (CHR ''0'')" by (simp add: is_digit_def between_def byte_of_def)
  then show "\<forall>c \<in> set (zero_pad (Suc k) n). is_digit c"
    using show_digits_digits [OF assms(1)] by (auto simp: zp)
qed

lemma get_num_pad:
  assumes "0 \<le> n" "n < 100"
  shows "get_num fixed (zero_pad 2 n @ r) = Some (n, r)"
proof -
  have two: "length (zero_pad 2 n) = 2" "digits_value 0 (zero_pad 2 n) = Some n"
      "\<forall>c \<in> set (zero_pad 2 n). is_digit c"
    using zero_pad_facts [of n 1] assms by (simp_all add: numeral_2_eq_2)
  then obtain c1 c2 where "zero_pad 2 n = [c1, c2]"
    by (auto simp: length_Suc_conv numeral_2_eq_2)
  with two(2,3) show ?thesis by (simp add: get_num_def split: if_splits)
qed

lemma get_num_in_pad:
  "0 \<le> lo \<Longrightarrow> lo \<le> n \<Longrightarrow> n \<le> hi \<Longrightarrow> hi < 100 \<Longrightarrow> get_num_in fixed lo hi (zero_pad 2 n @ r) = Some (n, r)"
  by (simp add: get_num_in_def get_num_pad)

lemma get_year_pad:
  assumes "0 \<le> n" "n \<le> 9999"
  shows "get_year (zero_pad 4 n @ r) = Some (n, r)"
proof -
  have "length (zero_pad 4 n) = 4" "digits_value 0 (zero_pad 4 n) = Some n"
    using zero_pad_facts [of n 3] assms by (simp_all add: eval_nat_numeral)
  then show ?thesis by (simp add: get_year_def)
qed

lemma expect_Cons [simp]: "expect c (c # r) = Some r"
  by (simp add: expect_def)

lemma get_fraction_milli:
  assumes "0 \<le> n" "n < 1000"
  shows "get_fraction (CHR ''.'' # zero_pad 3 n @ ''Z'') = (n * 1000000, ''Z'')"
proof -
  let ?ds = "zero_pad 3 n"
  have three: "length ?ds = 3" "digits_value 0 ?ds = Some n" "\<forall>c \<in> set ?ds. is_digit c"
    using zero_pad_facts [of n 2] assms by (simp_all add: eval_nat_numeral)
  then obtain d r where ds: "?ds = d # r" by (cases ?ds) auto
  have "\<not> is_digit (CHR ''Z'')" by (simp add: is_digit_def between_def byte_of_def)
  with three have "takeWhile is_digit (?ds @ ''Z'') = ?ds"
    by (subst takeWhile_append2) auto
  with three ds show ?thesis by (simp add: get_fraction_def)
qed

lemma get_zone_utc: "get_zone ''Z'' = Some (0, [])"
  by (simp add: get_zone_def)

lemma days_in_le: "1 \<le> m \<Longrightarrow> m \<le> 12 \<Longrightarrow> days_in m y \<le> 31"
proof -
  assume "1 \<le> m" "m \<le> 12"
  then have "month_lengths (is_leap y) ! nat (m - 1) \<in> set (month_lengths (is_leap y))"
    by (intro nth_mem) (simp add: month_lengths_def)
  then show ?thesis by (auto simp: days_in_def month_lengths_def split: if_splits)
qed

lemma parse_format_milli:
  assumes "0 \<le> cl_year (civil_of t)" "cl_year (civil_of t) \<le> 9999"
  shows "parse_rfc3339 (format_rfc3339_milli t) = Some (t - t mod 1000000)"
proof -
  let ?c = "civil_of t" and ?ms = "cl_nano (civil_of t) div 1000000"
  have d: "1 \<le> cl_month ?c" "cl_month ?c \<le> 12" "1 \<le> cl_day ?c" "cl_day ?c \<le> days_in (cl_month ?c) (cl_year ?c)"
    using civil_date(1) [OF refl, of t] by simp_all
  then have d31: "cl_day ?c < 100" using days_in_le [of "cl_month ?c" "cl_year ?c"] by simp
  have h: "0 \<le> cl_hour ?c" "cl_hour ?c \<le> 23" "0 \<le> cl_minute ?c" "cl_minute ?c \<le> 59"
    "0 \<le> cl_second ?c" "cl_second ?c \<le> 59" and n: "0 \<le> cl_nano ?c" "cl_nano ?c \<le> 999999999"
    using civil_clock(1) [of t] by simp_all
  have ms: "0 \<le> ?ms" "?ms < 1000" using n by linarith+
  have "t mod 1000000000 mod 1000000 = t mod 1000000" by (rule mod_mod_cancel) simp
  then have inst: "instant_of (?c\<lparr>cl_nano := ?ms * 1000000\<rparr>) = t - t mod 1000000"
    using instant_of_civil [of t] mult_div_mod_eq [of 1000000 "t mod 1000000000"]
    by (simp add: instant_of_def civil_clock(3))
  have "parse_rfc3339 (format_rfc3339_milli t) = Some (instant_of (?c\<lparr>cl_nano := ?ms * 1000000\<rparr>))"
    using get_fraction_milli [OF ms] assms d d31 h
    by (simp add: parse_rfc3339_def format_rfc3339_milli_def format_date_def format_clock_def Let_def
        get_year_pad get_num_in_pad get_num_pad get_zone_utc) (simp add: instant_of_def)
  with inst show ?thesis by simp
qed

text \<open>The layout without a fraction keeps the whole seconds.\<close>

lemma parse_format_seconds:
  assumes "0 \<le> cl_year (civil_of t)" "cl_year (civil_of t) \<le> 9999"
  shows "parse_rfc3339 (format_rfc3339 t) = Some (t - t mod 1000000000)"
proof -
  let ?c = "civil_of t"
  have d: "1 \<le> cl_month ?c" "cl_month ?c \<le> 12" "1 \<le> cl_day ?c" "cl_day ?c \<le> days_in (cl_month ?c) (cl_year ?c)"
    using civil_date(1) [OF refl, of t] by simp_all
  then have d31: "cl_day ?c < 100" using days_in_le [of "cl_month ?c" "cl_year ?c"] by simp
  have h: "0 \<le> cl_hour ?c" "cl_hour ?c \<le> 23" "0 \<le> cl_minute ?c" "cl_minute ?c \<le> 59"
    "0 \<le> cl_second ?c" "cl_second ?c \<le> 59"
    using civil_clock(1) [of t] by simp_all
  have inst: "instant_of (?c\<lparr>cl_nano := 0\<rparr>) = t - t mod 1000000000"
    using instant_of_civil [of t] by (simp add: instant_of_def civil_clock(3))
  have "get_fraction ''Z'' = (0, ''Z'')" by code_simp
  then have "parse_rfc3339 (format_rfc3339 t) = Some (instant_of (?c\<lparr>cl_nano := 0\<rparr>))"
    using assms d d31 h
    by (simp add: parse_rfc3339_def format_rfc3339_def format_date_def format_clock_def Let_def
        get_year_pad get_num_in_pad get_num_pad get_zone_utc) (simp add: instant_of_def)
  with inst show ?thesis by simp
qed

text \<open>The milliseconds of the years 0 to 9999, the ones RFC 3339 has four digits for.\<close>

lemma year_bounds:
  assumes "year_of_day z = (y, yd)" "- 366 \<le> z" "z < 3652059"
  shows "0 \<le> y \<and> y \<le> 9999"
proof -
  have z: "days_before_year y + yd = z" "0 \<le> yd" "yd < 366"
    using year_of_day_days [OF assms(1)] by (auto split: if_splits)
  have div: "4 * ((y - 1) div 4) \<le> y - 1" "y - 1 < 4 * ((y - 1) div 4) + 4"
    "100 * ((y - 1) div 100) \<le> y - 1" "y - 1 < 100 * ((y - 1) div 100) + 100"
    "400 * ((y - 1) div 400) \<le> y - 1" "y - 1 < 400 * ((y - 1) div 400) + 400"
    by linarith+
  have "y \<le> 9999"
  proof (rule ccontr)
    assume "\<not> y \<le> 9999"
    then have "2499 \<le> (y - 1) div 4" "24 \<le> (y - 1) div 400" "(y - 1) div 100 \<le> y - 9901" by linarith+
    with z assms(3) \<open>\<not> y \<le> 9999\<close> show False
      by (simp add: days_before_year_def Let_def)
  qed
  moreover have "0 \<le> y"
  proof (rule ccontr)
    assume "\<not> 0 \<le> y"
    then have "(y - 1) div 4 \<le> - 1" "(y - 1) div 400 \<le> - 1" "y \<le> (y - 1) div 100" by linarith+
    moreover have "yd < 365" if "y = - 1"
      using year_of_day_days(3) [OF assms(1)] that by (simp add: is_leap_def)
    ultimately show False
      using z assms(2) \<open>\<not> 0 \<le> y\<close> by (cases "y = - 1") (simp_all add: days_before_year_def Let_def)
  qed
  ultimately show ?thesis by simp
qed

lemma from_millis_year:
  assumes "- 62167219200000 \<le> ms" "ms \<le> 253402300799999"
  shows "0 \<le> cl_year (civil_of (from_millis ms)) \<and> cl_year (civil_of (from_millis ms)) \<le> 9999"
proof -
  let ?z = "from_millis ms div 1000000000 div 86400 + epoch_day"
  have "- 719528 \<le> ms * 1000000 div 1000000000 div 86400" "ms * 1000000 div 1000000000 div 86400 < 2932897"
    using assms by linarith+
  then have z: "- 366 \<le> ?z" "?z < 3652059"
    by (simp_all only: from_millis_eq epoch_day_def)
  obtain y yd where y: "year_of_day ?z = (y, yd)" by fastforce
  have "cl_year (civil_of (from_millis ms)) = y"
    using y by (simp add: civil_of_def Let_def split: prod.split)
  with year_bounds [OF y z] show ?thesis by simp
qed

end
