(* ===== verification/Json_Input.thy ===== *)
theory Json_Input
  imports Go_Numbers Models
begin

text \<open>
  Request bodies. What the scanner of \<open>encoding/json\<close> makes of the bytes is the input: a JSON value
  and whether anything follows it, a syntax error, or a body over the limit of
  \<open>http.MaxBytesReader\<close>. Modelled is what comes after: the assignment of the value to the request
  structs of \<open>internal/httpapi/admin.go\<close> and \<open>publish.go\<close> with unknown fields disallowed, as
  \<open>Decoder.Decode\<close> does it (fields in order, names matched without regard to case, \<open>null\<close> ignored,
  the first error kept).
\<close>

datatype json =
    JNull
  | JBool bool
  | JNumber string
  | JString string
  | JArray "json list"
  | JObject "(string \<times> json) list"

datatype json_error = UnknownField string | TypeMismatch json

datatype request_body =
    TooLarge
  | Malformed string
  | Body json bool

section \<open>Decoding into a struct\<close>

text \<open>A decoder changes the target and may report an error.\<close>

type_synonym 's decoder = "json \<Rightarrow> 's \<Rightarrow> 's \<times> json_error option"

fun dec_string :: "string decoder" where
  "dec_string JNull x = (x, None)"
| "dec_string (JString s) x = (s, None)"
| "dec_string j x = (x, Some (TypeMismatch j))"

fun dec_bool :: "bool decoder" where
  "dec_bool JNull x = (x, None)"
| "dec_bool (JBool b) x = (b, None)"
| "dec_bool j x = (x, Some (TypeMismatch j))"

fun dec_int64 :: "int64 decoder" where
  "dec_int64 JNull x = (x, None)"
| "dec_int64 (JNumber s) x =
     (case parse_int s of None \<Rightarrow> (x, Some (TypeMismatch (JNumber s))) | Some n \<Rightarrow> (n, None))"
| "dec_int64 j x = (x, Some (TypeMismatch j))"

text \<open>
  Names are compared as \<open>encoding/json\<close> folds them: letters in upper case, and the two runes outside
  ASCII that fold to an ASCII letter (the long s and the Kelvin sign).
\<close>

definition upper_char :: "char \<Rightarrow> char" where
  "upper_char c = (if between 0x61 0x7A (byte_of c) then char_of (byte_of c - 32) else c)"

function fold_name :: "string \<Rightarrow> string" where
  "fold_name s =
     (case s of
        [] \<Rightarrow> []
      | c # r \<Rightarrow>
          if has_prefix [CHR 0xC5, CHR 0xBF] s then CHR ''S'' # fold_name (drop 2 s)
          else if has_prefix [CHR 0xE2, CHR 0x84, CHR 0xAA] s then CHR ''K'' # fold_name (drop 3 s)
          else upper_char c # fold_name r)"
  by pat_completeness auto
termination by (relation "measure length") auto

declare fold_name.simps [simp del]

definition find_field :: "(string \<times> 's decoder) list \<Rightarrow> string \<Rightarrow> 's decoder option" where
  "find_field fs k =
     (case map_of fs k of
        Some d \<Rightarrow> Some d
      | None \<Rightarrow> map_option snd (find (\<lambda>(name, d). fold_name name = fold_name k) fs))"

definition first_error :: "json_error option \<Rightarrow> json_error option \<Rightarrow> json_error option" where
  "first_error e e' = (case e of Some _ \<Rightarrow> e | None \<Rightarrow> e')"

fun dec_members ::
    "(string \<times> 's decoder) list \<Rightarrow> (string \<times> json) list \<Rightarrow> 's \<Rightarrow> json_error option \<Rightarrow>
     's \<times> json_error option" where
  "dec_members fs [] x e = (x, e)"
| "dec_members fs ((k, v) # ms) x e =
     (case find_field fs k of
        None \<Rightarrow> dec_members fs ms x (first_error e (Some (UnknownField k)))
      | Some d \<Rightarrow> (case d v x of (x', e') \<Rightarrow> dec_members fs ms x' (first_error e e')))"

fun dec_struct :: "(string \<times> 's decoder) list \<Rightarrow> 's decoder" where
  "dec_struct fs JNull x = (x, None)"
| "dec_struct fs (JObject ms) x = dec_members fs ms x None"
| "dec_struct fs j x = (x, Some (TypeMismatch j))"

definition on_field :: "('s \<Rightarrow> 'f) \<Rightarrow> ('f \<Rightarrow> 's \<Rightarrow> 's) \<Rightarrow> 'f decoder \<Rightarrow> 's decoder" where
  "on_field get upd d j x = (case d j (get x) of (f, e) \<Rightarrow> (upd f x, e))"

section \<open>The request structs\<close>

record seo_request =
  sr_meta_title :: string
  sr_meta_description :: string
  sr_canonical_url :: string
  sr_og_image_url :: string
  sr_noindex :: bool

definition zero_seo :: seo_request where
  "zero_seo = \<lparr>sr_meta_title = [], sr_meta_description = [], sr_canonical_url = [],
               sr_og_image_url = [], sr_noindex = False\<rparr>"

definition seo_decoder :: "seo_request decoder" where
  "seo_decoder = dec_struct
     [(''meta_title'', on_field sr_meta_title (\<lambda>v. sr_meta_title_update (\<lambda>_. v)) dec_string),
      (''meta_description'', on_field sr_meta_description (\<lambda>v. sr_meta_description_update (\<lambda>_. v)) dec_string),
      (''canonical_url'', on_field sr_canonical_url (\<lambda>v. sr_canonical_url_update (\<lambda>_. v)) dec_string),
      (''og_image_url'', on_field sr_og_image_url (\<lambda>v. sr_og_image_url_update (\<lambda>_. v)) dec_string),
      (''noindex'', on_field sr_noindex (\<lambda>v. sr_noindex_update (\<lambda>_. v)) dec_bool)]"

text \<open>\<open>seoRequest.fields\<close>.\<close>

definition seo_fields :: "seo_request \<Rightarrow> string \<Rightarrow> string \<Rightarrow> version_fields" where
  "seo_fields s title body =
     \<lparr>f_title = title, f_body = body, f_meta_title = sr_meta_title s,
      f_meta_description = sr_meta_description s, f_canonical_url = sr_canonical_url s,
      f_og_image_url = sr_og_image_url s, f_noindex = sr_noindex s\<rparr>"

record create_content_request =
  cr_slug :: string
  cr_title :: string
  cr_body :: string
  cr_seo :: seo_request

definition create_decoder :: "create_content_request decoder" where
  "create_decoder = dec_struct
     [(''slug'', on_field cr_slug (\<lambda>v. cr_slug_update (\<lambda>_. v)) dec_string),
      (''title'', on_field cr_title (\<lambda>v. cr_title_update (\<lambda>_. v)) dec_string),
      (''body'', on_field cr_body (\<lambda>v. cr_body_update (\<lambda>_. v)) dec_string),
      (''seo'', on_field cr_seo (\<lambda>v. cr_seo_update (\<lambda>_. v)) seo_decoder)]"

record update_content_request =
  ur_title :: string
  ur_body :: string
  ur_seo :: seo_request

definition update_decoder :: "update_content_request decoder" where
  "update_decoder = dec_struct
     [(''title'', on_field ur_title (\<lambda>v. ur_title_update (\<lambda>_. v)) dec_string),
      (''body'', on_field ur_body (\<lambda>v. ur_body_update (\<lambda>_. v)) dec_string),
      (''seo'', on_field ur_seo (\<lambda>v. ur_seo_update (\<lambda>_. v)) seo_decoder)]"

record publish_request =
  pr_version :: int64

definition publish_decoder :: "publish_request decoder" where
  "publish_decoder = dec_struct
     [(''version'', on_field pr_version (\<lambda>v. pr_version_update (\<lambda>_. v)) dec_int64)]"

record schedule_request =
  sq_version :: int64
  sq_run_at :: string

definition schedule_decoder :: "schedule_request decoder" where
  "schedule_decoder = dec_struct
     [(''version'', on_field sq_version (\<lambda>v. sq_version_update (\<lambda>_. v)) dec_int64),
      (''run_at'', on_field sq_run_at (\<lambda>v. sq_run_at_update (\<lambda>_. v)) dec_string)]"

section \<open>Errors are not forgotten\<close>

lemma dec_members_error: "snd (dec_members fs ms x (Some e)) = Some e"
proof (induction ms arbitrary: x)
  case (Cons m ms)
  then show ?case
    by (cases m) (auto simp: first_error_def split: option.split prod.split)
qed simp

text \<open>A decoded object has no member the struct does not know.\<close>

lemma dec_members_known:
  assumes "dec_members fs ms x None = (y, None)" "(k, v) \<in> set ms"
  shows "find_field fs k \<noteq> None"
  using assms
proof (induction ms arbitrary: x)
  case (Cons m ms)
  obtain k' v' where m: "m = (k', v')" by fastforce
  show ?case
  proof (cases "find_field fs k'")
    case None
    then have "snd (dec_members fs (m # ms) x None) \<noteq> None"
      by (simp add: m first_error_def dec_members_error)
    with Cons.prems show ?thesis by simp
  next
    case (Some d)
    obtain x' e' where d: "d v' x = (x', e')" by fastforce
    with Cons.prems Some have rest: "dec_members fs ms x' (first_error None e') = (y, None)"
      by (simp add: m)
    then have "e' = None"
      using dec_members_error [of fs ms x'] by (cases e') (simp_all add: first_error_def, metis option.distinct(1) snd_conv)
    with rest Cons Some m show ?thesis by (auto simp: first_error_def)
  qed
qed simp

lemma dec_struct_known:
  "dec_struct fs (JObject ms) x = (y, None) \<Longrightarrow> (k, v) \<in> set ms \<Longrightarrow> find_field fs k \<noteq> None"
  using dec_members_known by fastforce

end
