(* ===== verification/Evolution.thy ===== *)
theory Evolution
  imports Service
begin

text \<open>
  How the database may change: rows are only ever appended, the rows of \<open>content_versions\<close> and
  \<open>publish_events\<close> never change, a document keeps its id and slug and its token never goes down, and
  a schedule moves along the edges of its state machine, a finished one not at all. Every write of
  the store is proved to be such a change; together with the integrity invariant this is the
  contract (\<open>sound\<close>) the system-level results are built on.
\<close>

section \<open>The state machine of a schedule\<close>

inductive status_step :: "schedule_status \<Rightarrow> schedule_status \<Rightarrow> bool" where
  claim: "status_step SchedulePending ScheduleClaimed"
| reclaim: "status_step ScheduleClaimed ScheduleClaimed"
| give_back: "status_step ScheduleClaimed SchedulePending"
| complete: "status_step ScheduleClaimed ScheduleDone"
| cancel: "status_step SchedulePending ScheduleCancelled"

inductive_simps status_step_simps [simp]:
  "status_step SchedulePending st"
  "status_step ScheduleClaimed st"
  "status_step ScheduleDone st"
  "status_step ScheduleCancelled st"
  "status_step ScheduleFailed st"

lemma status_steps_terminal:
  assumes "status_step\<^sup>*\<^sup>* st st'" "st = ScheduleDone \<or> st = ScheduleCancelled \<or> st = ScheduleFailed"
  shows "st' = st"
  using assms by (induction rule: rtranclp_induct) auto

lemma status_steps_failed: "status_step\<^sup>*\<^sup>* st ScheduleFailed \<Longrightarrow> st = ScheduleFailed"
  by (erule rtranclp.cases) (auto elim: status_step.cases)

section \<open>Tables that grow\<close>

definition rows_evolve :: "('r \<Rightarrow> 'r \<Rightarrow> bool) \<Rightarrow> 'r list \<Rightarrow> 'r list \<Rightarrow> bool" where
  "rows_evolve R xs ys \<longleftrightarrow> (\<exists>ys1 ys2. ys = ys1 @ ys2 \<and> list_all2 R xs ys1)"

lemma rows_evolve_refl: "(\<And>x. R x x) \<Longrightarrow> rows_evolve R xs xs"
  unfolding rows_evolve_def by (metis append_Nil2 list.rel_refl)

lemma rows_evolve_append: "(\<And>x. R x x) \<Longrightarrow> rows_evolve R xs (xs @ ys)"
  unfolding rows_evolve_def by (metis list.rel_refl)

lemma rows_evolve_update:
  "(\<And>x. R x x) \<Longrightarrow> (\<And>x. x \<in> set xs \<Longrightarrow> P x \<Longrightarrow> R x (f x)) \<Longrightarrow> rows_evolve R xs (update_where P f xs)"
  unfolding rows_evolve_def
  by (rule exI [of _ "update_where P f xs"], rule exI [of _ "[]"])
    (auto simp: update_where_def list_all2_conv_all_nth)

lemma rows_evolve_trans:
  assumes trans: "\<And>x y z. R x y \<Longrightarrow> R y z \<Longrightarrow> R x z"
    and xy: "rows_evolve R xs ys" and yz: "rows_evolve R ys zs"
  shows "rows_evolve R xs zs"
proof -
  from xy obtain ys1 ys2 where ys: "ys = ys1 @ ys2" "list_all2 R xs ys1"
    by (auto simp: rows_evolve_def)
  from yz obtain zs1 zs2 where zs: "zs = zs1 @ zs2" "list_all2 R ys zs1"
    by (auto simp: rows_evolve_def)
  then obtain zs1a zs1b where z1: "zs1 = zs1a @ zs1b" "list_all2 R ys1 zs1a"
    using ys(1) by (auto simp: list_all2_append1)
  have "list_all2 R xs zs1a"
    using list_all2_trans [of R R R xs ys1 zs1a] trans ys(2) z1(2) by blast
  with zs(1) z1(1) show ?thesis by (auto simp: rows_evolve_def)
qed

lemma rows_evolve_in:
  "rows_evolve R xs ys \<Longrightarrow> x \<in> set xs \<Longrightarrow> \<exists>y \<in> set ys. R x y"
  unfolding rows_evolve_def by (metis Un_iff list_all2_conv_all_nth in_set_conv_nth set_append)

lemma rows_evolve_eq: "rows_evolve (=) xs ys \<longleftrightarrow> (\<exists>zs. ys = xs @ zs)"
  by (auto simp: rows_evolve_def list_all2_eq [symmetric])

definition content_evolves :: "content_row \<Rightarrow> content_row \<Rightarrow> bool" where
  "content_evolves c c' \<longleftrightarrow> c_id c' = c_id c \<and> c_slug c' = c_slug c \<and>
     c_created_at c' = c_created_at c \<and> c_current_version c \<le> c_current_version c'"

definition schedule_evolves :: "schedule_row \<Rightarrow> schedule_row \<Rightarrow> bool" where
  "schedule_evolves s s' \<longleftrightarrow> job_of s' = job_of s \<and> s_run_at s' = s_run_at s \<and>
     s_created_at s' = s_created_at s \<and> s_attempts s \<le> s_attempts s' \<and>
     status_step\<^sup>*\<^sup>* (s_status s) (s_status s') \<and>
     (\<not> schedule_active s \<longrightarrow> s' = s)"

definition evolves :: "db \<Rightarrow> db \<Rightarrow> bool" where
  "evolves d d' \<longleftrightarrow>
     rows_evolve content_evolves (contents d) (contents d') \<and>
     rows_evolve (=) (versions d) (versions d') \<and>
     rows_evolve schedule_evolves (schedules d) (schedules d') \<and>
     rows_evolve (=) (events d) (events d')"

lemma content_evolves_refl [simp]: "content_evolves c c"
  by (simp add: content_evolves_def)

lemma schedule_evolves_refl [simp]: "schedule_evolves s s"
  by (simp add: schedule_evolves_def)

lemma schedule_evolves_trans:
  "schedule_evolves s s' \<Longrightarrow> schedule_evolves s' s'' \<Longrightarrow> schedule_evolves s s''"
  by (auto simp: schedule_evolves_def intro: rtranclp_trans)

lemma evolves_refl [simp]: "evolves d d"
  by (simp add: evolves_def rows_evolve_refl)

lemma evolves_trans: "evolves d d' \<Longrightarrow> evolves d' d'' \<Longrightarrow> evolves d d''"
  unfolding evolves_def
  by (auto intro: rows_evolve_trans [where R = content_evolves]
      rows_evolve_trans [where R = "(=)"] rows_evolve_trans [OF schedule_evolves_trans]
      simp: content_evolves_def)

lemma evolves_job_ok:
  assumes "evolves d d'" "job_ok d j"
  shows "job_ok d' j"
proof -
  from assms(2) obtain s where s: "s \<in> set (schedules d)" "j = job_of s"
    by (auto simp: job_ok_def)
  moreover have "rows_evolve schedule_evolves (schedules d) (schedules d')"
    using assms(1) by (simp add: evolves_def)
  ultimately obtain s' where "s' \<in> set (schedules d')" "schedule_evolves s s'"
    by (blast dest: rows_evolve_in)
  then show ?thesis
    unfolding job_ok_def s(2) by (metis imageI schedule_evolves_def)
qed

lemma evolves_versions: "evolves d d' \<Longrightarrow> \<exists>vs. versions d' = versions d @ vs"
  by (simp add: evolves_def rows_evolve_eq)

lemma evolves_events: "evolves d d' \<Longrightarrow> \<exists>es. events d' = events d @ es"
  by (simp add: evolves_def rows_evolve_eq)

lemma evolves_find_content:
  assumes "evolves d d'" "db_ok d'" "find_content d cid = Some c"
  shows "\<exists>c'. find_content d' cid = Some c' \<and> content_evolves c c'"
proof -
  from assms(3) have "c \<in> set (contents d)" "c_id c = cid"
    by (simp_all add: find_content_in find_content_id)
  then obtain c' where "c' \<in> set (contents d')" "content_evolves c c'"
    using assms(1) by (auto simp: evolves_def dest: rows_evolve_in)
  with assms(2) \<open>c_id c = cid\<close> show ?thesis
    by (auto simp: db_ok_find_content content_evolves_def)
qed

lemma evolves_find_schedule:
  assumes "evolves d d'" "db_ok d'" "find_schedule d sid = Some s"
  shows "\<exists>s'. find_schedule d' sid = Some s' \<and> schedule_evolves s s'"
proof -
  from assms(3) have "s \<in> set (schedules d)" "s_id s = sid"
    by (auto simp: find_schedule_def dest: row_with_SomeD)
  then obtain s' where "s' \<in> set (schedules d')" "schedule_evolves s s'"
    using assms(1) by (auto simp: evolves_def dest: rows_evolve_in)
  with assms(2) \<open>s_id s = sid\<close> show ?thesis
    by (auto simp: db_ok_find_schedule schedule_evolves_def job_of_def)
qed

section \<open>The writes of the store\<close>

lemma evolves_set_pointer: "evolves d (append_event e (set_pointer cid ptr now d))"
  unfolding evolves_def append_event_sel set_pointer_sel
  by (auto intro!: rows_evolve_refl rows_evolve_append rows_evolve_update
      simp: set_pointer_def content_evolves_def)

lemma evolves_set_schedules:
  "(\<And>s. s \<in> set (schedules d) \<Longrightarrow> P s \<Longrightarrow> schedule_evolves s (f s)) \<Longrightarrow>
   evolves d (set_schedules P f d)"
  unfolding evolves_def by (auto intro!: rows_evolve_refl rows_evolve_update)

definition sound :: "(db \<Rightarrow> bool) \<Rightarrow> 'a io \<Rightarrow> bool" where
  "sound pre m \<longleftrightarrow> (\<forall>w. db_ok (tables w) \<and> pre (tables w) \<longrightarrow>
     db_ok (tables (snd (m w))) \<and> evolves (tables w) (tables (snd (m w))))"

named_theorems sound_intros "actions that keep the invariant and only make the tables evolve"

abbreviation always :: "db \<Rightarrow> bool" where
  "always \<equiv> \<lambda>_. True"

lemma sound_atomic:
  assumes "atomic m" "keeps db_ok m"
    and "\<And>w x w'. db_ok (tables w) \<Longrightarrow> m w = (Inr x, w') \<Longrightarrow> evolves (tables w) (tables w')"
  shows "sound always m"
  unfolding sound_def
proof (intro allI impI conjI)
  fix w :: world assume ok: "db_ok (tables w) \<and> always (tables w)"
  then show "db_ok (tables (snd (m w)))" using assms(2) by (simp add: keepsD)
  show "evolves (tables w) (tables (snd (m w)))"
    by (rule atomic_keeps [OF assms(1), where P = "evolves (tables w)"]) (use ok assms(3) in auto)
qed

lemma sound_readonly: "readonly m \<Longrightarrow> sound pre m"
  by (simp add: sound_def readonly_def)

lemma sound_content_writes [sound_intros]:
  "sound always (create_content cid slug f actor now)"
  "sound always (update_content cid expected f actor now)"
proof -
  show "sound always (create_content cid slug f actor now)"
    by (rule sound_atomic [OF atomic_content_writes(1) keeps_store(1)])
      (auto simp: evolves_def intro!: rows_evolve_refl rows_evolve_append
        dest!: create_content_effect)
  show "sound always (update_content cid expected f actor now)"
    by (rule sound_atomic [OF atomic_content_writes(2) keeps_store(2)])
      (auto simp: evolves_def bump_version_def content_evolves_def
        intro!: rows_evolve_refl rows_evolve_append rows_evolve_update
        dest!: update_content_effect)
qed

lemma sound_publish [sound_intros]:
  assumes "pp_schedule_id p = None"
  shows "sound always (publish p)"
proof (rule sound_atomic [OF atomic_publish(1) keeps_store(3) [OF assms]])
  fix w c w' assume "publish p w = (Inr c, w')"
  with publish_effect [OF this] assms show "evolves (tables w) (tables w')"
    by (auto simp: evolves_set_pointer split: if_splits)
qed

lemma sound_unpublish [sound_intros]: "sound always (unpublish cid actor now)"
proof (rule sound_atomic [OF atomic_publish(2) keeps_store(4)])
  fix w c w' assume "unpublish cid actor now w = (Inr c, w')"
  with unpublish_effect [OF this] show "evolves (tables w) (tables w')"
    by (auto simp: evolves_set_pointer split: if_splits)
qed

lemma evolves_unlock:
  "status_step (s_status s) st \<Longrightarrow> schedule_evolves s (unlock st now s)"
  by (auto simp: schedule_evolves_def job_of_def unlock_def schedule_active_def
      elim: status_step.cases)

lemma sound_create_schedule [sound_intros]: "sound always (create_schedule sid cid vid run_at now)"
  by (rule sound_atomic [OF atomic_schedule_writes(1) keeps_store(5)])
    (auto simp: evolves_def intro!: rows_evolve_refl rows_evolve_append
      dest!: create_schedule_effect)

lemma sound_cancel [sound_intros]: "sound always (cancel_schedule sid now)"
  by (rule sound_atomic [OF atomic_schedule_writes(2) keeps_store(6)])
    (auto intro!: evolves_set_schedules evolves_unlock dest!: cancel_schedule_effect)

lemma sound_claim [sound_intros]:
  assumes "planner_ok pl"
  shows "sound always (claim_due_schedules pl worker now exp limit)"
proof (rule sound_atomic [OF atomic_schedule_writes(3) keeps_store(7) [OF assms]])
  fix w jobs w' assume ok: "db_ok (tables w)"
    and "claim_due_schedules pl worker now exp limit w = (Inr jobs, w')"
  from claim_effect [OF this(2)] have eff: "tables w' =
      set_schedules (\<lambda>s. s_id s \<in> set (due_ids pl now limit (tables w)))
        (claim_row worker exp now) (tables w)" by simp
  have "schedule_evolves s (claim_row worker exp now s)"
    if "s \<in> set (schedules (tables w))" "s_id s \<in> set (due_ids pl now limit (tables w))" for s
    using schedule_due_active [OF due_row [OF ok assms that]]
    by (auto simp: schedule_evolves_def schedule_active_def claim_row_def job_of_def
        intro!: r_into_rtranclp)
  then show "evolves (tables w) (tables w')"
    unfolding eff by (intro evolves_set_schedules)
qed

lemma sound_fail [sound_intros]: "sound always (fail_schedule sid worker reason now)"
  by (rule sound_atomic [OF atomic_schedule_writes(4) keeps_store(8)])
    (auto intro!: evolves_set_schedules dest!: fail_effect
      simp: held_by_def schedule_evolves_def job_of_def unlock_def schedule_active_def
      intro!: r_into_rtranclp)

lemma sound_release [sound_intros]: "sound always (release_claims worker now)"
  by (rule sound_atomic [OF atomic_schedule_writes(5) keeps_store(9)])
    (auto intro!: evolves_set_schedules evolves_unlock dest!: release_effect)

lemma sound_complete [sound_intros]:
  "sound (\<lambda>d. job_ok d j) (complete_scheduled_publish j worker now)"
  unfolding sound_def
proof (intro allI impI conjI)
  fix w :: world assume pre: "db_ok (tables w) \<and> job_ok (tables w) j"
  then show "db_ok (tables (snd (complete_scheduled_publish j worker now w)))"
    by (simp add: complete_ok)
  have "evolves (tables w) (tables w')"
    if run: "complete_scheduled_publish j worker now w = (Inr b, w')" for b w'
  proof (cases b)
    case False
    with complete_tx_cases [OF run] show ?thesis by simp
  next
    case True
    let ?d1 = "append_event (job_event j now)
        (set_pointer (j_content_id j) (Some (j_version_id j)) now (tables w))"
    have "evolves ?d1 (set_schedules (held_by worker (j_schedule_id j)) (unlock ScheduleDone now) ?d1)"
      by (intro evolves_set_schedules evolves_unlock) (simp add: held_by_def)
    with evolves_set_pointer [of "tables w"] have
      "evolves (tables w) (set_schedules (held_by worker (j_schedule_id j)) (unlock ScheduleDone now) ?d1)"
      by (rule evolves_trans)
    with run True show ?thesis
      using complete_effect [of j worker now w w'] by simp
  qed
  then show "evolves (tables w) (tables (snd (complete_scheduled_publish j worker now w)))"
    by (intro atomic_keeps [OF atomic_complete, where P = "evolves (tables w)"]) simp_all
qed

section \<open>Composition\<close>

lemma sound_weaken: "sound pre m \<Longrightarrow> (\<And>d. pre' d \<Longrightarrow> pre d) \<Longrightarrow> sound pre' m"
  by (auto simp: sound_def)

definition stable :: "(db \<Rightarrow> bool) \<Rightarrow> bool" where
  "stable pre \<longleftrightarrow> (\<forall>d d'. evolves d d' \<longrightarrow> pre d \<longrightarrow> pre d')"

lemma stable_always [simp]: "stable always"
  by (simp add: stable_def)

lemma stable_job_ok [simp]: "stable (\<lambda>d. job_ok d j)"
  using evolves_job_ok by (auto simp: stable_def)

lemma stable_jobs_ok [simp]: "stable (\<lambda>d. \<forall>j \<in> set js. job_ok d j)"
  using evolves_job_ok by (auto simp: stable_def)

lemma sound_bind:
  assumes m: "sound pre m" and st: "stable pre" and k: "\<And>x. sound pre (k x)"
  shows "sound pre (io_bind m k)"
  unfolding sound_def
proof (intro allI impI)
  fix w :: world
  assume pre: "db_ok (tables w) \<and> pre (tables w)"
  obtain r w1 where run: "m w = (r, w1)" by fastforce
  with m pre have w1: "db_ok (tables w1)" "evolves (tables w) (tables w1)"
    by (auto simp: sound_def dest!: spec [of _ w])
  show "db_ok (tables (snd (io_bind m k w))) \<and> evolves (tables w) (tables (snd (io_bind m k w)))"
  proof (cases r)
    case (Inl e)
    with run w1 show ?thesis by (simp add: io_bind_def)
  next
    case (Inr x)
    from st pre w1 have "pre (tables w1)" by (auto simp: stable_def)
    with k [of x] w1 have "db_ok (tables (snd (k x w1)))" "evolves (tables w1) (tables (snd (k x w1)))"
      by (auto simp: sound_def)
    with run Inr w1 show ?thesis
      by (auto simp: io_bind_def intro: evolves_trans)
  qed
qed

lemma sound_bind_always [sound_intros]:
  "sound always m \<Longrightarrow> (\<And>x. sound always (k x)) \<Longrightarrow> sound always (io_bind m k)"
  by (rule sound_bind) simp_all

lemma sound_return [sound_intros]: "sound pre (io_return x)"
  by (rule sound_readonly) (rule readonly_return)

lemma sound_throw [sound_intros]: "sound pre (io_throw e)"
  by (rule sound_readonly) (rule readonly_throw)

lemma sound_reads [sound_intros]:
  "sound pre (lift_sum r)" "sound pre now_millis" "sound pre clk_now" "sound pre (get_version cid ver)"
  by (simp_all add: sound_readonly readonly_intros)

lemma sound_service [sound_intros]:
  "sound always (service_create uuid i)"
  "sound always (service_update ui)"
  "sound always (service_publish cid ver actor)"
  "sound always (service_unpublish cid actor)"
  "sound always (service_schedule uuid si)"
  "sound always (service_cancel_schedule sid)"
  by (auto simp: service_create_def service_update_def service_publish_def service_unpublish_def
      service_schedule_def service_cancel_schedule_def Let_def
      intro!: sound_intros split: option.split)

end
