(* ===== verification/Worker.thy ===== *)
theory Worker
  imports Evolution
begin

text \<open>
  \<open>internal/scheduler/worker.go\<close>: the polling worker. A tick claims what is due and executes the
  claimed jobs one after the other; an error of a job is recorded and does not stop the loop; on
  shutdown the worker gives its claims back. Logging, the wait group (the loop is sequential, so
  nothing is in flight when \<open>shutdown\<close> runs) and the context timeouts (a timeout is a failure of
  the driver call it interrupts) have no counterpart of their own.
\<close>

section \<open>The worker\<close>

record worker_config =
  wc_instance_id :: string
  wc_poll_interval :: int64
  wc_lease_ttl :: int64
  wc_batch_size :: int64

record worker =
  wk_id :: string
  wk_poll :: int64
  wk_lease :: int64
  wk_batch :: int64
  wk_ticks :: int64

definition new_worker :: "worker_config \<Rightarrow> worker" where
  "new_worker cfg =
     \<lparr>wk_id = wc_instance_id cfg, wk_poll = wc_poll_interval cfg, wk_lease = wc_lease_ttl cfg,
      wk_batch = wc_batch_size cfg, wk_ticks = 0\<rparr>"

text \<open>A call whose error is a value the caller looks at, and the loop over the jobs.\<close>

definition io_attempt :: "'a io \<Rightarrow> (go_error + 'a) io" where
  "io_attempt m w = (case m w of (r, w1) \<Rightarrow> (Inr r, w1))"

fun io_each :: "('a \<Rightarrow> unit io) \<Rightarrow> 'a list \<Rightarrow> unit io" where
  "io_each f [] = io_return ()"
| "io_each f (x # xs) = io_bind (f x) (\<lambda>_. io_each f xs)"

text \<open>\<open>Worker.execute\<close>. The context it makes is detached, so no cancellation reaches the calls.\<close>

definition execute :: "(sqlite_code \<Rightarrow> string) \<Rightarrow> worker \<Rightarrow> claimed_job \<Rightarrow> unit io" where
  "execute drv wk j =
     io_bind now_millis
     (\<lambda>now. io_bind (io_attempt (complete_scheduled_publish j (wk_id wk) now))
     (\<lambda>res. case res of
         Inl err \<Rightarrow>
           io_bind (io_attempt
             (fail_schedule (j_schedule_id j) (wk_id wk) (error_text drv err) now))
           (\<lambda>_. io_return ())
       | Inr completed \<Rightarrow> io_return ()))"

text \<open>\<open>Worker.tick\<close>; the deferred increment happens on every path.\<close>

definition count_tick :: "worker \<Rightarrow> worker" where
  "count_tick wk = wk\<lparr>wk_ticks := wrap64 (wk_ticks wk + 1)\<rparr>"

definition tick :: "(sqlite_code \<Rightarrow> string) \<Rightarrow> planner \<Rightarrow> worker \<Rightarrow> worker io" where
  "tick drv pl wk =
     io_bind now_millis
     (\<lambda>now. io_bind clk_now
     (\<lambda>t. io_bind
        (io_attempt (claim_due_schedules pl (wk_id wk) now (to_millis (time_add t (wk_lease wk)))
          (wk_batch wk)))
     (\<lambda>res. case res of
         Inl err \<Rightarrow> io_return (count_tick wk)
       | Inr jobs \<Rightarrow>
           if jobs = [] then io_return (count_tick wk)
           else io_bind (io_each (execute drv wk) jobs) (\<lambda>_. io_return (count_tick wk)))))"

definition run_once :: "(sqlite_code \<Rightarrow> string) \<Rightarrow> planner \<Rightarrow> worker \<Rightarrow> worker io" where
  "run_once drv pl wk = tick drv pl wk"

text \<open>\<open>Worker.shutdown\<close>: a failed release is only logged.\<close>

definition shutdown :: "worker \<Rightarrow> unit io" where
  "shutdown wk =
     io_bind now_millis
     (\<lambda>now. io_bind (io_attempt (release_claims (wk_id wk) now)) (\<lambda>_. io_return ()))"

text \<open>
  \<open>Worker.Run\<close> on the sequence of wake-ups its \<open>select\<close> receives: the ticker fires, or the context
  is done. The result says whether the loop has returned.
\<close>

datatype wake = TickerFires | ContextDone

fun worker_run :: "(sqlite_code \<Rightarrow> string) \<Rightarrow> planner \<Rightarrow> worker \<Rightarrow> wake list \<Rightarrow> (worker \<times> bool) io"
  where
  "worker_run drv pl wk [] = io_return (wk, False)"
| "worker_run drv pl wk (ContextDone # ws) = io_bind (shutdown wk) (\<lambda>_. io_return (wk, True))"
| "worker_run drv pl wk (TickerFires # ws) =
     io_bind (tick drv pl wk) (\<lambda>wk'. worker_run drv pl wk' ws)"

definition worker_ticks :: "worker \<Rightarrow> int64" where
  "worker_ticks wk = wk_ticks wk"

section \<open>Soundness\<close>

lemma io_attempt_eq [nofault]: "m w = (r, w1) \<Longrightarrow> io_attempt m w = (Inr r, w1)"
  by (simp add: io_attempt_def)

lemma sound_attempt [sound_intros]: "sound pre m \<Longrightarrow> sound pre (io_attempt m)"
  by (auto simp: sound_def io_attempt_def split: prod.split)

lemma sound_always_weaken: "sound always m \<Longrightarrow> sound pre m"
  by (auto simp: sound_def)

lemma sound_execute: "sound (\<lambda>d. job_ok d j) (execute drv wk j)"
  unfolding execute_def
proof (rule sound_bind)
  fix now
  show "sound (\<lambda>d. job_ok d j)
     (io_bind (io_attempt (complete_scheduled_publish j (wk_id wk) now))
     (\<lambda>res. case res of
         Inl err \<Rightarrow>
           io_bind (io_attempt
             (fail_schedule (j_schedule_id j) (wk_id wk) (error_text drv err) now))
           (\<lambda>_. io_return ())
       | Inr completed \<Rightarrow> io_return ()))"
  proof (rule sound_bind)
    show "sound (\<lambda>d. job_ok d j) (io_attempt (complete_scheduled_publish j (wk_id wk) now))"
      by (intro sound_intros)
    fix res :: "go_error + bool"
    have "sound always (io_bind (io_attempt
        (fail_schedule (j_schedule_id j) (wk_id wk) (error_text drv err) now)) (\<lambda>_. io_return ()))" for err
      by (intro sound_intros)
    from sound_always_weaken [OF this] show "sound (\<lambda>d. job_ok d j) (case res of
         Inl err \<Rightarrow>
           io_bind (io_attempt
             (fail_schedule (j_schedule_id j) (wk_id wk) (error_text drv err) now))
           (\<lambda>_. io_return ())
       | Inr completed \<Rightarrow> io_return ())"
      by (simp add: sound_return split: sum.split)
  qed simp
qed (simp_all add: sound_reads)

lemma sound_each:
  assumes "\<And>x. x \<in> set xs \<Longrightarrow> sound (pre x) (f x)" "\<And>x. stable (pre x)"
  shows "sound (\<lambda>d. \<forall>x \<in> set xs. pre x d) (io_each f xs)"
  using assms(1)
proof (induction xs)
  case Nil
  then show ?case by (simp add: sound_return)
next
  case (Cons x xs)
  have "sound (\<lambda>d. \<forall>x \<in> set (x # xs). pre x d) (f x)"
    by (rule sound_weaken [of "pre x"]) (use Cons.prems in auto)
  moreover have "stable (\<lambda>d. \<forall>x \<in> set (x # xs). pre x d)"
    using assms(2) unfolding stable_def by blast
  moreover have "sound (\<lambda>d. \<forall>x \<in> set (x # xs). pre x d) (io_each f xs)"
    by (rule sound_weaken [OF Cons.IH]) (use Cons.prems in auto)
  ultimately show ?case
    unfolding io_each.simps by (rule sound_bind)
qed

lemma sound_execute_all:
  "sound (\<lambda>d. \<forall>j \<in> set jobs. job_ok d j) (io_each (execute drv wk) jobs)"
  by (rule sound_each) (simp_all add: sound_execute)

text \<open>A continuation may rely on what the result of the action before it guarantees.\<close>

lemma sound_bind_post:
  assumes m: "sound always m"
    and post: "\<And>w x w'. db_ok (tables w) \<Longrightarrow> m w = (Inr x, w') \<Longrightarrow> Q x (tables w')"
    and k: "\<And>x. sound (Q x) (k x)"
  shows "sound always (io_bind m k)"
  unfolding sound_def
proof (intro allI impI)
  fix w :: world
  assume pre: "db_ok (tables w) \<and> always (tables w)"
  obtain r w1 where run: "m w = (r, w1)" by fastforce
  with m pre have w1: "db_ok (tables w1)" "evolves (tables w) (tables w1)"
    by (auto simp: sound_def dest!: spec [of _ w])
  show "db_ok (tables (snd (io_bind m k w))) \<and> evolves (tables w) (tables (snd (io_bind m k w)))"
  proof (cases r)
    case (Inl e)
    with run w1 show ?thesis by (simp add: io_bind_def)
  next
    case (Inr x)
    with post pre run have "Q x (tables w1)" by blast
    with k [of x] w1 have "db_ok (tables (snd (k x w1)))" "evolves (tables w1) (tables (snd (k x w1)))"
      by (auto simp: sound_def)
    with run Inr w1 show ?thesis
      by (auto simp: io_bind_def intro: evolves_trans)
  qed
qed

lemma sound_tick [sound_intros]:
  assumes "planner_ok pl"
  shows "sound always (tick drv pl wk)"
  unfolding tick_def
proof (rule sound_bind_always [OF sound_reads(2)], rule sound_bind_always [OF sound_reads(3)])
  fix now t
  let ?claim = "claim_due_schedules pl (wk_id wk) now (to_millis (time_add t (wk_lease wk))) (wk_batch wk)"
  show "sound always (io_bind (io_attempt ?claim)
     (\<lambda>res. case res of
         Inl err \<Rightarrow> io_return (count_tick wk)
       | Inr jobs \<Rightarrow>
           if jobs = [] then io_return (count_tick wk)
           else io_bind (io_each (execute drv wk) jobs) (\<lambda>_. io_return (count_tick wk))))"
  proof (rule sound_bind_post [where Q = "\<lambda>res d. \<forall>jobs. res = Inr jobs \<longrightarrow> (\<forall>j \<in> set jobs. job_ok d j)"])
    show "sound always (io_attempt ?claim)"
      using assms by (intro sound_intros)
  next
    fix w w' :: world and res
    assume "io_attempt ?claim w = (Inr res, w')"
    then have "?claim w = (res, w')"
      by (auto simp: io_attempt_def split: prod.splits)
    then show "\<forall>jobs. res = Inr jobs \<longrightarrow> (\<forall>j \<in> set jobs. job_ok (tables w') j)"
      using claim_jobs_ok [OF assms] by blast
  next
    fix res :: "go_error + claimed_job list"
    show "sound (\<lambda>d. \<forall>jobs. res = Inr jobs \<longrightarrow> (\<forall>j \<in> set jobs. job_ok d j))
      (case res of
         Inl err \<Rightarrow> io_return (count_tick wk)
       | Inr jobs \<Rightarrow>
           if jobs = [] then io_return (count_tick wk)
           else io_bind (io_each (execute drv wk) jobs) (\<lambda>_. io_return (count_tick wk)))"
    proof (cases res)
      case (Inr jobs)
      have "sound (\<lambda>d. \<forall>j \<in> set jobs. job_ok d j)
          (io_bind (io_each (execute drv wk) jobs) (\<lambda>_. io_return (count_tick wk)))"
        by (rule sound_bind [OF sound_execute_all]) (simp_all add: sound_return)
      with Inr show ?thesis by (simp add: sound_return)
    qed (simp add: sound_return)
  qed
qed

lemma sound_shutdown [sound_intros]: "sound always (shutdown wk)"
  unfolding shutdown_def by (intro sound_intros)

lemma sound_run [sound_intros]:
  "planner_ok pl \<Longrightarrow> sound always (worker_run drv pl wk ws)"
  by (induction drv pl wk ws rule: worker_run.induct) (auto intro!: sound_intros)

end
