(* ===== verification/Config.thy ===== *)
theory Config
  imports Go_Numbers Worker
begin

text \<open>
  \<open>internal/config/config.go\<close>: the settings read from the environment and their validation. An
  environment is a map from names to values. \<open>time.ParseDuration\<close> computes fractions in floating
  point; it is the parameter \<open>pd\<close>. Durations are nanoseconds in an int64, the texts of the errors
  are the arguments of their constructors.
\<close>

record config =
  cfg_addr :: string
  cfg_db_path :: string
  cfg_admin_api_token :: string
  cfg_public_base_url :: string
  cfg_poll_interval :: int64
  cfg_lease_ttl :: int64
  cfg_batch_size :: int64
  cfg_shutdown_grace :: int64
  cfg_scheduler_on :: bool
  cfg_log_json :: bool

datatype config_error =
    NotAnInteger string string
  | NotADuration string string
  | TokenNotSet
  | DbPathEmpty
  | PollNotPositive int64
  | LeaseNotAbovePoll int64 int64
  | BatchNotPositive int64
  | BadBaseUrl string

type_synonym env = "string \<Rightarrow> string option"

section \<open>Reading one variable\<close>

definition env_string :: "env \<Rightarrow> string \<Rightarrow> string \<Rightarrow> string" where
  "env_string e key def =
     (case e key of Some v \<Rightarrow> if v \<noteq> [] then v else def | None \<Rightarrow> def)"

text \<open>\<open>strconv.ParseBool\<close>.\<close>

definition parse_bool :: "string \<Rightarrow> bool option" where
  "parse_bool s =
     (if s \<in> set [''1'', ''t'', ''T'', ''TRUE'', ''true'', ''True''] then Some True
      else if s \<in> set [''0'', ''f'', ''F'', ''FALSE'', ''false'', ''False''] then Some False
      else None)"

definition env_bool :: "env \<Rightarrow> string \<Rightarrow> bool \<Rightarrow> bool" where
  "env_bool e key def =
     (case e key of
        None \<Rightarrow> def
      | Some v \<Rightarrow> if v = [] then def else case parse_bool v of None \<Rightarrow> def | Some b \<Rightarrow> b)"

definition env_int :: "env \<Rightarrow> string \<Rightarrow> int64 \<Rightarrow> config_error + int64" where
  "env_int e key def =
     (case e key of
        None \<Rightarrow> Inr def
      | Some v \<Rightarrow>
          if v = [] then Inr def
          else case parse_int v of None \<Rightarrow> Inl (NotAnInteger key v) | Some n \<Rightarrow> Inr n)"

definition env_duration ::
    "(string \<Rightarrow> int64 option) \<Rightarrow> env \<Rightarrow> string \<Rightarrow> int64 \<Rightarrow> config_error + int64" where
  "env_duration pd e key def =
     (case e key of
        None \<Rightarrow> Inr def
      | Some v \<Rightarrow>
          if v = [] then Inr def
          else case pd v of None \<Rightarrow> Inl (NotADuration key v) | Some d \<Rightarrow> Inr d)"

section \<open>Validation and loading\<close>

definition validate :: "config \<Rightarrow> config_error option" where
  "validate c =
     (if cfg_admin_api_token c = [] then Some TokenNotSet
      else if cfg_db_path c = [] then Some DbPathEmpty
      else if cfg_poll_interval c \<le> 0 then Some (PollNotPositive (cfg_poll_interval c))
      else if cfg_lease_ttl c \<le> cfg_poll_interval c
        then Some (LeaseNotAbovePoll (cfg_lease_ttl c) (cfg_poll_interval c))
      else if cfg_batch_size c \<le> 0 then Some (BatchNotPositive (cfg_batch_size c))
      else if \<not> has_prefix ''http://'' (cfg_public_base_url c) \<and>
              \<not> has_prefix ''https://'' (cfg_public_base_url c)
        then Some (BadBaseUrl (cfg_public_base_url c))
      else None)"

text \<open>\<open>strings.TrimRight(s, "/")\<close>.\<close>

definition trim_right_char :: "char \<Rightarrow> string \<Rightarrow> string" where
  "trim_right_char c s = rev (dropWhile (\<lambda>x. x = c) (rev s))"

definition seconds :: "int \<Rightarrow> int64" where
  "seconds n = n * 1000000000"

definition try_sum :: "'e + 'a \<Rightarrow> ('a \<Rightarrow> 'e + 'b) \<Rightarrow> 'e + 'b" where
  "try_sum r k = (case r of Inl e \<Rightarrow> Inl e | Inr x \<Rightarrow> k x)"

definition load :: "(string \<Rightarrow> int64 option) \<Rightarrow> env \<Rightarrow> config_error + config" where
  "load pd e =
     try_sum (env_duration pd e ''SCHEDULER_POLL_INTERVAL'' (seconds 1)) (\<lambda>poll.
     try_sum (env_duration pd e ''SCHEDULER_LEASE_TTL'' (seconds 30)) (\<lambda>lease.
     try_sum (env_duration pd e ''SHUTDOWN_TIMEOUT'' (seconds 10)) (\<lambda>grace.
     try_sum (env_int e ''SCHEDULER_BATCH_SIZE'' 10) (\<lambda>batch.
       let c = \<lparr>cfg_addr = env_string e ''ADDR'' '':8080'',
                cfg_db_path = env_string e ''DB_PATH'' ''./data/qdt.db'',
                cfg_admin_api_token = env_string e ''ADMIN_API_TOKEN'' [],
                cfg_public_base_url =
                  trim_right_char (CHR ''/'') (env_string e ''PUBLIC_BASE_URL'' ''http://localhost:8080''),
                cfg_poll_interval = poll, cfg_lease_ttl = lease, cfg_batch_size = batch,
                cfg_shutdown_grace = grace,
                cfg_scheduler_on = env_bool e ''SCHEDULER_ENABLED'' True,
                cfg_log_json = env_bool e ''LOG_JSON'' False\<rparr>
       in case validate c of Some err \<Rightarrow> Inl err | None \<Rightarrow> Inr c))))"

section \<open>What an accepted configuration guarantees\<close>

lemma try_sum_Inr: "try_sum r k = Inr y \<longleftrightarrow> (\<exists>x. r = Inr x \<and> k x = Inr y)"
  by (cases r) (simp_all add: try_sum_def)

lemma validate_None:
  "validate c = None \<longleftrightarrow>
   cfg_admin_api_token c \<noteq> [] \<and> cfg_db_path c \<noteq> [] \<and> 0 < cfg_poll_interval c \<and>
   cfg_poll_interval c < cfg_lease_ttl c \<and> 0 < cfg_batch_size c \<and>
   (has_prefix ''http://'' (cfg_public_base_url c) \<or> has_prefix ''https://'' (cfg_public_base_url c))"
  by (simp add: validate_def not_le)

lemma trim_right_char_last: "trim_right_char c s \<noteq> [] \<Longrightarrow> last (trim_right_char c s) \<noteq> c"
  unfolding trim_right_char_def
  by (metis (mono_tags) hd_dropWhile last_rev rev_is_Nil_conv)

lemma load_Inr:
  assumes "load pd e = Inr c"
  shows "validate c = None" and "cfg_public_base_url c \<noteq> [] \<Longrightarrow> last (cfg_public_base_url c) \<noteq> CHR ''/''"
    and "cfg_admin_api_token c = env_string e ''ADMIN_API_TOKEN'' []"
  using assms trim_right_char_last
  by (auto simp: load_def try_sum_Inr Let_def split: option.splits)

text \<open>
  \<open>run\<close> in \<open>cmd/server/main.go\<close> builds the worker's configuration from the loaded one.
\<close>

definition main_worker_config :: "config \<Rightarrow> string \<Rightarrow> worker_config" where
  "main_worker_config c instance_id =
     \<lparr>wc_instance_id = instance_id, wc_poll_interval = cfg_poll_interval c,
      wc_lease_ttl = cfg_lease_ttl c, wc_batch_size = cfg_batch_size c\<rparr>"

end
