(* ===== verification/Http.thy ===== *)
theory Http
  imports Service Etag Go_Time Json_Input Config
begin

text \<open>
  The vocabulary of \<open>internal/httpapi\<close>: requests and responses, the error envelope of \<open>errors.go\<close>,
  the wire types of \<open>dto.go\<close>, bearer authentication of \<open>auth.go\<close>, and the helpers of \<open>admin.go\<close> that
  every handler uses (body decoding, pagination, actor, the mapping of errors to responses).
  A response body is the value that \<open>encoding/json\<close>, \<open>encoding/xml\<close> or \<open>html/template\<close> renders; the
  rendering itself is the standard library's.
\<close>

section \<open>Wire types: dto.go\<close>

record seo_dto =
  sd_meta_title :: string
  sd_meta_description :: string
  sd_canonical_url :: string
  sd_og_image_url :: string
  sd_noindex :: bool

record version_dto =
  vd_version :: int64
  vd_title :: string
  vd_body :: string
  vd_seo :: seo_dto
  vd_created_by :: string
  vd_created_at :: string

record content_dto =
  cd_id :: string
  cd_slug :: string
  cd_version :: int64
  cd_status :: string
  cd_published_at :: "string option"
  cd_created_at :: string
  cd_updated_at :: string
  cd_draft :: version_dto
  cd_published_version :: "int64 option"

record public_content_dto =
  pd_slug :: string
  pd_title :: string
  pd_body :: string
  pd_seo :: seo_dto
  pd_published_at :: string
  pd_updated_at :: string

record schedule_dto =
  hd_id :: string
  hd_content_id :: string
  hd_version :: int64
  hd_run_at :: string
  hd_status :: string
  hd_attempts :: int64
  hd_last_error :: string
  hd_locked_by :: "string option"
  hd_created_at :: string
  hd_updated_at :: string

record 'a list_response =
  lr_items :: "'a list"
  lr_total :: int
  lr_limit :: int
  lr_offset :: int

definition format_millis :: "int64 \<Rightarrow> string" where
  "format_millis ms = format_rfc3339_milli (from_millis ms)"

definition format_millis_ptr :: "int64 option \<Rightarrow> string option" where
  "format_millis_ptr ms = map_option format_millis ms"

definition to_seo :: "version_fields \<Rightarrow> seo_dto" where
  "to_seo f =
     \<lparr>sd_meta_title = f_meta_title f, sd_meta_description = f_meta_description f,
      sd_canonical_url = f_canonical_url f, sd_og_image_url = f_og_image_url f,
      sd_noindex = f_noindex f\<rparr>"

definition to_version_dto :: "version_row \<Rightarrow> version_dto" where
  "to_version_dto v =
     \<lparr>vd_version = v_version v, vd_title = f_title (v_fields v), vd_body = f_body (v_fields v),
      vd_seo = to_seo (v_fields v), vd_created_by = v_created_by v,
      vd_created_at = format_millis (v_created_at v)\<rparr>"

definition content_status :: "content_row \<Rightarrow> int64 option \<Rightarrow> string" where
  "content_status c published_version =
     (if c_published_version_id c = None then ''draft''
      else case published_version of
          Some pv \<Rightarrow> if pv \<noteq> c_current_version c then ''published_with_draft'' else ''published''
        | None \<Rightarrow> ''published'')"

definition to_content_dto :: "content_with_version \<Rightarrow> int64 option \<Rightarrow> content_dto" where
  "to_content_dto cwv published_version =
     (let c = cv_content cwv in
      \<lparr>cd_id = c_id c, cd_slug = c_slug c, cd_version = c_current_version c,
       cd_status = content_status c published_version,
       cd_published_at = format_millis_ptr (c_published_at c),
       cd_created_at = format_millis (c_created_at c), cd_updated_at = format_millis (c_updated_at c),
       cd_draft = to_version_dto (cv_version cwv), cd_published_version = published_version\<rparr>)"

section \<open>What a page and a sitemap hold: html.go, seo.go\<close>

record article_ld =
  ld_context :: string
  ld_type :: string
  ld_headline :: string
  ld_description :: string
  ld_date_published :: string
  ld_date_modified :: string
  ld_image :: string
  ld_main_type :: string
  ld_main_id :: string

record page_data =
  pg_title :: string
  pg_heading :: string
  pg_description :: string
  pg_body :: string
  pg_canonical_url :: string
  pg_og_image :: string
  pg_noindex :: bool
  pg_published_at :: string
  pg_published_at_human :: string
  pg_updated_at :: string
  pg_json_ld :: article_ld

record sitemap_url =
  su_loc :: string
  su_last_mod :: string

record urlset =
  us_xmlns :: string
  us_urls :: "sitemap_url list"

section \<open>Requests and responses\<close>

text \<open>
  \<open>rq_header\<close> and \<open>rq_query\<close> are \<open>Header.Get\<close> and \<open>Query().Get\<close>, empty for what is absent;
  \<open>rq_uuid\<close> is the identifier \<open>uuid.NewString\<close> returns while the request is served.
\<close>

record http_request =
  rq_method :: string
  rq_path :: string
  rq_header :: "string \<Rightarrow> string"
  rq_query :: "string \<Rightarrow> string"
  rq_body :: request_body
  rq_uuid :: string

datatype detail = DString string | DInt int64

datatype payload =
    NoContent
  | ErrorBody string string "(string \<times> detail) list"
  | ContentBody content_dto
  | ContentList "content_dto list_response"
  | VersionBody version_dto
  | VersionList "version_dto list_response"
  | ScheduleBody schedule_dto
  | ScheduleList "schedule_dto list_response"
  | PublicBody public_content_dto
  | PublicList "public_content_dto list_response"
  | Sitemap urlset
  | PlainText string
  | HtmlPage page_data
  | HtmlError string
  | HealthBody "(string \<times> string) list"

type_synonym header = "(string \<times> string) list"

record http_response =
  rs_status :: int
  rs_header :: header
  rs_body :: payload

text \<open>\<open>Header().Set\<close> and \<open>Header().Get\<close>.\<close>

definition set_header :: "string \<Rightarrow> string \<Rightarrow> header \<Rightarrow> header" where
  "set_header k v h = (k, v) # filter (\<lambda>kv. fst kv \<noteq> k) h"

definition get_header :: "string \<Rightarrow> header \<Rightarrow> string" where
  "get_header k h = (case map_of h k of None \<Rightarrow> [] | Some v \<Rightarrow> v)"

text \<open>What the server is built with: its configuration, and the texts and failures of libraries.\<close>

record server =
  sv_cfg :: config
  sv_json_text :: "json_error \<Rightarrow> string"
  sv_render_ok :: "page_data \<Rightarrow> bool"

text \<open>A handler runs in the world and always answers.\<close>

type_synonym handler = "world \<Rightarrow> http_response \<times> world"

definition respond :: "http_response \<Rightarrow> handler" where
  "respond r w = (r, w)"

text \<open>\<open>x, err := m; if err != nil { bad } ...\<close>\<close>

definition check :: "'a io \<Rightarrow> (go_error \<Rightarrow> handler) \<Rightarrow> ('a \<Rightarrow> handler) \<Rightarrow> handler" where
  "check m bad k w = (case m w of (Inl e, w1) \<Rightarrow> bad e w1 | (Inr x, w1) \<Rightarrow> k x w1)"

text \<open>A value or the response that ends the request.\<close>

definition check_input :: "http_response + 'a \<Rightarrow> ('a \<Rightarrow> handler) \<Rightarrow> handler" where
  "check_input r k = (case r of Inl resp \<Rightarrow> respond resp | Inr x \<Rightarrow> k x)"

section \<open>errors.go\<close>

definition write_json :: "header \<Rightarrow> int \<Rightarrow> payload \<Rightarrow> http_response" where
  "write_json h status body =
     \<lparr>rs_status = status, rs_header = set_header ''Content-Type'' ''application/json; charset=utf-8'' h,
      rs_body = body\<rparr>"

definition write_error :: "header \<Rightarrow> int \<Rightarrow> string \<Rightarrow> string \<Rightarrow> (string \<times> detail) list \<Rightarrow> http_response" where
  "write_error h status code msg details = write_json h status (ErrorBody code msg details)"

text \<open>The stable codes of the API.\<close>

definition code_unauthorized :: string where "code_unauthorized = ''unauthorized''"
definition code_validation :: string where "code_validation = ''validation_error''"
definition code_not_found :: string where "code_not_found = ''not_found''"
definition code_slug_conflict :: string where "code_slug_conflict = ''slug_conflict''"
definition code_schedule_conflict :: string where "code_schedule_conflict = ''schedule_conflict''"
definition code_version_conflict :: string where "code_version_conflict = ''version_conflict''"
definition code_precondition_required :: string where "code_precondition_required = ''precondition_required''"
definition code_internal :: string where "code_internal = ''internal_error''"

definition write_internal :: "header \<Rightarrow> http_response" where
  "write_internal h = write_error h 500 code_internal ''An internal error occurred.'' []"

section \<open>auth.go\<close>

definition authorized :: "string \<Rightarrow> string \<Rightarrow> bool" where
  "authorized expected header \<longleftrightarrow>
     has_prefix ''Bearer '' header \<and> trim_space (drop 7 header) = expected"

definition unauthorized_response :: http_response where
  "unauthorized_response =
     write_error (set_header ''WWW-Authenticate'' (''Bearer realm='' @ [dquote] @ ''admin'' @ [dquote]) [])
       401 code_unauthorized ''A valid bearer token is required.'' []"

definition require_bearer_token :: "string \<Rightarrow> http_request \<Rightarrow> handler \<Rightarrow> handler" where
  "require_bearer_token expected req next =
     (if authorized expected (rq_header req ''Authorization'') then next
      else respond unauthorized_response)"

section \<open>Helpers of admin.go\<close>

definition decode_json :: "server \<Rightarrow> 's decoder \<Rightarrow> 's \<Rightarrow> http_request \<Rightarrow> http_response + 's" where
  "decode_json sv dec zero req =
     (case rq_body req of
        TooLarge \<Rightarrow> Inl (write_error [] 413 code_validation ''Request body is too large.'' [])
      | Malformed msg \<Rightarrow>
          Inl (write_error [] 400 code_validation (''Request body is not valid JSON: '' @ msg) [])
      | Body j trailing \<Rightarrow>
          (case dec j zero of
             (_, Some e) \<Rightarrow>
               Inl (write_error [] 400 code_validation
                 (''Request body is not valid JSON: '' @ sv_json_text sv e) [])
           | (x, None) \<Rightarrow>
               if trailing then Inl (write_error [] 400 code_validation
                 ''Request body must contain exactly one JSON object.'' [])
               else Inr x))"

definition default_limit :: int where "default_limit = 20"
definition max_limit :: int where "max_limit = 100"

definition parse_pagination :: "http_request \<Rightarrow> http_response + (int \<times> int)" where
  "parse_pagination req =
     (let raw = rq_query req ''limit'';
          bad_limit = write_error [] 400 code_validation
            (''limit must be an integer between 1 and '' @ show_int max_limit @ ''.'')
            [(''limit'', DString raw)];
          raw_off = rq_query req ''offset'';
          bad_offset = write_error [] 400 code_validation
            ''offset must be a non-negative integer.'' [(''offset'', DString raw_off)]
      in try_sum
           (if raw = [] then Inr default_limit
            else case parse_int raw of
                None \<Rightarrow> Inl bad_limit
              | Some n \<Rightarrow> if n < 1 \<or> n > max_limit then Inl bad_limit else Inr n)
           (\<lambda>limit. try_sum
             (if raw_off = [] then Inr 0
              else case parse_int raw_off of
                  None \<Rightarrow> Inl bad_offset
                | Some n \<Rightarrow> if n < 0 then Inl bad_offset else Inr n)
             (\<lambda>offset. Inr (limit, offset))))"

definition actor_from :: "http_request \<Rightarrow> string" where
  "actor_from req =
     (let actor = rq_header req ''X-Actor''
      in if length actor > 100 then take 100 actor else actor)"

text \<open>The version a published pointer stands for.\<close>

definition published_version_number :: "content_row \<Rightarrow> int64 option io" where
  "published_version_number c =
     (case c_published_version_id c of
        None \<Rightarrow> io_return None
      | Some vid \<Rightarrow> io_bind (get_version_by_id vid) (\<lambda>v. io_return (Some (v_version v))))"

text \<open>
  \<open>writeDomainError\<close>; \<open>cid\<close> is the URL parameter \<open>id\<close>, empty where the route has none. A version
  conflict reads the document again to report its current version.
\<close>

definition conflict_details :: "go_error + content_row \<Rightarrow> (string \<times> detail) list" where
  "conflict_details r =
     (case r of
        Inl e \<Rightarrow> []
      | Inr c \<Rightarrow> [(''current_version'', DInt (c_current_version c)),
                 (''etag'', DString (format_etag (c_current_version c)))])"

definition write_version_conflict :: "(string \<times> detail) list \<Rightarrow> http_response" where
  "write_version_conflict details =
     write_error [] 412 code_version_conflict
       ''The content was modified by someone else. Re-read it and retry.'' details"

definition write_domain_error :: "string \<Rightarrow> go_error \<Rightarrow> handler" where
  "write_domain_error cid e =
     (case as_validation_error e of
        Some (fld, msg) \<Rightarrow> respond (write_error [] 400 code_validation msg [(''field'', DString fld)])
      | None \<Rightarrow>
          if error_is e ErrNotFound
            then respond (write_error [] 404 code_not_found ''Resource not found.'' [])
          else if error_is e ErrSlugTaken
            then respond (write_error [] 409 code_slug_conflict ''That slug is already in use.'' [])
          else if error_is e ErrVersionConflict
            then (if cid = [] then respond (write_version_conflict [])
                  else (\<lambda>w. case get_content cid w of
                          (r, w1) \<Rightarrow> respond (write_version_conflict (conflict_details r)) w1))
          else if error_is e ErrScheduleExists
            then respond (write_error [] 409 code_schedule_conflict
              ''This content already has an active schedule. Cancel it first.'' [])
          else if error_is e ErrNotCancellable
            then respond (write_error [] 409 code_schedule_conflict
              ''The schedule is no longer pending; it was already claimed, completed, or cancelled.'' [])
          else respond (write_internal []))"

section \<open>Facts\<close>

lemma get_set_header: "get_header k (set_header k' v h) = (if k = k' then v else get_header k h)"
proof -
  have "map_of (filter (\<lambda>kv. fst kv \<noteq> k') h) k = map_of h k" if "k \<noteq> k'"
    using that by (induction h) auto
  then show ?thesis by (simp add: get_header_def set_header_def)
qed

lemma parse_pagination_bounds:
  "parse_pagination req = Inr (limit, offset) \<Longrightarrow> 1 \<le> limit \<and> limit \<le> 100 \<and> 0 \<le> offset"
  by (auto simp: parse_pagination_def Let_def try_sum_Inr default_limit_def max_limit_def
      split: if_splits option.splits)

lemma decode_json_Inr:
  "decode_json sv dec zero req = Inr x \<longleftrightarrow>
   (\<exists>j. rq_body req = Body j False \<and> dec j zero = (x, None))"
  by (auto simp: decode_json_def split: request_body.splits prod.splits option.splits if_splits)

text \<open>Handlers that read only, and handlers that keep a property of the tables.\<close>

definition h_readonly :: "handler \<Rightarrow> bool" where
  "h_readonly h \<longleftrightarrow> (\<forall>w. tables (snd (h w)) = tables w)"

definition h_keeps :: "(db \<Rightarrow> bool) \<Rightarrow> handler \<Rightarrow> bool" where
  "h_keeps I h \<longleftrightarrow> (\<forall>w. I (tables w) \<longrightarrow> I (tables (snd (h w))))"

named_theorems h_intros "handlers that read only or keep a property of the tables"

lemma h_readonly_respond [h_intros]: "h_readonly (respond r)"
  by (simp add: h_readonly_def respond_def)

lemma h_readonly_check [h_intros]:
  "readonly m \<Longrightarrow> (\<And>e. h_readonly (bad e)) \<Longrightarrow> (\<And>x. h_readonly (k x)) \<Longrightarrow> h_readonly (check m bad k)"
  unfolding h_readonly_def check_def readonly_def
  by (metis (mono_tags, lifting) old.sum.simps(5,6) prod.case_eq_if prod.collapse sum.exhaust_sel)

lemma h_keeps_respond [h_intros]: "h_keeps I (respond r)"
  by (simp add: h_keeps_def respond_def)

lemma h_keeps_check [h_intros]:
  assumes "keeps I m" "\<And>e. h_keeps I (bad e)" "\<And>x. h_keeps I (k x)"
  shows "h_keeps I (check m bad k)"
proof -
  have "I (tables (snd (check m bad k w)))" if "I (tables w)" for w
  proof -
    obtain r w1 where m: "m w = (r, w1)" by fastforce
    with assms(1) that have "I (tables w1)" by (metis keepsD snd_conv)
    with assms(2,3) m show ?thesis
      by (cases r) (simp_all add: check_def h_keeps_def)
  qed
  then show ?thesis by (simp add: h_keeps_def)
qed

lemma h_keeps_readonly: "h_readonly h \<Longrightarrow> h_keeps I h"
  by (simp add: h_keeps_def h_readonly_def)

lemma h_check_input [h_intros]:
  "(\<And>x. h_readonly (k x)) \<Longrightarrow> h_readonly (check_input r k)"
  "(\<And>x. h_keeps I (k x)) \<Longrightarrow> h_keeps I (check_input r k)"
  by (auto simp: check_input_def intro: h_readonly_respond h_keeps_respond split: sum.split)

lemma h_readonly_then:
  "readonly m \<Longrightarrow> h_readonly (\<lambda>w. case m w of (r, w1) \<Rightarrow> respond (f r) w1)"
  by (auto simp: h_readonly_def readonly_def respond_def split: prod.split)
    (metis snd_conv)

lemma h_readonly_domain_error [h_intros]: "h_readonly (write_domain_error cid e)"
  by (auto simp: write_domain_error_def intro!: h_intros readonly_intros h_readonly_then
      split: option.split)

lemma readonly_published_version_number [readonly_intros]: "readonly (published_version_number c)"
  by (auto simp: published_version_number_def intro!: readonly_intros split: option.split)

end
