(* ===== verification/Admin_Api.thy ===== *)
theory Admin_Api
  imports Http
begin

text \<open>
  The administrative handlers of \<open>internal/httpapi/admin.go\<close> and \<open>publish.go\<close>. A handler gets the URL
  parameters of its route as arguments. The five-second timeout around the database calls is a
  failure of one of these calls (the world's \<open>faults\<close>).
\<close>

section \<open>Documents: admin.go\<close>

definition set_etag :: "int64 \<Rightarrow> header \<Rightarrow> header" where
  "set_etag v h = set_header ''ETag'' (format_etag v) h"

definition zero_create :: create_content_request where
  "zero_create = \<lparr>cr_slug = [], cr_title = [], cr_body = [], cr_seo = zero_seo\<rparr>"

definition zero_update :: update_content_request where
  "zero_update = \<lparr>ur_title = [], ur_body = [], ur_seo = zero_seo\<rparr>"

definition internal_error :: "go_error \<Rightarrow> handler" where
  "internal_error e = respond (write_internal [])"

definition handle_create_content :: "server \<Rightarrow> http_request \<Rightarrow> handler" where
  "handle_create_content sv req =
     check_input (decode_json sv create_decoder zero_create req)
     (\<lambda>rq. check
       (service_create (rq_uuid req)
         \<lparr>ci_slug = cr_slug rq, ci_fields = seo_fields (cr_seo rq) (cr_title rq) (cr_body rq),
          ci_actor = actor_from req\<rparr>)
       (write_domain_error [])
       (\<lambda>created. respond (write_json
          (set_header ''Location'' (''/api/v1/contents/'' @ c_id (cv_content created))
            (set_etag (c_current_version (cv_content created)) []))
          201 (ContentBody (to_content_dto created None)))))"

text \<open>The tail that several handlers share: resolve the published version, tag and render.\<close>

definition write_content :: "content_with_version \<Rightarrow> handler" where
  "write_content cwv =
     check (published_version_number (cv_content cwv)) internal_error
     (\<lambda>pv. respond (write_json (set_etag (c_current_version (cv_content cwv)) []) 200
             (ContentBody (to_content_dto cwv pv))))"

definition handle_get_content :: "string \<Rightarrow> handler" where
  "handle_get_content cid =
     check (service_get cid) (write_domain_error cid) write_content"

definition admin_item :: "content_with_version \<Rightarrow> content_dto io" where
  "admin_item cwv =
     io_bind (published_version_number (cv_content cwv)) (\<lambda>pv. io_return (to_content_dto cwv pv))"

definition handle_list_contents :: "http_request \<Rightarrow> handler" where
  "handle_list_contents req =
     check_input (parse_pagination req)
     (\<lambda>(limit, offset). check (service_list limit offset) (write_domain_error [])
     (\<lambda>(items, total). check (io_map admin_item items) internal_error
     (\<lambda>out. respond (write_json [] 200
        (ContentList \<lparr>lr_items = out, lr_total = int total, lr_limit = limit, lr_offset = offset\<rparr>)))))"

text \<open>\<open>*\<close> reads the current version first and then goes through the same compare-and-swap.\<close>

definition expected_version ::
    "string \<Rightarrow> int64 \<times> bool \<Rightarrow> (int64 \<Rightarrow> handler) \<Rightarrow> handler" where
  "expected_version cid im k =
     (if snd im
      then check (service_get cid) (write_domain_error cid)
             (\<lambda>current. k (c_current_version (cv_content current)))
      else k (fst im))"

definition if_match_response :: "if_match_error \<Rightarrow> http_response" where
  "if_match_response e =
     (if e = ErrNoIfMatch
      then write_error [] 428 code_precondition_required
        (''This endpoint requires an If-Match header carrying the current ETag. '' @
         ''Use If-Match: * to overwrite unconditionally.'') []
      else write_error [] 400 code_validation (if_match_text e) [(''header'', DString ''If-Match'')])"

definition update_with :: "string \<Rightarrow> update_content_request \<Rightarrow> string \<Rightarrow> int64 \<Rightarrow> handler" where
  "update_with cid rq actor expected =
     check (service_update
        \<lparr>ui_id = cid, ui_expected_version = expected,
         ui_fields = seo_fields (ur_seo rq) (ur_title rq) (ur_body rq), ui_actor = actor\<rparr>)
       (write_domain_error cid) write_content"

definition handle_update_content :: "server \<Rightarrow> string \<Rightarrow> http_request \<Rightarrow> handler" where
  "handle_update_content sv cid req =
     check_input (decode_json sv update_decoder zero_update req)
     (\<lambda>rq. case parse_if_match (rq_header req ''If-Match'') of
         Inl e \<Rightarrow> respond (if_match_response e)
       | Inr im \<Rightarrow> expected_version cid im (update_with cid rq (actor_from req)))"

definition handle_list_versions :: "string \<Rightarrow> http_request \<Rightarrow> handler" where
  "handle_list_versions cid req =
     check_input (parse_pagination req)
     (\<lambda>(limit, offset). check (service_list_versions cid limit offset) (write_domain_error cid)
     (\<lambda>vs. respond (write_json [] 200
        (VersionList \<lparr>lr_items = map to_version_dto vs, lr_total = int (length vs), lr_limit = limit,
                      lr_offset = offset\<rparr>))))"

definition handle_get_version :: "string \<Rightarrow> string \<Rightarrow> handler" where
  "handle_get_version cid raw =
     (let bad = write_error [] 400 code_validation ''Version must be a positive integer.''
                  [(''version'', DString raw)]
      in case parse_int raw of
           None \<Rightarrow> respond bad
         | Some n \<Rightarrow>
             if n < 1 then respond bad
             else check (service_get_version cid n) (write_domain_error cid)
                    (\<lambda>v. respond (write_json [] 200 (VersionBody (to_version_dto v)))))"

section \<open>Publishing and schedules: publish.go\<close>

definition zero_publish :: publish_request where
  "zero_publish = \<lparr>pr_version = 0\<rparr>"

definition zero_schedule :: schedule_request where
  "zero_schedule = \<lparr>sq_version = 0, sq_run_at = []\<rparr>"

definition version_not_positive :: http_response where
  "version_not_positive =
     write_error [] 400 code_validation ''version must be a positive integer.'' [(''field'', DString ''version'')]"

definition write_content_state :: "content_row \<Rightarrow> handler" where
  "write_content_state c = check (service_get (c_id c)) internal_error write_content"

definition handle_publish :: "server \<Rightarrow> string \<Rightarrow> http_request \<Rightarrow> handler" where
  "handle_publish sv cid req =
     check_input (decode_json sv publish_decoder zero_publish req)
     (\<lambda>rq. if pr_version rq < 1 then respond version_not_positive
           else check (service_publish cid (pr_version rq) (actor_from req)) (write_domain_error cid)
                  write_content_state)"

definition handle_unpublish :: "string \<Rightarrow> http_request \<Rightarrow> handler" where
  "handle_unpublish cid req =
     check (service_unpublish cid (actor_from req)) (write_domain_error cid) write_content_state"

fun status_text :: "schedule_status \<Rightarrow> string" where
  "status_text SchedulePending = ''pending''"
| "status_text ScheduleClaimed = ''claimed''"
| "status_text ScheduleDone = ''done''"
| "status_text ScheduleCancelled = ''cancelled''"
| "status_text ScheduleFailed = ''failed''"

definition to_schedule_dto :: "schedule_row \<Rightarrow> schedule_dto io" where
  "to_schedule_dto s =
     io_bind (get_version_by_id (s_version_id s))
     (\<lambda>v. io_return
        \<lparr>hd_id = s_id s, hd_content_id = s_content_id s, hd_version = v_version v,
         hd_run_at = format_millis (s_run_at s), hd_status = status_text (s_status s),
         hd_attempts = s_attempts s, hd_last_error = s_last_error s, hd_locked_by = s_locked_by s,
         hd_created_at = format_millis (s_created_at s), hd_updated_at = format_millis (s_updated_at s)\<rparr>)"

definition run_at_malformed :: http_response where
  "run_at_malformed =
     write_error [] 400 code_validation
       ''run_at must be an RFC3339 timestamp, for example 2026-01-15T12:00:00Z.''
       [(''field'', DString ''run_at'')]"

definition handle_create_schedule :: "server \<Rightarrow> string \<Rightarrow> http_request \<Rightarrow> handler" where
  "handle_create_schedule sv cid req =
     check_input (decode_json sv schedule_decoder zero_schedule req)
     (\<lambda>rq.
       if sq_version rq < 1 then respond version_not_positive
       else case parse_rfc3339 (sq_run_at rq) of
           None \<Rightarrow> respond run_at_malformed
         | Some run_at \<Rightarrow>
             check (service_schedule (rq_uuid req)
                 \<lparr>si_content_id = cid, si_version = sq_version rq, si_run_at_ms = to_millis run_at\<rparr>)
               (write_domain_error cid)
             (\<lambda>s. check (to_schedule_dto s) internal_error
             (\<lambda>dto. respond (write_json (set_header ''Location'' (''/api/v1/schedules/'' @ s_id s) []) 201
                (ScheduleBody dto)))))"

definition handle_list_schedules :: "string \<Rightarrow> handler" where
  "handle_list_schedules cid =
     check (service_list_schedules cid) (write_domain_error cid)
     (\<lambda>ss. check (io_map to_schedule_dto ss) internal_error
     (\<lambda>out. respond (write_json [] 200
        (ScheduleList \<lparr>lr_items = out, lr_total = int (length out), lr_limit = int (length out),
                       lr_offset = 0\<rparr>))))"

definition handle_cancel_schedule :: "string \<Rightarrow> handler" where
  "handle_cancel_schedule sid =
     check (service_cancel_schedule sid) (write_domain_error [])
     (\<lambda>_. respond \<lparr>rs_status = 204, rs_header = [], rs_body = NoContent\<rparr>)"

section \<open>Which handlers write, and that all of them keep the integrity of the database\<close>

lemma readonly_to_schedule_dto [readonly_intros]: "readonly (to_schedule_dto s)"
  by (auto simp: to_schedule_dto_def intro!: readonly_intros)

lemma readonly_admin_item [readonly_intros]: "readonly (admin_item cwv)"
  by (auto simp: admin_item_def intro!: readonly_intros)

lemma h_readonly_internal [h_intros]: "h_readonly (internal_error e)"
  by (simp add: internal_error_def h_intros)

lemma h_readonly_write_content [h_intros]: "h_readonly (write_content cwv)"
  by (auto simp: write_content_def intro!: h_intros readonly_intros)

lemma h_readonly_write_content_state [h_intros]: "h_readonly (write_content_state c)"
  by (auto simp: write_content_state_def intro!: h_intros readonly_intros)

lemma h_readonly_admin [h_intros]:
  "h_readonly (handle_get_content cid)"
  "h_readonly (handle_list_contents req)"
  "h_readonly (handle_list_versions cid req)"
  "h_readonly (handle_get_version cid raw)"
  "h_readonly (handle_list_schedules cid)"
  by (auto simp: handle_get_content_def handle_list_contents_def handle_list_versions_def
      handle_get_version_def handle_list_schedules_def Let_def intro!: h_intros readonly_intros
      split: option.split)

lemma h_keeps_reads [h_intros]:
  "h_keeps I (write_domain_error cid e)"
  "h_keeps I (internal_error e)"
  "h_keeps I (write_content cwv)"
  "h_keeps I (write_content_state c)"
  by (simp_all add: h_keeps_readonly h_intros)

lemma h_keeps_expected_version:
  "(\<And>v. h_keeps I (k v)) \<Longrightarrow> h_keeps I (expected_version cid im k)"
  by (auto simp: expected_version_def intro!: h_intros keeps_readonly readonly_intros)

lemma h_keeps_admin [h_intros]:
  "h_keeps db_ok (handle_create_content sv req)"
  "h_keeps db_ok (handle_update_content sv cid req)"
  "h_keeps db_ok (handle_publish sv cid req)"
  "h_keeps db_ok (handle_unpublish cid req)"
  "h_keeps db_ok (handle_create_schedule sv cid req)"
  "h_keeps db_ok (handle_cancel_schedule sid)"
  by (auto simp: handle_create_content_def handle_update_content_def update_with_def handle_publish_def
      handle_unpublish_def handle_create_schedule_def handle_cancel_schedule_def
      intro!: h_intros keeps_intros h_keeps_expected_version keeps_readonly [OF readonly_to_schedule_dto]
      split: sum.split option.split)

end
