(* ===== verification/Public_Api.thy ===== *)
theory Public_Api
  imports Admin_Api
begin

text \<open>
  The public side of \<open>internal/httpapi\<close>: \<open>public.go\<close>, \<open>seo.go\<close>, \<open>html.go\<close> and the health check of
  \<open>router.go\<close>. Every handler here only reads.
\<close>

section \<open>Conditional responses: public.go\<close>

definition content_etag :: "int64 \<Rightarrow> string" where
  "content_etag last_modified = dquote # show_int last_modified @ [dquote]"

definition http_date :: "int64 \<Rightarrow> string" where
  "http_date ms = format_http (from_millis ms)"

definition set_cache_control :: "header \<Rightarrow> header" where
  "set_cache_control h =
     set_header ''Cache-Control'' ''public, max-age=60, stale-while-revalidate=300'' h"

definition set_public_cache_headers :: "int64 \<Rightarrow> header \<Rightarrow> header" where
  "set_public_cache_headers last_modified h =
     set_cache_control
       (set_header ''Last-Modified'' (http_date last_modified)
         (set_header ''ETag'' (content_etag last_modified) h))"

text \<open>\<open>serveConditional\<close>: a 304 when the client's copy is current, and otherwise the rest.\<close>

definition not_modified :: "int64 \<Rightarrow> http_response" where
  "not_modified last_modified =
     \<lparr>rs_status = 304,
      rs_header = set_cache_control (set_header ''Last-Modified'' (http_date last_modified)
        (set_header ''ETag'' (content_etag last_modified) [])),
      rs_body = NoContent\<rparr>"

definition serve_conditional :: "http_request \<Rightarrow> int64 \<Rightarrow> handler \<Rightarrow> handler" where
  "serve_conditional req last_modified fresh =
     (if if_none_match_matches (rq_header req ''If-None-Match'') (content_etag last_modified)
      then respond (not_modified last_modified) else fresh)"

section \<open>Documents: public.go\<close>

definition to_public_dto :: "public_content \<Rightarrow> public_content_dto" where
  "to_public_dto p =
     \<lparr>pd_slug = p_slug p, pd_title = p_title p, pd_body = p_body p, pd_seo = to_seo (p_fields p),
      pd_published_at = format_millis (p_published_at p), pd_updated_at = format_millis (p_updated_at p)\<rparr>"

definition write_public_error :: "go_error \<Rightarrow> handler" where
  "write_public_error e =
     (if error_is e ErrNotFound then respond (write_error [] 404 code_not_found ''Not found.'' [])
      else respond (write_internal []))"

definition handle_public_get :: "string \<Rightarrow> http_request \<Rightarrow> handler" where
  "handle_public_get slug req =
     check (service_get_public_by_slug slug) write_public_error
     (\<lambda>p. serve_conditional req (p_updated_at p)
       (respond (write_json (set_public_cache_headers (p_updated_at p) []) 200
          (PublicBody (to_public_dto p)))))"

definition handle_public_list :: "http_request \<Rightarrow> handler" where
  "handle_public_list req =
     check_input (parse_pagination req)
     (\<lambda>(limit, offset). check (service_list_public limit offset) write_public_error
     (\<lambda>(items, total). check latest_published_at internal_error
     (\<lambda>latest. serve_conditional req latest
       (respond (write_json (set_public_cache_headers latest []) 200
          (PublicList \<lparr>lr_items = map to_public_dto items, lr_total = int total, lr_limit = limit,
                       lr_offset = offset\<rparr>))))))"

section \<open>Sitemap and robots: seo.go\<close>

definition max_sitemap_urls :: int where
  "max_sitemap_urls = 50000"

definition public_url :: "server \<Rightarrow> string \<Rightarrow> string" where
  "public_url sv slug = cfg_public_base_url (sv_cfg sv) @ ''/'' @ slug"

definition sitemap_url_of :: "server \<Rightarrow> sitemap_entry \<Rightarrow> sitemap_url" where
  "sitemap_url_of sv e =
     \<lparr>su_loc = public_url sv (sm_slug e), su_last_mod = format_rfc3339 (from_millis (sm_last_modified e))\<rparr>"

definition handle_sitemap :: "server \<Rightarrow> http_request \<Rightarrow> handler" where
  "handle_sitemap sv req =
     check (list_sitemap_entries max_sitemap_urls) internal_error
     (\<lambda>entries. check latest_published_at internal_error
     (\<lambda>latest. serve_conditional req latest
       (respond
          \<lparr>rs_status = 200,
           rs_header = set_header ''Content-Type'' ''application/xml; charset=utf-8''
             (set_public_cache_headers latest []),
           rs_body = Sitemap \<lparr>us_xmlns = ''http://www.sitemaps.org/schemas/sitemap/0.9'',
                              us_urls = map (sitemap_url_of sv) entries\<rparr>\<rparr>)))"

definition newline :: string where
  "newline = [CHR 0x0A]"

definition robots_text :: "server \<Rightarrow> string" where
  "robots_text sv =
     ''User-agent: *'' @ newline @
     ''Disallow: /api/'' @ newline @
     ''Disallow: /public/'' @ newline @
     ''Disallow: /healthz'' @ newline @
     newline @
     ''Sitemap: '' @ cfg_public_base_url (sv_cfg sv) @ ''/sitemap.xml'' @ newline"

definition handle_robots :: "server \<Rightarrow> handler" where
  "handle_robots sv =
     respond
       \<lparr>rs_status = 200,
        rs_header = set_header ''Cache-Control'' ''public, max-age=3600''
          (set_header ''Content-Type'' ''text/plain; charset=utf-8'' []),
        rs_body = PlainText (robots_text sv)\<rparr>"

section \<open>Pages: html.go\<close>

definition build_page_data :: "server \<Rightarrow> public_content \<Rightarrow> page_data" where
  "build_page_data sv p =
     (let title = (if f_meta_title (p_fields p) = [] then p_title p else f_meta_title (p_fields p));
          canonical = (if f_canonical_url (p_fields p) = [] then public_url sv (p_slug p)
                       else f_canonical_url (p_fields p));
          published = from_millis (p_published_at p);
          published_at = format_rfc3339_milli published;
          updated_at = format_rfc3339_milli (from_millis (p_updated_at p))
      in \<lparr>pg_title = title, pg_heading = p_title p,
          pg_description = f_meta_description (p_fields p), pg_body = p_body p,
          pg_canonical_url = canonical, pg_og_image = f_og_image_url (p_fields p),
          pg_noindex = f_noindex (p_fields p), pg_published_at = published_at,
          pg_published_at_human = format_human published, pg_updated_at = updated_at,
          pg_json_ld =
            \<lparr>ld_context = ''https://schema.org'', ld_type = ''Article'', ld_headline = title,
             ld_description = f_meta_description (p_fields p), ld_date_published = published_at,
             ld_date_modified = updated_at, ld_image = f_og_image_url (p_fields p),
             ld_main_type = ''WebPage'', ld_main_id = canonical\<rparr>\<rparr>)"

definition html_type :: "header \<Rightarrow> header" where
  "html_type h = set_header ''Content-Type'' ''text/html; charset=utf-8'' h"

definition write_html_error :: "go_error \<Rightarrow> handler" where
  "write_html_error e =
     (if error_is e ErrNotFound
      then respond \<lparr>rs_status = 404, rs_header = html_type [], rs_body = HtmlError ''404 - Not found''\<rparr>
      else respond \<lparr>rs_status = 500, rs_header = html_type [],
                    rs_body = HtmlError ''500 - Something went wrong''\<rparr>)"

definition handle_html_page :: "server \<Rightarrow> string \<Rightarrow> http_request \<Rightarrow> handler" where
  "handle_html_page sv slug req =
     check (service_get_public_by_slug slug) write_html_error
     (\<lambda>p. serve_conditional req (p_updated_at p)
       (if sv_render_ok sv (build_page_data sv p)
        then respond
          \<lparr>rs_status = 200, rs_header = html_type (set_public_cache_headers (p_updated_at p) []),
           rs_body = HtmlPage (build_page_data sv p)\<rparr>
        else respond (write_internal [])))"

section \<open>Health: router.go\<close>

text \<open>The ping of the write pool is a driver call.\<close>

definition handle_health :: handler where
  "handle_health =
     check (driver_call ())
     (\<lambda>e. respond (write_json [] 503
        (HealthBody [(''status'', ''unhealthy''), (''error'', ''database unreachable'')])))
     (\<lambda>_. check clk_now internal_error
     (\<lambda>t. respond (write_json [] 200
        (HealthBody [(''status'', ''ok''), (''time'', format_rfc3339_milli t)]))))"

section \<open>Public handlers only read\<close>

lemma h_readonly_serve_conditional [h_intros]:
  "h_readonly fresh \<Longrightarrow> h_readonly (serve_conditional req ms fresh)"
  by (simp add: serve_conditional_def h_intros)

lemma h_readonly_public_error [h_intros]:
  "h_readonly (write_public_error e)" "h_readonly (write_html_error e)"
  by (simp_all add: write_public_error_def write_html_error_def h_intros)

lemma h_readonly_public [h_intros]:
  "h_readonly (handle_public_get slug req)"
  "h_readonly (handle_public_list req)"
  "h_readonly (handle_sitemap sv req)"
  "h_readonly (handle_robots sv)"
  "h_readonly (handle_html_page sv slug req)"
  "h_readonly handle_health"
  by (auto simp: handle_public_get_def handle_public_list_def handle_sitemap_def handle_robots_def
      handle_html_page_def handle_health_def intro!: h_intros readonly_intros)

end
