(* ===== verification/Rows.thy ===== *)
theory Rows
  imports Admin_Api Public_Api "HOL-Library.Monad_Syntax"
begin

text \<open>
  The columns of a row. The statements of \<open>internal/store\<close> name columns and bind values by position,
  and the scan functions read the selected columns back by position; a slip in one of the lists
  would put a description where a title belongs. Here a stored row maps column names to SQL values,
  the lists are those of the source, and what is written is proved to be what is read. The other
  theories of the store work on whole rows as records; the codecs below justify it.
\<close>

section \<open>Values and destinations\<close>

text \<open>
  The storage classes the tables use. \<open>SqlReal\<close> carries the text \<open>database/sql\<close> gives a float64: the
  one real number that can arise is \<open>current_version + 1\<close> beyond the range of INTEGER.
\<close>

datatype sql_value = SqlNull | SqlInteger int64 | SqlReal string | SqlText string

definition sql_int :: "int64 \<Rightarrow> sql_value" where
  "sql_int n = (if in_int64 n then SqlInteger n else SqlReal ''9.223372036854776e+18'')"

fun sql_nullable :: "('a \<Rightarrow> sql_value) \<Rightarrow> 'a option \<Rightarrow> sql_value" where
  "sql_nullable f None = SqlNull"
| "sql_nullable f (Some x) = f x"

definition sql_bool :: "bool \<Rightarrow> sql_value" where
  "sql_bool b = SqlInteger (if b then 1 else 0)"

text \<open>
  What \<open>Rows.Scan\<close> does for a destination of type \<open>*string\<close>, \<open>*int64\<close> (and \<open>*int\<close>, the same width
  here) and of a pointer or \<open>sql.NullInt64\<close>: a number is formatted into a string, an integer is parsed
  from the text of what is not one, NULL is an error unless the destination can hold it. \<open>None\<close> is
  the error of the scan.
\<close>

fun text_dest :: "sql_value \<Rightarrow> string option" where
  "text_dest SqlNull = None"
| "text_dest (SqlInteger n) = Some (show_int n)"
| "text_dest (SqlReal t) = Some t"
| "text_dest (SqlText t) = Some t"

fun int_dest :: "sql_value \<Rightarrow> int64 option" where
  "int_dest (SqlInteger n) = Some n"
| "int_dest v = Option.bind (text_dest v) parse_int"

fun nullable_dest :: "(sql_value \<Rightarrow> 'a option) \<Rightarrow> sql_value \<Rightarrow> 'a option option" where
  "nullable_dest f SqlNull = Some None"
| "nullable_dest f v = map_option Some (f v)"

lemma parse_int_real [simp]: "parse_int ''9.223372036854776e+18'' = None"
  by code_simp

lemma int_dest_sql_int [simp]: "int_dest (sql_int n) = (if in_int64 n then Some n else None)"
  by (simp add: sql_int_def)

lemma int_dest_bool [simp]: "int_dest (sql_bool b) = Some (if b then 1 else 0)"
  by (simp add: sql_bool_def)

lemma nullable_dest_int [simp]:
  "nullable_dest int_dest (sql_nullable sql_int x) = (if pred_option in_int64 x then Some x else None)"
  by (cases x) (auto simp: sql_int_def)

lemma nullable_dest_text [simp]: "nullable_dest text_dest (sql_nullable SqlText x) = Some x"
  by (cases x) simp_all

section \<open>Rows\<close>

text \<open>
  A stored row, an INSERT that binds values to a list of columns, and the values of the selected
  columns. In a query over an alias the columns carry it as a prefix.
\<close>

type_synonym cells = "string \<Rightarrow> sql_value option"

definition inserted :: "string list \<Rightarrow> sql_value list \<Rightarrow> cells" where
  "inserted cols vals = map_of (zip cols vals)"

definition select :: "string list \<Rightarrow> cells \<Rightarrow> sql_value list" where
  "select cols r = map (\<lambda>c. case r c of None \<Rightarrow> SqlNull | Some v \<Rightarrow> v) cols"

definition aliased :: "char \<Rightarrow> cells \<Rightarrow> cells" where
  "aliased a r col = (case col of x # y # name \<Rightarrow> if x = a \<and> y = CHR ''.'' then r name else None | _ \<Rightarrow> None)"

text \<open>A row of \<open>contents c JOIN content_versions v\<close>.\<close>

definition joined :: "cells \<Rightarrow> cells \<Rightarrow> cells" where
  "joined c v = aliased CHR ''c'' c ++ aliased CHR ''v'' v"

lemma select_simps [simp]:
  "select [] r = []"
  "select (c # cs) r = (case r c of None \<Rightarrow> SqlNull | Some v \<Rightarrow> v) # select cs r"
  by (simp_all add: select_def)

lemma select_append: "select (xs @ ys) r = select xs r @ select ys r"
  by (simp add: select_def)

lemma aliased_Cons [simp]: "aliased a r (x # y # name) = (if x = a \<and> y = CHR ''.'' then r name else None)"
  by (simp add: aliased_def)

lemma joined_Cons [simp]:
  "joined c v (CHR ''c'' # CHR ''.'' # name) = c name"
  "joined c v (CHR ''v'' # CHR ''.'' # name) = v name"
  by (simp_all add: joined_def map_add_def split: option.split)

section \<open>contents and content\_versions\<close>

definition content_columns :: "string list" where
  "content_columns = [''c.id'', ''c.slug'', ''c.current_version'', ''c.published_version_id'',
     ''c.published_at'', ''c.created_at'', ''c.updated_at'']"

definition version_columns :: "string list" where
  "version_columns = [''v.id'', ''v.content_id'', ''v.version'', ''v.title'', ''v.body'',
     ''v.meta_title'', ''v.meta_description'', ''v.canonical_url'', ''v.og_image_url'',
     ''v.noindex'', ''v.created_by'', ''v.created_at'']"

text \<open>\<open>scanContent\<close>, \<open>scanVersion\<close> and \<open>scanContentWithVersion\<close>, which scans both lists in one go.\<close>

fun scan_content_cells :: "sql_value list \<Rightarrow> content_row option" where
  "scan_content_cells [v1, v2, v3, v4, v5, v6, v7] =
     do { cid \<leftarrow> text_dest v1; slug \<leftarrow> text_dest v2; current \<leftarrow> int_dest v3;
          published \<leftarrow> nullable_dest int_dest v4; published_at \<leftarrow> nullable_dest int_dest v5;
          created_at \<leftarrow> int_dest v6; updated_at \<leftarrow> int_dest v7;
          Some \<lparr>c_id = cid, c_slug = slug, c_current_version = current,
            c_published_version_id = published, c_published_at = published_at,
            c_created_at = created_at, c_updated_at = updated_at\<rparr> }"
| "scan_content_cells _ = None"

fun scan_version_cells :: "sql_value list \<Rightarrow> version_row option" where
  "scan_version_cells [v1, v2, v3, v4, v5, v6, v7, v8, v9, v10, v11, v12] =
     do { vid \<leftarrow> int_dest v1; cid \<leftarrow> text_dest v2; ver \<leftarrow> int_dest v3;
          title \<leftarrow> text_dest v4; body \<leftarrow> text_dest v5;
          meta_title \<leftarrow> text_dest v6; meta_description \<leftarrow> text_dest v7; canonical_url \<leftarrow> text_dest v8;
          og_image_url \<leftarrow> text_dest v9; noindex \<leftarrow> int_dest v10; created_by \<leftarrow> text_dest v11;
          created_at \<leftarrow> int_dest v12;
          Some \<lparr>v_id = vid, v_content_id = cid, v_version = ver, v_created_by = created_by,
            v_created_at = created_at,
            v_fields = \<lparr>f_title = title, f_body = body, f_meta_title = meta_title,
              f_meta_description = meta_description, f_canonical_url = canonical_url,
              f_og_image_url = og_image_url, f_noindex = (noindex \<noteq> 0)\<rparr>\<rparr> }"
| "scan_version_cells _ = None"

definition scan_both_cells :: "sql_value list \<Rightarrow> content_with_version option" where
  "scan_both_cells vals =
     do { c \<leftarrow> scan_content_cells (take 7 vals); v \<leftarrow> scan_version_cells (drop 7 vals);
          Some \<lparr>cv_content = c, cv_version = v\<rparr> }"

text \<open>The INSERT statements of \<open>CreateContent\<close> and \<open>insertVersion\<close>; the rowid is the database's.\<close>

definition insert_content_cells :: "string \<Rightarrow> string \<Rightarrow> int64 \<Rightarrow> cells" where
  "insert_content_cells cid slug now =
     inserted [''id'', ''slug'', ''current_version'', ''published_version_id'',
         ''published_at'', ''created_at'', ''updated_at'']
       [SqlText cid, SqlText slug, SqlInteger 1, SqlNull, SqlNull, sql_int now, sql_int now]"

definition insert_version_cells ::
    "int64 \<Rightarrow> string \<Rightarrow> int64 \<Rightarrow> version_fields \<Rightarrow> string \<Rightarrow> int64 \<Rightarrow> cells" where
  "insert_version_cells rowid cid ver f actor now =
     (inserted [''content_id'', ''version'', ''title'', ''body'',
         ''meta_title'', ''meta_description'', ''canonical_url'', ''og_image_url'',
         ''noindex'', ''created_by'', ''created_at'']
       [SqlText cid, sql_int ver, SqlText (f_title f), SqlText (f_body f), SqlText (f_meta_title f),
        SqlText (f_meta_description f), SqlText (f_canonical_url f), SqlText (f_og_image_url f),
        sql_bool (f_noindex f), SqlText actor, sql_int now])(''id'' \<mapsto> sql_int rowid)"

text \<open>What the columns of a row hold, the INSERT and later updates included.\<close>

definition content_cells :: "content_row \<Rightarrow> cells" where
  "content_cells c = map_of
     [(''id'', SqlText (c_id c)), (''slug'', SqlText (c_slug c)),
      (''current_version'', sql_int (c_current_version c)),
      (''published_version_id'', sql_nullable sql_int (c_published_version_id c)),
      (''published_at'', sql_nullable sql_int (c_published_at c)),
      (''created_at'', sql_int (c_created_at c)), (''updated_at'', sql_int (c_updated_at c))]"

definition version_cells :: "version_row \<Rightarrow> cells" where
  "version_cells v = insert_version_cells (v_id v) (v_content_id v) (v_version v) (v_fields v)
     (v_created_by v) (v_created_at v)"

definition content_in_range :: "content_row \<Rightarrow> bool" where
  "content_in_range c \<longleftrightarrow> in_int64 (c_current_version c) \<and> pred_option in_int64 (c_published_version_id c) \<and>
     pred_option in_int64 (c_published_at c) \<and> in_int64 (c_created_at c) \<and> in_int64 (c_updated_at c)"

definition version_in_range :: "version_row \<Rightarrow> bool" where
  "version_in_range v \<longleftrightarrow> in_int64 (v_id v) \<and> in_int64 (v_version v) \<and> in_int64 (v_created_at v)"

lemma scan_content_columns:
  "scan_content_cells (select content_columns (joined (content_cells c) v)) =
     (if content_in_range c then Some c else None)"
  by (auto simp: content_columns_def content_cells_def content_in_range_def)

lemma scan_version_columns:
  "scan_version_cells (select version_columns (joined c (version_cells v))) =
     (if version_in_range v then Some v else None)"
  by (auto simp: version_columns_def version_cells_def insert_version_cells_def inserted_def version_in_range_def)

lemma inserted_content: "insert_content_cells cid slug now = content_cells (new_content cid slug now)"
  by (simp add: insert_content_cells_def content_cells_def new_content_def inserted_def sql_int_def in_int64_def)

lemma inserted_version:
  "insert_version_cells rowid cid ver f actor now = version_cells (new_version rowid cid ver f actor now)"
  by (simp add: version_cells_def new_version_def)

section \<open>publish\_schedules and publish\_events\<close>

text \<open>
  The code keeps statuses, actions and sources as the strings of the table; the CHECK constraints of
  the schema leave no others, so that a value of the enumeration stands for the string.
\<close>

fun action_text :: "event_action \<Rightarrow> string" where
  "action_text ActionPublish = ''publish''"
| "action_text ActionUnpublish = ''unpublish''"

fun source_text :: "event_source \<Rightarrow> string" where
  "source_text SourceManual = ''manual''"
| "source_text SourceScheduled = ''scheduled''"

definition value_of :: "('a \<Rightarrow> string) \<Rightarrow> 'a list \<Rightarrow> sql_value \<Rightarrow> 'a option" where
  "value_of txt values v = do { s \<leftarrow> text_dest v; find (\<lambda>x. txt x = s) values }"

abbreviation status_dest :: "sql_value \<Rightarrow> schedule_status option" where
  "status_dest \<equiv> value_of status_text
     [SchedulePending, ScheduleClaimed, ScheduleDone, ScheduleCancelled, ScheduleFailed]"

lemma value_of_text [simp]:
  "status_dest (SqlText (status_text s)) = Some s"
  "value_of action_text [ActionPublish, ActionUnpublish] (SqlText (action_text a)) = Some a"
  "value_of source_text [SourceManual, SourceScheduled] (SqlText (source_text e)) = Some e"
  by (cases s; cases a; cases e; simp add: value_of_def)+

definition schedule_columns :: "string list" where
  "schedule_columns = [''id'', ''content_id'', ''version_id'', ''run_at'', ''status'', ''attempts'',
     ''locked_by'', ''lock_expires_at'', ''last_error'', ''created_at'', ''updated_at'']"

fun scan_schedule_cells :: "sql_value list \<Rightarrow> schedule_row option" where
  "scan_schedule_cells [v1, v2, v3, v4, v5, v6, v7, v8, v9, v10, v11] =
     do { sid \<leftarrow> text_dest v1; cid \<leftarrow> text_dest v2; vid \<leftarrow> int_dest v3; run_at \<leftarrow> int_dest v4;
          status \<leftarrow> status_dest v5; attempts \<leftarrow> int_dest v6; locked_by \<leftarrow> nullable_dest text_dest v7;
          lock_expires_at \<leftarrow> nullable_dest int_dest v8; last_error \<leftarrow> text_dest v9;
          created_at \<leftarrow> int_dest v10; updated_at \<leftarrow> int_dest v11;
          Some \<lparr>s_id = sid, s_content_id = cid, s_version_id = vid, s_run_at = run_at,
            s_status = status, s_attempts = attempts, s_locked_by = locked_by,
            s_lock_expires_at = lock_expires_at, s_last_error = last_error,
            s_created_at = created_at, s_updated_at = updated_at\<rparr> }"
| "scan_schedule_cells _ = None"

text \<open>The INSERT of \<open>CreateSchedule\<close>.\<close>

definition insert_schedule_cells :: "string \<Rightarrow> string \<Rightarrow> int64 \<Rightarrow> int64 \<Rightarrow> int64 \<Rightarrow> cells" where
  "insert_schedule_cells sid cid vid run_at now =
     inserted [''id'', ''content_id'', ''version_id'', ''run_at'', ''status'', ''attempts'',
         ''locked_by'', ''lock_expires_at'', ''last_error'', ''created_at'', ''updated_at'']
       [SqlText sid, SqlText cid, sql_int vid, sql_int run_at, SqlText ''pending'', SqlInteger 0,
        SqlNull, SqlNull, SqlText [], sql_int now, sql_int now]"

definition schedule_cells :: "schedule_row \<Rightarrow> cells" where
  "schedule_cells s = map_of
     [(''id'', SqlText (s_id s)), (''content_id'', SqlText (s_content_id s)),
      (''version_id'', sql_int (s_version_id s)), (''run_at'', sql_int (s_run_at s)),
      (''status'', SqlText (status_text (s_status s))), (''attempts'', sql_int (s_attempts s)),
      (''locked_by'', sql_nullable SqlText (s_locked_by s)),
      (''lock_expires_at'', sql_nullable sql_int (s_lock_expires_at s)),
      (''last_error'', SqlText (s_last_error s)), (''created_at'', sql_int (s_created_at s)),
      (''updated_at'', sql_int (s_updated_at s))]"

definition schedule_in_range :: "schedule_row \<Rightarrow> bool" where
  "schedule_in_range s \<longleftrightarrow> in_int64 (s_version_id s) \<and> in_int64 (s_run_at s) \<and> in_int64 (s_attempts s) \<and>
     pred_option in_int64 (s_lock_expires_at s) \<and> in_int64 (s_created_at s) \<and> in_int64 (s_updated_at s)"

lemma scan_schedule_columns:
  "scan_schedule_cells (select schedule_columns (schedule_cells s)) =
     (if schedule_in_range s then Some s else None)"
  by (auto simp: schedule_columns_def schedule_cells_def schedule_in_range_def)

lemma inserted_schedule:
  "insert_schedule_cells sid cid vid run_at now = schedule_cells (new_schedule sid cid vid run_at now)"
  by (simp add: insert_schedule_cells_def schedule_cells_def new_schedule_def inserted_def sql_int_def in_int64_def)

text \<open>The SELECT and the scan of \<open>ListEvents\<close>, and the INSERT of \<open>insertEventTx\<close>.\<close>

definition event_columns :: "string list" where
  "event_columns = [''id'', ''content_id'', ''version_id'', ''action'', ''source'', ''schedule_id'',
     ''actor'', ''occurred_at'']"

fun scan_event_cells :: "sql_value list \<Rightarrow> event_row option" where
  "scan_event_cells [v1, v2, v3, v4, v5, v6, v7, v8] =
     do { eid \<leftarrow> int_dest v1; cid \<leftarrow> text_dest v2; vid \<leftarrow> nullable_dest int_dest v3;
          action \<leftarrow> value_of action_text [ActionPublish, ActionUnpublish] v4;
          source \<leftarrow> value_of source_text [SourceManual, SourceScheduled] v5;
          sid \<leftarrow> nullable_dest text_dest v6; actor \<leftarrow> text_dest v7; occurred_at \<leftarrow> int_dest v8;
          Some \<lparr>e_id = eid, e_content_id = cid, e_version_id = vid, e_action = action,
            e_source = source, e_schedule_id = sid, e_actor = actor, e_occurred_at = occurred_at\<rparr> }"
| "scan_event_cells _ = None"

definition event_cells :: "event_row \<Rightarrow> cells" where
  "event_cells e =
     (inserted [''content_id'', ''version_id'', ''action'', ''source'', ''schedule_id'', ''actor'', ''occurred_at'']
       [SqlText (e_content_id e), sql_nullable sql_int (e_version_id e), SqlText (action_text (e_action e)),
        SqlText (source_text (e_source e)), sql_nullable SqlText (e_schedule_id e), SqlText (e_actor e),
        sql_int (e_occurred_at e)])(''id'' \<mapsto> sql_int (e_id e))"

definition event_in_range :: "event_row \<Rightarrow> bool" where
  "event_in_range e \<longleftrightarrow> in_int64 (e_id e) \<and> pred_option in_int64 (e_version_id e) \<and> in_int64 (e_occurred_at e)"

lemma scan_event_columns:
  "scan_event_cells (select event_columns (event_cells e)) = (if event_in_range e then Some e else None)"
  by (auto simp: event_columns_def event_cells_def inserted_def event_in_range_def)

section \<open>The public columns\<close>

definition public_columns :: "string list" where
  "public_columns = [''c.slug'', ''v.title'', ''v.body'',
     ''v.meta_title'', ''v.meta_description'', ''v.canonical_url'', ''v.og_image_url'',
     ''v.noindex'', ''c.published_at'', ''c.updated_at'']"

text \<open>\<open>scanPublic\<close>: an invalid \<open>sql.NullInt64\<close> holds 0.\<close>

fun scan_public_cells :: "sql_value list \<Rightarrow> public_content option" where
  "scan_public_cells [v1, v2, v3, v4, v5, v6, v7, v8, v9, v10] =
     do { slug \<leftarrow> text_dest v1; title \<leftarrow> text_dest v2; body \<leftarrow> text_dest v3;
          meta_title \<leftarrow> text_dest v4; meta_description \<leftarrow> text_dest v5; canonical_url \<leftarrow> text_dest v6;
          og_image_url \<leftarrow> text_dest v7; noindex \<leftarrow> int_dest v8;
          published_at \<leftarrow> nullable_dest int_dest v9; updated_at \<leftarrow> int_dest v10;
          Some \<lparr>p_slug = slug, p_title = title, p_body = body,
            p_fields = \<lparr>f_title = title, f_body = body, f_meta_title = meta_title,
              f_meta_description = meta_description, f_canonical_url = canonical_url,
              f_og_image_url = og_image_url, f_noindex = (noindex \<noteq> 0)\<rparr>,
            p_published_at = (case published_at of None \<Rightarrow> 0 | Some t \<Rightarrow> t),
            p_updated_at = updated_at\<rparr> }"
| "scan_public_cells _ = None"

abbreviation public_in_range :: "content_row \<times> version_row \<Rightarrow> bool" where
  "public_in_range cv \<equiv> pred_option in_int64 (c_published_at (fst cv)) \<and> in_int64 (c_updated_at (fst cv))"

lemma scan_public_columns:
  "scan_public_cells (select public_columns (joined (content_cells c) (version_cells v))) =
     (if public_in_range (c, v) then Some (public_of c v) else None)"
  by (auto simp: public_columns_def content_cells_def version_cells_def insert_version_cells_def
      inserted_def public_of_def split: option.split)

lemma scan_both_columns:
  "scan_both_cells (select (content_columns @ version_columns) (joined (content_cells c) (version_cells v))) =
     (if content_in_range c \<and> version_in_range v then Some \<lparr>cv_content = c, cv_version = v\<rparr> else None)"
proof -
  have len: "length (select content_columns r) = 7" for r by (simp add: content_columns_def)
  show ?thesis
    by (simp add: scan_both_cells_def select_append len scan_content_columns scan_version_columns)
qed

section \<open>Queries by columns\<close>

lemma io_map_cong: "(\<And>x. x \<in> set xs \<Longrightarrow> f x = g x) \<Longrightarrow> io_map f xs = io_map g xs"
  by (induction xs) simp_all

text \<open>
  A codec of a row: the cells it is stored in, the columns a query selects, the scan of their values,
  and what the scan makes of the row, whenever its numbers fit the destinations.
\<close>

definition scan_io :: "(sql_value list \<Rightarrow> 'a option) \<Rightarrow> sql_value list \<Rightarrow> 'a io" where
  "scan_io scan vals =
     (case scan vals of
        None \<Rightarrow> io_throw (ScanError ''converting driver.Value type float64 to a int64'')
      | Some x \<Rightarrow> io_return x)"

locale row_codec =
  fixes cells :: "'r \<Rightarrow> cells" and columns :: "string list" and scan :: "sql_value list \<Rightarrow> 'a option"
    and view :: "'r \<Rightarrow> 'a" and fits :: "'r \<Rightarrow> bool"
  assumes read: "scan (select columns (cells r)) = (if fits r then Some (view r) else None)"
begin

lemma scan_row: "fits r \<Longrightarrow> scan_io scan (select columns (cells r)) = io_return (view r)"
  by (simp add: scan_io_def read)

lemma cells_determine: "cells r = cells r' \<Longrightarrow> fits r \<Longrightarrow> view r = view r' \<and> fits r'"
  using read [of r] read [of r'] by (simp split: if_splits)

text \<open>The loop over \<open>rows.Next\<close>.\<close>

lemma scan_rows:
  "\<forall>r \<in> set rows. fits r \<Longrightarrow>
    io_map (\<lambda>r. map_err f (scan_io scan (select columns (cells r)))) rows =
    io_map (\<lambda>r. map_err f (io_return (view r))) rows"
  by (rule io_map_cong) (simp add: scan_row)

lemma query_by_columns:
  assumes "\<forall>r \<in> set (q (tables w)). fits r"
  shows "query_rows m1 m2 q (\<lambda>r. scan_io scan (select columns (cells r))) w =
    query_rows m1 m2 q (\<lambda>r. io_return (view r)) w"
proof (cases "map_err (Wrap m1) (sql_query q) w")
  case (Pair x w1)
  then have "x = Inr rows \<Longrightarrow> rows = q (tables w)" for rows
    by (auto simp: io_simps)
  with Pair assms show ?thesis
    by (cases x) (simp_all add: query_rows_def io_bind_def scan_rows)
qed

end

interpretation content_codec: row_codec
  "\<lambda>c. joined (content_cells c) v" content_columns scan_content_cells "\<lambda>c. c" content_in_range
  by unfold_locales (rule scan_content_columns)

interpretation version_codec: row_codec
  "\<lambda>v. joined c (version_cells v)" version_columns scan_version_cells "\<lambda>v. v" version_in_range
  by unfold_locales (rule scan_version_columns)

interpretation both_codec: row_codec
  "\<lambda>cv. joined (content_cells (fst cv)) (version_cells (snd cv))" "content_columns @ version_columns" scan_both_cells
  "\<lambda>cv. \<lparr>cv_content = fst cv, cv_version = snd cv\<rparr>" "\<lambda>cv. content_in_range (fst cv) \<and> version_in_range (snd cv)"
  by unfold_locales (rule scan_both_columns)

interpretation schedule_codec: row_codec
  schedule_cells schedule_columns scan_schedule_cells "\<lambda>s. s" schedule_in_range
  by unfold_locales (rule scan_schedule_columns)

interpretation event_codec: row_codec
  event_cells event_columns scan_event_cells "\<lambda>e. e" event_in_range
  by unfold_locales (rule scan_event_columns)

interpretation public_codec: row_codec
  "\<lambda>cv. joined (content_cells (fst cv)) (version_cells (snd cv))" public_columns scan_public_cells
  "\<lambda>cv. public_of (fst cv) (snd cv)" public_in_range
  by unfold_locales (simp add: scan_public_columns)

text \<open>The scan of a content row as the store has it: only the counter can be too large.\<close>

lemma scan_content_by_columns:
  assumes "pred_option in_int64 (c_published_version_id c)" "pred_option in_int64 (c_published_at c)"
    "in_int64 (c_created_at c)" "in_int64 (c_updated_at c)"
  shows "scan_io scan_content_cells (select content_columns (joined (content_cells c) v)) = scan_content c"
  using assms by (auto simp: scan_io_def scan_content_columns content_in_range_def scan_content_def)

lemma list_schedules_by_columns:
  assumes "\<forall>s \<in> set (schedules (tables w)). schedule_in_range s"
  shows "query_rows ''list schedules'' ''scan schedule''
      (\<lambda>d. order_desc (\<lambda>s. (s_created_at s, s_id s)) (filter (\<lambda>s. s_content_id s = cid) (schedules d)))
      (\<lambda>s. scan_io scan_schedule_cells (select schedule_columns (schedule_cells s))) w = list_schedules cid w"
  unfolding list_schedules_def using assms
  by (intro schedule_codec.query_by_columns) (auto simp: order_desc_def)

section \<open>What is written is what is read\<close>

text \<open>
  C34. The column lists agree: for each of the four tables, the values an INSERT of the code binds to
  its columns, selected and scanned by position through the column lists of the queries, give back the
  record that was written, each field in its place; so does the join of a document with its version,
  and the public query puts the slug and the fields that were written before the readers.
\<close>

theorem written_rows_read_back:
  assumes "in_int64 rowid" "in_int64 ver" "in_int64 vid" "in_int64 run_at" "in_int64 now"
  shows "scan_content_cells (select content_columns (joined (insert_content_cells cid slug now) v)) =
      Some (new_content cid slug now) \<and>
    scan_version_cells (select version_columns (joined c (insert_version_cells rowid cid ver f actor now))) =
      Some (new_version rowid cid ver f actor now) \<and>
    scan_both_cells (select (content_columns @ version_columns)
        (joined (insert_content_cells cid slug now) (insert_version_cells rowid cid 1 f actor now))) =
      Some \<lparr>cv_content = new_content cid slug now, cv_version = new_version rowid cid 1 f actor now\<rparr> \<and>
    (\<exists>p. scan_public_cells (select public_columns
        (joined (insert_content_cells cid slug now) (insert_version_cells rowid cid ver f actor now))) = Some p \<and>
      p_slug p = slug \<and> p_fields p = f) \<and>
    scan_schedule_cells (select schedule_columns (insert_schedule_cells sid cid vid run_at now)) =
      Some (new_schedule sid cid vid run_at now) \<and>
    scan_event_cells (select event_columns (event_cells
        ((publish_event \<lparr>pp_content_id = cid, pp_version_id = vid, pp_source = src, pp_actor = actor,
          pp_schedule_id = job, pp_now = now\<rparr>)\<lparr>e_id := rowid\<rparr>))) =
      Some ((publish_event \<lparr>pp_content_id = cid, pp_version_id = vid, pp_source = src, pp_actor = actor,
          pp_schedule_id = job, pp_now = now\<rparr>)\<lparr>e_id := rowid\<rparr>)"
proof -
  have c: "content_in_range (new_content cid slug now)"
    using assms by (simp add: content_in_range_def new_content_def) (simp add: in_int64_def)
  have v: "version_in_range (new_version rowid cid ver f actor now)"
      "version_in_range (new_version rowid cid 1 f actor now)"
    using assms by (simp_all add: version_in_range_def new_version_def) (simp add: in_int64_def)
  have s: "schedule_in_range (new_schedule sid cid vid run_at now)"
    using assms by (simp add: schedule_in_range_def new_schedule_def) (simp add: in_int64_def)
  show ?thesis
    using assms c v s
    by (simp add: inserted_content inserted_version inserted_schedule scan_content_columns scan_version_columns
        scan_both_columns scan_public_columns scan_schedule_columns scan_event_columns event_in_range_def
        publish_event_def public_of_def new_version_def new_content_def)
qed

theorem written_rows_read_back_witness:
  "scan_version_cells (select version_columns (joined (\<lambda>k. None)
     (insert_version_cells 7 ''d1'' 2 \<lparr>f_title = ''T'', f_body = ''B'', f_meta_title = ''MT'',
        f_meta_description = ''MD'', f_canonical_url = [], f_og_image_url = [], f_noindex = True\<rparr> ''ann'' 1000))) =
   Some (new_version 7 ''d1'' 2 \<lparr>f_title = ''T'', f_body = ''B'', f_meta_title = ''MT'',
        f_meta_description = ''MD'', f_canonical_url = [], f_og_image_url = [], f_noindex = True\<rparr> ''ann'' 1000)"
  using written_rows_read_back [of 7 2 2 0 1000 "''d1''" "''s''" "\<lambda>k. None" "\<lambda>k. None"]
  by (simp add: in_int64_def)

end
