(* ===== verification/Worker_Live.thy ===== *)
theory Worker_Live
  imports Worker
begin

text \<open>
  What a tick achieves when the driver reports no failure and the clock stands still: every
  schedule in the claimed batch is published and done, whether it was pending or held by a worker
  whose lease has run out.
\<close>

section \<open>The effect of one job\<close>

definition publish_job :: "claimed_job \<Rightarrow> string \<Rightarrow> int64 \<Rightarrow> db \<Rightarrow> db" where
  "publish_job j worker now d =
     set_schedules (held_by worker (j_schedule_id j)) (unlock ScheduleDone now)
       (append_event (job_event j now)
         (set_pointer (j_content_id j) (Some (j_version_id j)) now d))"

lemma publish_job_sel [simp]:
  "versions (publish_job j worker now d) = versions d"
  "event_seq (publish_job j worker now d) = event_seq d + 1"
  "schedules (publish_job j worker now d) =
     update_where (held_by worker (j_schedule_id j)) (unlock ScheduleDone now) (schedules d)"
  by (simp_all add: publish_job_def)

lemma publish_job_find_schedule:
  "find_schedule (publish_job j worker now d) sid =
     map_option (\<lambda>s. if held_by worker (j_schedule_id j) s then unlock ScheduleDone now s else s)
       (find_schedule d sid)"
  unfolding publish_job_def by (subst find_schedule_set_schedules) simp_all

lemma publish_job_find_content:
  "find_content (publish_job j worker now d) cid =
     (if cid = j_content_id j
      then map_option (\<lambda>c. c\<lparr>c_published_version_id := Some (j_version_id j),
             c_published_at := Some now, c_updated_at := now\<rparr>) (find_content d cid)
      else find_content d cid)"
  by (simp add: publish_job_def find_content_set_pointer)

lemma publish_job_ok:
  fixes now
  assumes ok: "db_ok d" and s: "s \<in> set (schedules d)" "held_by worker (s_id s) s"
  shows "db_ok (publish_job (job_of s) worker now d)"
proof -
  have own: "owns d (s_version_id s) (s_content_id s)"
    using ok s by (simp add: db_ok_def schedules_ok_def)
  have "e_content_id (job_event (job_of s) now) = s_content_id s"
    "Some (s_version_id s) = (case e_action (job_event (job_of s) now) of
       ActionPublish \<Rightarrow> e_version_id (job_event (job_of s) now) | ActionUnpublish \<Rightarrow> None)"
    "\<And>vid. e_version_id (job_event (job_of s) now) = Some vid \<Longrightarrow> owns d vid (s_content_id s)"
    using own by (simp_all add: job_event_def job_of_def)
  note parts = pointer_move_parts [OF ok owns_content [OF ok own] this, where now = now]
  from parts complete_done_ok [OF ok s, where now = now] complete_schedules_ok [OF ok, where now = now] show ?thesis
    by (simp add: db_ok_def publish_job_def job_of_def)
qed

lemma complete_body_nofault:
  fixes now
  assumes ok: "db_ok (tables w)" and nf: "faults w = []"
    and s: "s \<in> set (schedules (tables w))" "held_by worker (s_id s) s"
    and seq: "event_seq (tables w) < max_rowid"
  shows "complete_body (job_of s) worker now w =
         (Inr True, w\<lparr>tables := publish_job (job_of s) worker now (tables w)\<rparr>)"
proof -
  let ?j = "job_of s" and ?d = "tables w"
  let ?d1 = "set_pointer (s_content_id s) (Some (s_version_id s)) now ?d"
  let ?d2 = "append_event (job_event ?j now) ?d1"
  have own: "owns ?d (s_version_id s) (s_content_id s)"
    using ok s by (simp add: db_ok_def schedules_ok_def)
  have fresh: "Some (s_id s) \<notin> e_schedule_id ` set (events ?d)"
    using not_done_no_event [OF ok s(1)] s(2) by (simp add: held_by_def)
  have j: "j_content_id ?j = s_content_id s" "j_version_id ?j = s_version_id s"
    "j_schedule_id ?j = s_id s"
    by (simp_all add: job_of_def)
  have "update_contents (\<lambda>c. c_id c = s_content_id s)
      (\<lambda>c. c\<lparr>c_published_version_id := Some (s_version_id s), c_published_at := Some now,
             c_updated_at := now\<rparr>) ?d
    = Inr (length (filter (\<lambda>c. c_id c = s_content_id s) (contents ?d)), ?d1)"
    using owns_version_fk [OF own] by (simp add: row_simps set_pointer_def)
  then have s1: "map_err (Wrap ''set published version'')
         (sql_stmt (update_contents (\<lambda>c. c_id c = j_content_id ?j)
           (\<lambda>c. c\<lparr>c_published_version_id := Some (j_version_id ?j), c_published_at := Some now,
                  c_updated_at := now\<rparr>))) w
      = (Inr (length (filter (\<lambda>c. c_id c = s_content_id s) (contents ?d))), w\<lparr>tables := ?d1\<rparr>)"
    by (simp add: map_err_def io_catch_def sql_stmt_nofault [OF nf] j)
  have "insert_event (job_event ?j now) ?d1 = Inr (event_seq ?d + 1, ?d2)"
    using fresh seq owns_content [OF ok own] owns_version_fk [OF own]
    by (simp add: row_simps job_event_def j append_event_def version_fk_def)
  then have s2: "insert_event_tx (job_event ?j now) (w\<lparr>tables := ?d1\<rparr>) = (Inr (), w\<lparr>tables := ?d2\<rparr>)"
    using nf by (simp add: insert_event_tx_def map_err_def io_catch_def io_bind_def io_return_def
        sql_stmt_nofault)
  have "active_unique (update_where (held_by worker (s_id s)) (unlock ScheduleDone now) (schedules ?d))"
    using ok by (intro active_unique_update_where)
      (auto simp: db_ok_def schedules_ok_def schedule_active_def)
  then have s3: "map_err (Wrap ''mark schedule done'')
      (sql_stmt (update_schedules (held_by worker (j_schedule_id ?j)) (unlock ScheduleDone now)))
        (w\<lparr>tables := ?d2\<rparr>)
    = (Inr (length (filter (held_by worker (s_id s)) (schedules ?d))),
       w\<lparr>tables := publish_job ?j worker now ?d\<rparr>)"
    using nf by (simp add: map_err_def io_catch_def sql_stmt_nofault j update_schedules_def
        publish_job_def set_schedules_def)
  have "length (filter (held_by worker (s_id s)) (schedules ?d)) \<noteq> 0"
    using s by (auto simp: filter_empty_conv)
  then show ?thesis
    unfolding complete_body_def io_bind_def s1 prod.case sum.case s2 s3
    using nf by (simp add: map_err_def io_catch_def driver_call_nofault io_return_def)
qed

lemma complete_nofault:
  fixes now
  assumes "db_ok (tables w)" and nf: "faults w = []"
    and "s \<in> set (schedules (tables w))" "held_by worker (s_id s) s"
    and "event_seq (tables w) < max_rowid"
  shows "complete_scheduled_publish (job_of s) worker now w =
         (Inr True, w\<lparr>tables := publish_job (job_of s) worker now (tables w)\<rparr>)"
  using nf complete_body_nofault [OF assms, where now = now]
  by (simp add: complete_scheduled_publish_def io_catch_def db_tx_nofault)

lemma execute_nofault:
  assumes "db_ok (tables w)" and nf: "faults w = []" and still: "clock_later w = []"
    and "s \<in> set (schedules (tables w))" "held_by (wk_id wk) (s_id s) s"
    and "event_seq (tables w) < max_rowid"
  shows "execute drv wk (job_of s) w =
    (Inr (), w\<lparr>tables := publish_job (job_of s) (wk_id wk) (to_millis (clock_now w)) (tables w)\<rparr>)"
proof -
  have now: "now_millis w = (Inr (to_millis (clock_now w)), w)"
    using still by (simp add: now_millis_def io_bind_def clk_now_still io_return_def)
  show ?thesis
    using complete_nofault [OF assms(1,2,4,5,6)]
    by (simp add: execute_def io_bind_def now io_attempt_def io_return_def)
qed

section \<open>The loop over the jobs\<close>

text \<open>The jobs of a batch as the worker holds them: read off rows it has claimed.\<close>

definition held_jobs :: "string \<Rightarrow> claimed_job list \<Rightarrow> db \<Rightarrow> bool" where
  "held_jobs worker jobs d \<longleftrightarrow>
     (\<forall>j \<in> set jobs. \<exists>s \<in> set (schedules d). j = job_of s \<and> held_by worker (s_id s) s)"

lemma held_jobs_rest:
  assumes "held_jobs worker (j # jobs) d" "j_schedule_id j \<notin> j_schedule_id ` set jobs"
  shows "held_jobs worker jobs (publish_job j worker now d)"
  unfolding held_jobs_def
proof
  fix j' assume j': "j' \<in> set jobs"
  then obtain s where s: "s \<in> set (schedules d)" "j' = job_of s" "held_by worker (s_id s) s"
    using assms(1) by (auto simp: held_jobs_def)
  moreover have "j_schedule_id j' \<noteq> j_schedule_id j"
    using assms(2) j' by (metis imageI)
  ultimately have "\<not> held_by worker (j_schedule_id j) s"
    by (auto simp: held_by_def job_of_def)
  with s(1) have "s \<in> set (schedules (publish_job j worker now d))"
    by (simp add: set_update_where)
  with s show "\<exists>s \<in> set (schedules (publish_job j worker now d)).
      j' = job_of s \<and> held_by worker (s_id s) s"
    by blast
qed

definition publish_jobs :: "claimed_job list \<Rightarrow> string \<Rightarrow> int64 \<Rightarrow> db \<Rightarrow> db" where
  "publish_jobs jobs worker now d = fold (\<lambda>j. publish_job j worker now) jobs d"

lemma publish_jobs_simps [simp]:
  "publish_jobs [] worker now d = d"
  "publish_jobs (j # jobs) worker now d = publish_jobs jobs worker now (publish_job j worker now d)"
  by (simp_all add: publish_jobs_def)

lemma execute_all_nofault:
  assumes "db_ok (tables w)" "faults w = []" "clock_later w = []"
    "held_jobs (wk_id wk) jobs (tables w)" "distinct (map j_schedule_id jobs)"
    "event_seq (tables w) + int (length jobs) \<le> max_rowid"
  shows "io_each (execute drv wk) jobs w =
    (Inr (), w\<lparr>tables := publish_jobs jobs (wk_id wk) (to_millis (clock_now w)) (tables w)\<rparr>)"
  using assms
proof (induction jobs arbitrary: w)
  case Nil
  then show ?case by (simp add: io_return_def)
next
  case (Cons j jobs)
  let ?now = "to_millis (clock_now w)"
  let ?w1 = "w\<lparr>tables := publish_job j (wk_id wk) ?now (tables w)\<rparr>"
  from Cons.prems(4) obtain s where s: "s \<in> set (schedules (tables w))" "j = job_of s"
    "held_by (wk_id wk) (s_id s) s"
    by (auto simp: held_jobs_def)
  have run: "execute drv wk j w = (Inr (), ?w1)"
    using execute_nofault [OF Cons.prems(1-3) s(1,3)] Cons.prems(6) s(2) by simp
  have "db_ok (tables ?w1)"
    using publish_job_ok [OF Cons.prems(1) s(1,3)] s(2) by simp
  then have "io_each (execute drv wk) jobs ?w1 =
    (Inr (), ?w1\<lparr>tables := publish_jobs jobs (wk_id wk) (to_millis (clock_now ?w1)) (tables ?w1)\<rparr>)"
    using Cons.prems held_jobs_rest [OF Cons.prems(4)] by (intro Cons.IH) auto
  then show ?case by (simp add: io_bind_def run)
qed

lemma publish_jobs_other_schedule:
  assumes "sid \<notin> j_schedule_id ` set jobs"
  shows "find_schedule (publish_jobs jobs worker now d) sid = find_schedule d sid"
  using assms
proof (induction jobs arbitrary: d)
  case (Cons j jobs)
  have "map_option (\<lambda>s. if held_by worker (j_schedule_id j) s then unlock ScheduleDone now s else s)
      (find_schedule d sid) = find_schedule d sid"
    using Cons.prems
    by (cases "find_schedule d sid") (auto simp: held_by_def find_schedule_def dest: row_with_SomeD)
  with Cons show ?case by (simp add: publish_job_find_schedule)
qed simp

lemma publish_jobs_other_content:
  "cid \<notin> j_content_id ` set jobs \<Longrightarrow>
   find_content (publish_jobs jobs worker now d) cid = find_content d cid"
  by (induction jobs arbitrary: d) (auto simp: publish_job_find_content)

lemma publish_jobs_done:
  fixes now
  assumes "held_jobs worker jobs d" "distinct (map j_schedule_id jobs)"
    "distinct (map j_content_id jobs)" "job_of s \<in> set jobs" "find_schedule d (s_id s) = Some s"
    "find_content d (s_content_id s) = Some c" "held_by worker (s_id s) s"
  shows "find_schedule (publish_jobs jobs worker now d) (s_id s) = Some (unlock ScheduleDone now s) \<and>
    find_content (publish_jobs jobs worker now d) (s_content_id s) =
      Some (c\<lparr>c_published_version_id := Some (s_version_id s), c_published_at := Some now,
              c_updated_at := now\<rparr>)"
  using assms
proof (induction jobs arbitrary: d)
  case (Cons j jobs)
  show ?case
  proof (cases "j = job_of s")
    case True
    then have "s_id s \<notin> j_schedule_id ` set jobs" "s_content_id s \<notin> j_content_id ` set jobs"
      using Cons.prems(2,3) by (auto simp: job_of_def)
    with True Cons.prems show ?thesis
      by (simp add: publish_jobs_other_schedule publish_jobs_other_content
          publish_job_find_schedule publish_job_find_content)
        (simp add: job_of_def)
  next
    case False
    with Cons.prems(4) have s: "job_of s \<in> set jobs" by simp
    then have ids: "j_schedule_id j \<noteq> s_id s" "j_content_id j \<noteq> s_content_id s"
      using Cons.prems(2,3) by (force simp: job_of_def)+
    then have "find_schedule (publish_job j worker now d) (s_id s) = Some s"
      using Cons.prems(5) by (simp add: publish_job_find_schedule held_by_def)
    moreover have "find_content (publish_job j worker now d) (s_content_id s) = Some c"
      using Cons.prems(6) ids by (simp add: publish_job_find_content)
    moreover have "held_jobs worker jobs (publish_job j worker now d)"
      using Cons.prems by (intro held_jobs_rest) auto
    ultimately show ?thesis
      using Cons.prems s by (simp add: Cons.IH)
  qed
qed simp

section \<open>A whole tick\<close>

definition claimed_db :: "planner \<Rightarrow> worker \<Rightarrow> int64 \<Rightarrow> int64 \<Rightarrow> db \<Rightarrow> db" where
  "claimed_db pl wk now exp d =
     set_schedules (\<lambda>s. s_id s \<in> set (due_ids pl now (wk_batch wk) d)) (claim_row (wk_id wk) exp now) d"

definition claimed_jobs :: "planner \<Rightarrow> worker \<Rightarrow> int64 \<Rightarrow> db \<Rightarrow> claimed_job list" where
  "claimed_jobs pl wk now d =
     returning_order pl
       (map job_of (filter (\<lambda>s. s_id s \<in> set (due_ids pl now (wk_batch wk) d)) (schedules d)))"

lemma claim_nofault:
  fixes now
  assumes ok: "db_ok (tables w)" and pl: "planner_ok pl" and nf: "faults w = []"
  shows "claim_due_schedules pl (wk_id wk) now exp (wk_batch wk) w =
    (Inr (claimed_jobs pl wk now (tables w)), w\<lparr>tables := claimed_db pl wk now exp (tables w)\<rparr>)"
proof -
  let ?d = "tables w"
  have "active_unique (update_where (\<lambda>s. s_id s \<in> set (due_ids pl now (wk_batch wk) ?d))
      (claim_row (wk_id wk) exp now) (schedules ?d))"
    using ok due_row [OF ok pl] by (intro active_unique_update_where)
      (auto simp: db_ok_def schedules_ok_def intro: schedule_due_active)
  then have "claim_update pl (wk_id wk) now exp (wk_batch wk) ?d =
      Inr (claimed_jobs pl wk now ?d, claimed_db pl wk now exp ?d)"
    by (simp add: claim_update_def Let_def update_schedules_def claimed_db_def set_schedules_def
        claimed_jobs_def update_where_def filter_map comp_def if_distrib cong: if_cong)
  then show ?thesis
    using nf by (simp add: claim_due_schedules_def db_tx_def io_bind_def map_err_def io_catch_def
        sql_stmt_nofault driver_call_nofault)
qed

lemma mset_claimed_jobs:
  "planner_ok pl \<Longrightarrow> mset (claimed_jobs pl wk now d) =
   mset (map job_of (filter (\<lambda>s. s_id s \<in> set (due_ids pl now (wk_batch wk) d)) (schedules d)))"
  by (simp add: claimed_jobs_def planner_ok_def)

lemma set_claimed_jobs:
  "planner_ok pl \<Longrightarrow> set (claimed_jobs pl wk now d) =
   job_of ` {s \<in> set (schedules d). s_id s \<in> set (due_ids pl now (wk_batch wk) d)}"
  using mset_eq_setD [OF mset_claimed_jobs] by fastforce

lemma claimed_jobs_distinct:
  assumes ok: "db_ok d" and pl: "planner_ok pl"
  shows "distinct (map j_schedule_id (claimed_jobs pl wk now d))"
    "distinct (map j_content_id (claimed_jobs pl wk now d))"
proof -
  let ?rows = "filter (\<lambda>s. s_id s \<in> set (due_ids pl now (wk_batch wk) d)) (schedules d)"
  have m: "mset (map f (claimed_jobs pl wk now d)) = mset (map f (map job_of ?rows))" for f
    using mset_claimed_jobs [OF pl] by (simp only: mset_map)
  have "distinct (map s_id ?rows)"
    using ok by (simp add: db_ok_def schedules_ok_def distinct_map_filter)
  then have "distinct (map j_schedule_id (map job_of ?rows))"
    by (simp add: job_of_def comp_def)
  then show "distinct (map j_schedule_id (claimed_jobs pl wk now d))"
    using m [of j_schedule_id] mset_eq_imp_distinct_iff by blast
  have act: "schedule_active s"
    if "s \<in> set (schedules d)" "s_id s \<in> set (due_ids pl now (wk_batch wk) d)" for s
    using due_row [OF ok pl that] by (rule schedule_due_active)
  have "?rows = filter (\<lambda>s. s_id s \<in> set (due_ids pl now (wk_batch wk) d))
      (filter schedule_active (schedules d))"
    unfolding filter_filter by (rule filter_cong) (auto simp: act)
  moreover have "distinct (map s_content_id (filter schedule_active (schedules d)))"
    using ok by (simp add: db_ok_def schedules_ok_def active_unique_def)
  ultimately have "distinct (map s_content_id ?rows)"
    by (simp only: distinct_map_filter)
  then have "distinct (map j_content_id (map job_of ?rows))"
    by (simp add: job_of_def comp_def)
  then show "distinct (map j_content_id (claimed_jobs pl wk now d))"
    using m [of j_content_id] mset_eq_imp_distinct_iff by blast
qed

lemma claimed_held:
  assumes "planner_ok pl"
  shows "held_jobs (wk_id wk) (claimed_jobs pl wk now d) (claimed_db pl wk now exp d)"
proof -
  let ?claim = "claim_row (wk_id wk) exp now"
  have "\<exists>s' \<in> set (schedules (claimed_db pl wk now exp d)). job_of s = job_of s' \<and>
      held_by (wk_id wk) (s_id s') s'"
    if "s \<in> set (schedules d)" "s_id s \<in> set (due_ids pl now (wk_batch wk) d)" for s
  proof (rule bexI)
    show "?claim s \<in> set (schedules (claimed_db pl wk now exp d))"
      using that by (simp add: claimed_db_def set_update_where)
  qed (simp add: held_by_def)
  then show ?thesis
    unfolding held_jobs_def set_claimed_jobs [OF assms] by blast
qed

definition tick_db :: "planner \<Rightarrow> worker \<Rightarrow> int64 \<Rightarrow> int64 \<Rightarrow> db \<Rightarrow> db" where
  "tick_db pl wk now exp d =
     publish_jobs (claimed_jobs pl wk now d) (wk_id wk) now (claimed_db pl wk now exp d)"

lemma claimed_db_ok:
  fixes now
  assumes "db_ok d" "planner_ok pl"
  shows "db_ok (claimed_db pl wk now exp d)"
proof -
  let ?w = "\<lparr>tables = d, faults = [], clock_now = 0, clock_later = []\<rparr>"
  show ?thesis
    using claim_ok [of ?w pl "wk_id wk" now exp "wk_batch wk"]
      claim_nofault [of ?w pl wk now exp] assms by simp
qed

lemma tick_nofault:
  fixes wk
  assumes ok: "db_ok (tables w)" and pl: "planner_ok pl" and nf: "faults w = []"
    and still: "clock_later w = []"
  defines "now \<equiv> to_millis (clock_now w)"
  assumes seq: "event_seq (tables w) + int (length (claimed_jobs pl wk now (tables w))) \<le> max_rowid"
  shows "tick drv pl wk w = (Inr (count_tick wk), w\<lparr>tables := tick_db pl wk now
      (to_millis (time_add (clock_now w) (wk_lease wk))) (tables w)\<rparr>)"
proof -
  let ?exp = "to_millis (time_add (clock_now w) (wk_lease wk))"
  let ?w1 = "w\<lparr>tables := claimed_db pl wk now ?exp (tables w)\<rparr>"
  have n: "now_millis w = (Inr now, w)"
    using still by (simp add: now_def now_millis_def io_bind_def clk_now_still io_return_def)
  note claim = claim_nofault [OF ok pl nf, where now = now and exp = ?exp and wk = wk]
  have "io_each (execute drv wk) (claimed_jobs pl wk now (tables w)) ?w1 =
      (Inr (), ?w1\<lparr>tables := publish_jobs (claimed_jobs pl wk now (tables w)) (wk_id wk)
         (to_millis (clock_now ?w1)) (tables ?w1)\<rparr>)"
    using nf still seq claimed_db_ok [OF ok pl] claimed_held [OF pl]
      claimed_jobs_distinct(1) [OF ok pl]
    by (intro execute_all_nofault) (simp_all add: claimed_db_def)
  then show ?thesis
    by (simp add: tick_def io_bind_def n clk_now_still [OF still] io_attempt_def claim io_return_def
        tick_db_def now_def [symmetric])
qed

section \<open>Which schedules a tick publishes\<close>

lemma scan_order_perm: "planner_ok pl \<Longrightarrow> mset (scan_order pl rows) = mset rows"
  by (simp add: planner_ok_def)

lemma due_length:
  assumes "planner_ok pl"
  shows "length (filter (schedule_due now) (scan_order pl rows)) = length (filter (schedule_due now) rows)"
  using scan_order_perm [OF assms] by (metis mset_filter size_mset)

lemma due_ids_all:
  assumes pl: "planner_ok pl" and s: "s \<in> set (schedules d)" "schedule_due now s"
    and lim: "int (length (filter (schedule_due now) (schedules d))) \<le> limit"
  shows "s_id s \<in> set (due_ids pl now limit d)"
proof -
  have "s \<in> set (scan_order pl (schedules d))"
    using s(1) mset_eq_setD [OF scan_order_perm [OF pl]] by blast
  then show ?thesis
    using s(2) lim by (simp add: due_ids_def sql_limit_all due_length [OF pl])
qed

lemma claimed_job_count:
  assumes ok: "db_ok d" and pl: "planner_ok pl"
  shows "length (claimed_jobs pl wk now d) \<le> length (filter (schedule_due now) (schedules d))"
proof -
  have "length (claimed_jobs pl wk now d) =
      length (filter (\<lambda>s. s_id s \<in> set (due_ids pl now (wk_batch wk) d)) (schedules d))"
    using mset_eq_length [OF mset_claimed_jobs [OF pl, of wk now d]] by simp
  also have "filter (\<lambda>s. s_id s \<in> set (due_ids pl now (wk_batch wk) d)) (schedules d) =
      filter (\<lambda>s. s_id s \<in> set (due_ids pl now (wk_batch wk) d))
        (filter (schedule_due now) (schedules d))"
    unfolding filter_filter by (rule filter_cong) (auto intro: due_row [OF ok pl])
  also have "length \<dots> \<le> length (filter (schedule_due now) (schedules d))"
    by (rule length_filter_le)
  finally show ?thesis .
qed

lemma tick_db_published:
  fixes now
  assumes ok: "db_ok d" and pl: "planner_ok pl" and s: "s \<in> set (schedules d)"
    and due: "s_id s \<in> set (due_ids pl now (wk_batch wk) d)"
    and c: "find_content d (s_content_id s) = Some c"
  shows "find_schedule (tick_db pl wk now exp d) (s_id s) =
      Some (unlock ScheduleDone now (claim_row (wk_id wk) exp now s)) \<and>
    find_content (tick_db pl wk now exp d) (s_content_id s) =
      Some (c\<lparr>c_published_version_id := Some (s_version_id s), c_published_at := Some now,
              c_updated_at := now\<rparr>)"
proof -
  let ?s = "claim_row (wk_id wk) exp now s"
  have "find_schedule d (s_id s) = Some s"
    using ok s by (simp add: db_ok_find_schedule)
  then have "find_schedule (claimed_db pl wk now exp d) (s_id s) = Some ?s"
    unfolding claimed_db_def using due by (subst find_schedule_set_schedules) simp_all
  moreover have "job_of ?s \<in> set (claimed_jobs pl wk now d)"
    using s due by (auto simp: set_claimed_jobs [OF pl])
  moreover have "find_content (claimed_db pl wk now exp d) (s_content_id s) = Some c"
    using c by (simp add: claimed_db_def)
  ultimately show ?thesis
    using publish_jobs_done [OF claimed_held [OF pl] claimed_jobs_distinct [OF ok pl], of ?s]
    by (simp add: tick_db_def held_by_def)
qed

lemma tick_db_other:
  assumes pl: "planner_ok pl" and due: "sid \<notin> set (due_ids pl now (wk_batch wk) d)"
  shows "find_schedule (tick_db pl wk now exp d) sid = find_schedule d sid"
proof -
  have "sid \<notin> j_schedule_id ` set (claimed_jobs pl wk now d)"
    using due by (auto simp: set_claimed_jobs [OF pl] job_of_def)
  moreover have "find_schedule (claimed_db pl wk now exp d) sid = find_schedule d sid"
  proof (cases "find_schedule d sid")
    case (Some s)
    then have "s_id s = sid" by (auto simp: find_schedule_def dest: row_with_SomeD)
    with Some due show ?thesis
      unfolding claimed_db_def by (subst find_schedule_set_schedules) simp_all
  qed (simp add: claimed_db_def find_schedule_set_schedules)
  ultimately show ?thesis
    by (simp add: tick_db_def publish_jobs_other_schedule)
qed

text \<open>A due schedule left out of a batch does not run earlier than any schedule in it.\<close>

lemma due_ids_earliest:
  assumes ok: "db_ok d" and pl: "planner_ok pl"
    and s: "s \<in> set (schedules d)" "s_id s \<in> set (due_ids pl now limit d)"
    and s': "s' \<in> set (schedules d)" "schedule_due now s'" "s_id s' \<notin> set (due_ids pl now limit d)"
  shows "s_run_at s \<le> s_run_at s'"
proof -
  let ?due = "sort_key s_run_at (filter (schedule_due now) (scan_order pl (schedules d)))"
  have sch: "set (scan_order pl (schedules d)) = set (schedules d)"
    using mset_eq_setD [OF scan_order_perm [OF pl]] .
  have in_due: "s' \<in> set ?due" using s'(1,2) sch by simp
  have neg: "\<not> limit < 0"
  proof
    assume "limit < 0"
    then have "due_ids pl now limit d = map s_id ?due" by (simp add: due_ids_def sql_limit_def)
    with in_due s'(3) show False by (metis image_eqI list.set_map)
  qed
  then have ids: "due_ids pl now limit d = map s_id (take (nat limit) ?due)"
    by (simp add: due_ids_def sql_limit_def)
  from s(2) ids obtain t where t: "t \<in> set (take (nat limit) ?due)" "s_id t = s_id s" by auto
  have "t \<in> set ?due" using t(1) by (rule in_set_takeD)
  then have "t \<in> set (schedules d)" using sch by simp
  with ok s(1) t(2) have ts: "t = s"
    by (auto simp: db_ok_def schedules_ok_def dest: distinct_key_eq)
  have "s' \<notin> set (take (nat limit) ?due)"
    using s'(3) ids by auto
  with in_due have "s' \<in> set (drop (nat limit) ?due)"
    by (metis Un_iff append_take_drop_id set_append)
  moreover have "sorted (map s_run_at (take (nat limit) ?due) @ map s_run_at (drop (nat limit) ?due))"
    unfolding map_append [symmetric] append_take_drop_id by (rule sorted_sort_key)
  then have "\<forall>x \<in> s_run_at ` set (take (nat limit) ?due).
      \<forall>y \<in> s_run_at ` set (drop (nat limit) ?due). x \<le> y"
    unfolding sorted_append set_map by (elim conjE)
  ultimately show ?thesis
    using t(1) ts by blast
qed

end
