(* ===== verification/System.thy ===== *)
theory System
  imports Worker_Live
begin

text \<open>
  The running system: any number of processes over one database. Each transaction of the store is
  one step, and a step's world is arbitrary but for the tables it starts from: any reading of the
  clock, any failure of the driver, any choice SQLite has. A request is a write transaction of the
  admin API with the arguments its service function passes; between two transactions of one
  process every other process may run. A scheduler is the position of its loop; two of them may
  even carry the same instance id. A crash loses the position and leaves the tables alone.
\<close>

section \<open>Invariants of step relations\<close>

locale invariant_system =
  fixes init :: "'s \<Rightarrow> bool"
    and step :: "'s \<Rightarrow> 's \<Rightarrow> bool"
    and inv :: "'s \<Rightarrow> bool"
    and grow :: "'s \<Rightarrow> 's \<Rightarrow> bool"
  assumes init_inv: "init s \<Longrightarrow> inv s"
    and step_inv: "inv s \<Longrightarrow> step s t \<Longrightarrow> inv t"
    and step_grow: "inv s \<Longrightarrow> step s t \<Longrightarrow> grow s t"
    and grow_refl: "grow s s"
    and grow_trans: "grow s t \<Longrightarrow> grow t u \<Longrightarrow> grow s u"
begin

lemma steps_inv_grow:
  assumes "step\<^sup>*\<^sup>* s t" "inv s"
  shows "inv t \<and> grow s t"
  using assms
proof (induction rule: rtranclp_induct)
  case base
  then show ?case by (simp add: grow_refl)
next
  case (step t u)
  then show ?case by (blast intro: step_inv step_grow grow_trans)
qed

lemma reachable_inv: "init s \<Longrightarrow> step\<^sup>*\<^sup>* s t \<Longrightarrow> inv t"
  using steps_inv_grow init_inv by blast

lemma reachable_grow: "init s \<Longrightarrow> step\<^sup>*\<^sup>* s t \<Longrightarrow> step\<^sup>*\<^sup>* t u \<Longrightarrow> inv u \<and> grow t u"
  using steps_inv_grow reachable_inv by blast

end

section \<open>Processes\<close>

datatype request =
    CreateRequest string string version_fields string int64
  | UpdateRequest string int64 version_fields string int64
  | PublishRequest string int64 string int64
  | UnpublishRequest string string int64
  | ScheduleRequest string string int64 int64 int64
  | CancelRequest string int64

definition io_ignore :: "'a io \<Rightarrow> unit io" where
  "io_ignore m = io_bind m (\<lambda>_. io_return ())"

fun run_request :: "request \<Rightarrow> unit io" where
  "run_request (CreateRequest cid slug f actor now) = io_ignore (create_content cid slug f actor now)"
| "run_request (UpdateRequest cid expected f actor now) =
     io_ignore (update_content cid expected f actor now)"
| "run_request (PublishRequest cid vid actor now) =
     io_ignore (publish \<lparr>pp_content_id = cid, pp_version_id = vid, pp_source = SourceManual,
                         pp_actor = actor, pp_schedule_id = None, pp_now = now\<rparr>)"
| "run_request (UnpublishRequest cid actor now) = io_ignore (unpublish cid actor now)"
| "run_request (ScheduleRequest sid cid vid run_at now) =
     io_ignore (create_schedule sid cid vid run_at now)"
| "run_request (CancelRequest sid now) = cancel_schedule sid now"

text \<open>
  Where a scheduler's loop stands: the jobs it still has to execute, or in addition a failed job
  whose failure it is about to record.
\<close>

datatype position =
    Working "claimed_job list"
  | Recording claimed_job string "claimed_job list"

fun position_jobs :: "position \<Rightarrow> claimed_job list" where
  "position_jobs (Working js) = js"
| "position_jobs (Recording j reason js) = j # js"

record system =
  sys_db :: db
  sys_pos :: "nat \<Rightarrow> position"

text \<open>The parts of \<open>tick\<close>, \<open>execute\<close> and \<open>shutdown\<close> between two transactions.\<close>

definition after_claim :: "go_error + claimed_job list \<Rightarrow> position" where
  "after_claim r = (case r of Inl e \<Rightarrow> Working [] | Inr jobs \<Rightarrow> Working jobs)"

definition after_complete ::
    "(sqlite_code \<Rightarrow> string) \<Rightarrow> claimed_job \<Rightarrow> claimed_job list \<Rightarrow> go_error + bool \<Rightarrow> position" where
  "after_complete drv j js r =
     (case r of Inl e \<Rightarrow> Recording j (error_text drv e) js | Inr completed \<Rightarrow> Working js)"

definition move :: "world \<Rightarrow> nat \<Rightarrow> position \<Rightarrow> system \<Rightarrow> system" where
  "move w p pos s = s\<lparr>sys_db := tables w, sys_pos := (sys_pos s)(p := pos)\<rparr>"

inductive sys_step :: "(nat \<Rightarrow> string) \<Rightarrow> system \<Rightarrow> system \<Rightarrow> bool" for ident where
  Request: "tables w = sys_db s \<Longrightarrow> run_request q w = (r, w') \<Longrightarrow>
    sys_step ident s (s\<lparr>sys_db := tables w'\<rparr>)"
| Claim: "tables w = sys_db s \<Longrightarrow> sys_pos s p = Working [] \<Longrightarrow> planner_ok pl \<Longrightarrow>
    claim_due_schedules pl (ident p) now exp batch w = (r, w') \<Longrightarrow>
    sys_step ident s (move w' p (after_claim r) s)"
| Complete: "tables w = sys_db s \<Longrightarrow> sys_pos s p = Working (j # js) \<Longrightarrow>
    complete_scheduled_publish j (ident p) now w = (r', w') \<Longrightarrow>
    sys_step ident s (move w' p (after_complete drv j js r') s)"
| Record: "tables w = sys_db s \<Longrightarrow> sys_pos s p = Recording j reason js \<Longrightarrow>
    fail_schedule (j_schedule_id j) (ident p) reason now w = (r'', w') \<Longrightarrow>
    sys_step ident s (move w' p (Working js) s)"
| Shutdown: "tables w = sys_db s \<Longrightarrow> sys_pos s p = Working [] \<Longrightarrow>
    release_claims (ident p) now w = (rn, w') \<Longrightarrow>
    sys_step ident s (move w' p (Working []) s)"
| Crash: "sys_step ident s (s\<lparr>sys_pos := (sys_pos s)(p := Working [])\<rparr>)"

definition initial :: "system \<Rightarrow> bool" where
  "initial s \<longleftrightarrow> s = \<lparr>sys_db = empty_db, sys_pos = (\<lambda>_. Working [])\<rparr>"

definition reachable :: "(nat \<Rightarrow> string) \<Rightarrow> system \<Rightarrow> bool" where
  "reachable ident s \<longleftrightarrow> (\<exists>s0. initial s0 \<and> (sys_step ident)\<^sup>*\<^sup>* s0 s)"

section \<open>The invariant\<close>

definition sys_inv :: "system \<Rightarrow> bool" where
  "sys_inv s \<longleftrightarrow> db_ok (sys_db s) \<and>
     (\<forall>p. \<forall>j \<in> set (position_jobs (sys_pos s p)). job_ok (sys_db s) j)"

definition sys_grow :: "system \<Rightarrow> system \<Rightarrow> bool" where
  "sys_grow s t \<longleftrightarrow> evolves (sys_db s) (sys_db t)"

lemma soundD:
  assumes "sound pre m" "m w = (r, w')" "db_ok (tables w)" "pre (tables w)"
  shows "db_ok (tables w') \<and> evolves (tables w) (tables w')"
  using assms by (auto simp: sound_def dest!: spec [of _ w])

lemma sound_request: "sound always (run_request q)"
  by (cases q) (auto simp: io_ignore_def intro!: sound_intros)

lemma sys_invI_move:
  assumes "sys_inv s" "db_ok (tables w')" "evolves (sys_db s) (tables w')"
    and "\<forall>j \<in> set (position_jobs pos). job_ok (tables w') j"
  shows "sys_inv (move w' p pos s)"
  using assms evolves_job_ok [OF assms(3)] by (simp add: sys_inv_def move_def)

lemma sys_move:
  assumes inv: "sys_inv s" and w: "tables w = sys_db s" and run: "m w = (r, w')"
    and snd: "sound pre m" "pre (sys_db s)"
    and pos: "evolves (sys_db s) (tables w') \<Longrightarrow> \<forall>j \<in> set (position_jobs pos). job_ok (tables w') j"
  shows "sys_inv (move w' p pos s) \<and> sys_grow s (move w' p pos s)"
proof -
  have "db_ok (tables w') \<and> evolves (sys_db s) (tables w')"
    using soundD [OF snd(1) run] inv w snd(2) by (simp add: sys_inv_def)
  with inv pos show ?thesis
    by (simp add: sys_invI_move) (simp add: sys_grow_def move_def)
qed

lemma inv_jobs:
  "sys_inv s \<Longrightarrow> j \<in> set (position_jobs (sys_pos s p)) \<Longrightarrow> job_ok (sys_db s) j"
  by (auto simp: sys_inv_def)

lemma sys_step_sound:
  assumes "sys_step ident s t" "sys_inv s"
  shows "sys_inv t \<and> sys_grow s t"
  using assms
proof (induction rule: sys_step.induct)
  case (Request w s q r w')
  then have "db_ok (tables w') \<and> evolves (sys_db s) (tables w')"
    using soundD [OF sound_request Request(2)] by (simp add: sys_inv_def)
  with Request.prems show ?case
    using evolves_job_ok by (auto simp: sys_inv_def sys_grow_def)
next
  case (Claim w s p pl now exp batch r w')
  then show ?case
    by (intro sys_move [OF Claim.prems Claim(1,4) sound_claim])
      (auto simp: after_claim_def intro: claim_jobs_ok split: sum.split)
next
  case (Complete w s p j js now r' w' drv)
  have "job_ok (sys_db s) j" "\<forall>k \<in> set js. job_ok (sys_db s) k"
    using inv_jobs [OF Complete.prems, of _ p] Complete(2) by simp_all
  then show ?case
    by (intro sys_move [OF Complete.prems Complete(1,3) sound_complete])
      (auto simp: after_complete_def intro: evolves_job_ok split: sum.split)
next
  case (Record w s p j reason js now r'' w')
  have "\<forall>k \<in> set js. job_ok (sys_db s) k"
    using inv_jobs [OF Record.prems, of _ p] Record(2) by simp
  then show ?case
    by (intro sys_move [OF Record.prems Record(1,3) sound_fail]) (auto intro: evolves_job_ok)
next
  case (Shutdown w s p now rn w')
  then show ?case
    by (intro sys_move [OF Shutdown.prems Shutdown(1,3) sound_release]) auto
next
  case (Crash s p)
  then show ?case by (simp add: sys_inv_def sys_grow_def)
qed

lemma sys_inv_initial: "initial s \<Longrightarrow> sys_inv s"
  by (simp add: initial_def sys_inv_def db_ok_empty)

interpretation sys: invariant_system initial "sys_step ident" sys_inv sys_grow for ident
  by unfold_locales
    (auto simp: sys_inv_initial dest: sys_step_sound, auto simp: sys_grow_def intro: evolves_trans)

lemma reachable_sys_inv: "reachable ident s \<Longrightarrow> sys_inv s"
  unfolding reachable_def using sys.reachable_inv by blast

lemma reachable_db_ok: "reachable ident s \<Longrightarrow> db_ok (sys_db s)"
  using reachable_sys_inv by (simp add: sys_inv_def)

lemma steps_evolve:
  "reachable ident s \<Longrightarrow> (sys_step ident)\<^sup>*\<^sup>* s t \<Longrightarrow> db_ok (sys_db t) \<and> evolves (sys_db s) (sys_db t)"
  using sys.steps_inv_grow reachable_sys_inv by (force simp: sys_inv_def sys_grow_def)

lemma reachable_steps: "reachable ident s \<Longrightarrow> (sys_step ident)\<^sup>*\<^sup>* s t \<Longrightarrow> reachable ident t"
  unfolding reachable_def by (blast intro: rtranclp_trans)

section \<open>The code's control flow as steps\<close>

inductive_cases sys_stepE: "sys_step ident s t"

lemma move_db [simp]: "sys_db (move w p pos s) = tables w"
  by (simp add: move_def)

lemma move_pos [simp]: "sys_pos (move w p pos s) p = pos"
  by (simp add: move_def)

lemma move_move [simp]: "move w' p pos' (move w p pos s) = move w' p pos' s"
  by (simp add: move_def)

lemma move_tables: "tables w = tables w' \<Longrightarrow> move w p pos s = move w' p pos s"
  by (simp add: move_def)

lemma move_id: "tables w = sys_db s \<Longrightarrow> sys_pos s p = pos \<Longrightarrow> move w p pos s = s"
  by (simp add: move_def fun_upd_idem)

text \<open>\<open>execute\<close> is one completion step, and one recording step when the completion fails.\<close>

lemma execute_steps:
  assumes run: "execute drv wk j w = (r, w')" and id: "ident p = wk_id wk"
    and s: "tables w = sys_db s" "sys_pos s p = Working (j # js)"
  shows "r = Inr () \<and> (sys_step ident)\<^sup>*\<^sup>* s (move w' p (Working js) s)"
proof -
  obtain t w1 where now: "now_millis w = (Inr t, w1)" and w1: "tables w1 = tables w"
    by (cases "now_millis w")
      (auto simp: now_millis_def io_bind_def clk_now_def io_return_def split: list.splits)
  obtain res w2 where comp: "complete_scheduled_publish j (wk_id wk) t w1 = (res, w2)"
    by fastforce
  have step1: "sys_step ident s (move w2 p (after_complete drv j js res) s)"
    using sys_step.Complete [of w1 s p j js ident t res w2 drv] comp s w1 id by simp
  show ?thesis
  proof (cases res)
    case (Inr b)
    with run now comp have "r = Inr ()" "w' = w2"
      by (auto simp: execute_def io_bind_def io_attempt_def io_return_def)
    with step1 Inr show ?thesis by (auto simp: after_complete_def)
  next
    case (Inl e)
    obtain res' w3 where rec:
      "fail_schedule (j_schedule_id j) (wk_id wk) (error_text drv e) t w2 = (res', w3)"
      by fastforce
    with run now comp Inl have r: "r = Inr ()" "w' = w3"
      by (auto simp: execute_def io_bind_def io_attempt_def io_return_def)
    from step1 Inl have "sys_step ident s (move w2 p (Recording j (error_text drv e) js) s)"
      by (simp add: after_complete_def)
    moreover have "sys_step ident (move w2 p (Recording j (error_text drv e) js) s)
        (move w3 p (Working js) (move w2 p (Recording j (error_text drv e) js) s))"
      using rec id by (intro sys_step.Record [where w = w2]) auto
    ultimately show ?thesis using r by auto
  qed
qed

lemma execute_all_steps:
  assumes "io_each (execute drv wk) jobs w = (r, w')" "ident p = wk_id wk"
    "tables w = sys_db s" "sys_pos s p = Working jobs"
  shows "r = Inr () \<and> (sys_step ident)\<^sup>*\<^sup>* s (move w' p (Working []) s)"
  using assms
proof (induction jobs arbitrary: w s)
  case Nil
  then show ?case by (auto simp: io_return_def move_id)
next
  case (Cons j jobs)
  obtain r1 w1 where run: "execute drv wk j w = (r1, w1)" by fastforce
  with Cons.prems execute_steps [OF run, of ident p s jobs] have
    r1: "r1 = Inr ()" and steps: "(sys_step ident)\<^sup>*\<^sup>* s (move w1 p (Working jobs) s)"
    by simp_all
  with run Cons.prems have "io_each (execute drv wk) jobs w1 = (r, w')"
    by (simp add: io_bind_def)
  from Cons.IH [OF this Cons.prems(2), of "move w1 p (Working jobs) s"]
  have "r = Inr ()"
    and "(sys_step ident)\<^sup>*\<^sup>* (move w1 p (Working jobs) s) (move w' p (Working []) s)"
    by simp_all
  with steps show ?case by (metis rtranclp_trans)
qed

text \<open>A tick of the worker, whatever fails in it, is a sequence of steps of its process, and it
  always comes back with the counter incremented.\<close>

lemma tick_steps:
  assumes run: "tick drv pl wk w = (r, w')" and id: "ident p = wk_id wk" and pl: "planner_ok pl"
    and s: "tables w = sys_db s" "sys_pos s p = Working []"
  shows "r = Inr (count_tick wk) \<and> (sys_step ident)\<^sup>*\<^sup>* s (move w' p (Working []) s)"
proof -
  obtain t w1 where now: "now_millis w = (Inr t, w1)" and w1: "tables w1 = tables w"
    by (cases "now_millis w")
      (auto simp: now_millis_def io_bind_def clk_now_def io_return_def split: list.splits)
  obtain t2 w2 where now2: "clk_now w1 = (Inr t2, w2)" and w2: "tables w2 = tables w"
    using w1 by (cases "clk_now w1") (auto simp: clk_now_def split: list.splits)
  obtain res w3 where claim: "claim_due_schedules pl (wk_id wk) t
      (to_millis (time_add t2 (wk_lease wk))) (wk_batch wk) w2 = (res, w3)"
    by fastforce
  have step1: "sys_step ident s (move w3 p (after_claim res) s)"
    using claim s w2 id pl by (intro sys_step.Claim [where w = w2]) auto
  show ?thesis
  proof (cases "\<exists>jobs. res = Inr jobs \<and> jobs \<noteq> []")
    case False
    then have "after_claim res = Working []"
      by (auto simp: after_claim_def split: sum.split)
    moreover have "r = Inr (count_tick wk)" "w' = w3"
      using run now now2 claim False
      by (auto simp: tick_def io_bind_def io_attempt_def io_return_def split: sum.splits if_splits)
    ultimately show ?thesis using step1 by auto
  next
    case True
    then obtain jobs where jobs: "res = Inr jobs" "jobs \<noteq> []" by blast
    obtain r4 w4 where each: "io_each (execute drv wk) jobs w3 = (r4, w4)" by fastforce
    have r4: "r4 = Inr ()" and steps:
      "(sys_step ident)\<^sup>*\<^sup>* (move w3 p (Working jobs) s) (move w4 p (Working []) s)"
      using execute_all_steps [OF each, of ident p "move w3 p (Working jobs) s"] id by simp_all
    have "r = Inr (count_tick wk)" "w' = w4"
      using run now now2 claim jobs each r4
      by (auto simp: tick_def io_bind_def io_attempt_def io_return_def)
    moreover have "sys_step ident s (move w3 p (Working jobs) s)"
      using step1 jobs by (simp add: after_claim_def)
    ultimately show ?thesis
      using steps by (metis converse_rtranclp_into_rtranclp)
  qed
qed

lemma shutdown_steps:
  assumes run: "shutdown wk w = (r, w')" and id: "ident p = wk_id wk"
    and s: "tables w = sys_db s" "sys_pos s p = Working []"
  shows "r = Inr () \<and> (sys_step ident)\<^sup>*\<^sup>* s (move w' p (Working []) s)"
proof -
  obtain t w1 where now: "now_millis w = (Inr t, w1)" and w1: "tables w1 = tables w"
    by (cases "now_millis w")
      (auto simp: now_millis_def io_bind_def clk_now_def io_return_def split: list.splits)
  obtain res w2 where rel: "release_claims (wk_id wk) t w1 = (res, w2)" by fastforce
  have "sys_step ident s (move w2 p (Working []) s)"
    using rel s w1 id by (intro sys_step.Shutdown [where w = w1]) auto
  moreover have "r = Inr ()" "w' = w2"
    using run now rel by (auto simp: shutdown_def io_bind_def io_attempt_def io_return_def)
  ultimately show ?thesis by auto
qed

text \<open>The whole loop of a worker, over any sequence of wake-ups.\<close>

lemma worker_run_steps:
  assumes "worker_run drv pl wk ws w = (r, w')" "ident p = wk_id wk" "planner_ok pl"
    "tables w = sys_db s" "sys_pos s p = Working []"
  shows "(\<exists>out. r = Inr out) \<and> (sys_step ident)\<^sup>*\<^sup>* s (move w' p (Working []) s)"
  using assms
proof (induction drv pl wk ws arbitrary: w s rule: worker_run.induct)
  case (1 drv pl wk)
  then show ?case by (auto simp: io_return_def move_id)
next
  case (2 drv pl wk ws)
  obtain r1 w1 where run: "shutdown wk w = (r1, w1)" by fastforce
  note sh = shutdown_steps [of wk w r1 w1 ident p s, OF run 2(2,4,5)]
  with run 2(1) show ?case
    by (auto simp: io_bind_def io_return_def)
next
  case (3 drv pl wk ws)
  obtain r1 w1 where run: "tick drv pl wk w = (r1, w1)" by fastforce
  note tk = tick_steps [of drv pl wk w r1 w1 ident p s, OF run 3(3,4,5,6)]
  with run 3(2) have rest: "worker_run drv pl (count_tick wk) ws w1 = (r, w')"
    by (simp add: io_bind_def)
  have "ident p = wk_id (count_tick wk)" using 3(3) by (simp add: count_tick_def)
  from 3(1) [OF rest this 3(4), of "move w1 p (Working []) s"] tk show ?case
    by (auto intro: rtranclp_trans)
qed

text \<open>A service call is reads and at most one request.\<close>

definition as_request :: "'a io \<Rightarrow> bool" where
  "as_request m \<longleftrightarrow> (\<forall>w r w'. m w = (r, w') \<longrightarrow>
     tables w' = tables w \<or>
     (\<exists>q w1. tables w1 = tables w \<and> tables (snd (run_request q w1)) = tables w'))"

lemma as_request_readonly: "readonly m \<Longrightarrow> as_request m"
  by (auto simp: as_request_def dest: readonlyD)

lemma as_request_throw: "as_request (io_throw e)"
  by (rule as_request_readonly) (rule readonly_throw)

lemma as_request_bind:
  assumes "readonly m" "\<And>x. as_request (k x)"
  shows "as_request (io_bind m k)"
  unfolding as_request_def
proof (intro allI impI)
  fix w r w' assume run: "io_bind m k w = (r, w')"
  obtain r1 w1 where m: "m w = (r1, w1)" by fastforce
  then have w1: "tables w1 = tables w" using assms(1) by (blast dest: readonlyD)
  show "tables w' = tables w \<or>
     (\<exists>q w1. tables w1 = tables w \<and> tables (snd (run_request q w1)) = tables w')"
  proof (cases r1)
    case (Inl e)
    with run m w1 show ?thesis by (simp add: io_bind_def)
  next
    case (Inr x)
    with run m have "k x w1 = (r, w')" by (simp add: io_bind_def)
    with assms(2) [of x] w1 show ?thesis
      unfolding as_request_def by metis
  qed
qed

lemma snd_io_ignore: "snd (io_ignore m w) = snd (m w)"
  by (auto simp: io_ignore_def io_bind_def io_return_def split: prod.split sum.split)

lemma as_request_run:
  "(\<And>w. snd (run_request q w) = snd (m w)) \<Longrightarrow> as_request m"
  unfolding as_request_def by (metis snd_conv)

lemma as_request_store:
  "as_request (create_content cid slug f actor now)"
  "as_request (update_content cid expected f actor now)"
  "as_request (publish \<lparr>pp_content_id = cid, pp_version_id = vid, pp_source = SourceManual,
                 pp_actor = actor, pp_schedule_id = None, pp_now = now\<rparr>)"
  "as_request (unpublish cid actor now)"
  "as_request (create_schedule sid cid vid run_at now)"
  "as_request (cancel_schedule sid now)"
  by (rule as_request_run [of "CreateRequest cid slug f actor now"]
        as_request_run [of "UpdateRequest cid expected f actor now"]
        as_request_run [of "PublishRequest cid vid actor now"]
        as_request_run [of "UnpublishRequest cid actor now"]
        as_request_run [of "ScheduleRequest sid cid vid run_at now"]
        as_request_run [of "CancelRequest sid now"]; simp add: snd_io_ignore)+

lemma as_request_service:
  "as_request (service_create uuid i)"
  "as_request (service_update ui)"
  "as_request (service_publish cid ver actor)"
  "as_request (service_unpublish cid actor)"
  "as_request (service_schedule uuid si)"
  "as_request (service_cancel_schedule sid)"
  by (auto simp: service_create_def service_update_def service_publish_def service_unpublish_def
      service_schedule_def service_cancel_schedule_def Let_def
      intro!: as_request_bind as_request_store as_request_throw readonly_intros
      split: option.split)

lemma as_request_steps:
  assumes "as_request m" "m w = (r, w')" "tables w = sys_db s"
  shows "(sys_step ident)\<^sup>*\<^sup>* s (s\<lparr>sys_db := tables w'\<rparr>)"
proof (cases "tables w' = tables w")
  case True
  with assms(3) show ?thesis by simp
next
  case False
  with assms(1,2) obtain q w1 where "tables w1 = tables w" "tables (snd (run_request q w1)) = tables w'"
    unfolding as_request_def by blast
  then show ?thesis
    using assms(3) sys_step.Request [of w1 s q "fst (run_request q w1)" "snd (run_request q w1)" ident]
    by auto
qed

end
