(* ===== verification/Abstraction.thy ===== *)
theory Abstraction
  imports System
begin

text \<open>
  What the service promises of documents, free of rows and ids: a document is a slug, the list of
  the field sets ever saved, and the number of the version readers see. The specification of each
  operation works on that view; the theories of the store implement it, which is stated as a
  simulation and lifted to every sequence of operations.
\<close>

section \<open>The specification\<close>

record doc =
  doc_slug :: string
  doc_history :: "version_fields list"
  doc_live :: "int option"

record docs =
  docs_by_id :: "string \<Rightarrow> doc option"
  docs_by_slug :: "string \<Rightarrow> string option"

datatype doc_op =
    CreateOp string create_input
  | UpdateOp update_input
  | PublishOp string int64 string
  | UnpublishOp string string

definition put_doc :: "string \<Rightarrow> doc \<Rightarrow> docs \<Rightarrow> docs" where
  "put_doc cid x m = m\<lparr>docs_by_id := (docs_by_id m)(cid \<mapsto> x)\<rparr>"

definition spec_create :: "string \<Rightarrow> create_input \<Rightarrow> docs \<Rightarrow> go_error option \<times> docs" where
  "spec_create uuid i m =
     (let slug = trim_space (ci_slug i) in
      case validate_slug slug of
        Some e \<Rightarrow> (Some e, m)
      | None \<Rightarrow>
          (case normalize_fields (ci_fields i) of
             Inl e \<Rightarrow> (Some e, m)
           | Inr f \<Rightarrow>
               if docs_by_id m uuid \<noteq> None \<or> docs_by_slug m slug \<noteq> None then (Some ErrSlugTaken, m)
               else (None, (put_doc uuid \<lparr>doc_slug = slug, doc_history = [f], doc_live = None\<rparr> m)
                      \<lparr>docs_by_slug := (docs_by_slug m)(slug \<mapsto> uuid)\<rparr>)))"

definition spec_update :: "update_input \<Rightarrow> docs \<Rightarrow> go_error option \<times> docs" where
  "spec_update i m =
     (case normalize_fields (ui_fields i) of
        Inl e \<Rightarrow> (Some e, m)
      | Inr f \<Rightarrow>
          (case docs_by_id m (ui_id i) of
             None \<Rightarrow> (Some ErrNotFound, m)
           | Some x \<Rightarrow>
               if int (length (doc_history x)) = ui_expected_version i
               then (None, put_doc (ui_id i) (x\<lparr>doc_history := doc_history x @ [f]\<rparr>) m)
               else (Some ErrVersionConflict, m)))"

definition spec_publish :: "string \<Rightarrow> int64 \<Rightarrow> docs \<Rightarrow> go_error option \<times> docs" where
  "spec_publish cid ver m =
     (case docs_by_id m cid of
        None \<Rightarrow> (Some ErrNotFound, m)
      | Some x \<Rightarrow>
          if 1 \<le> ver \<and> ver \<le> int (length (doc_history x))
          then (None, put_doc cid (x\<lparr>doc_live := Some ver\<rparr>) m)
          else (Some ErrNotFound, m))"

definition spec_unpublish :: "string \<Rightarrow> docs \<Rightarrow> go_error option \<times> docs" where
  "spec_unpublish cid m =
     (case docs_by_id m cid of
        None \<Rightarrow> (Some ErrNotFound, m)
      | Some x \<Rightarrow> (None, put_doc cid (x\<lparr>doc_live := None\<rparr>) m))"

fun spec_op :: "doc_op \<Rightarrow> docs \<Rightarrow> go_error option \<times> docs" where
  "spec_op (CreateOp uuid i) m = spec_create uuid i m"
| "spec_op (UpdateOp i) m = spec_update i m"
| "spec_op (PublishOp cid ver actor) m = spec_publish cid ver m"
| "spec_op (UnpublishOp cid actor) m = spec_unpublish cid m"

text \<open>What a reader sees under a slug.\<close>

definition spec_public :: "string \<Rightarrow> docs \<Rightarrow> version_fields option" where
  "spec_public slug m =
     (case docs_by_slug m slug of
        None \<Rightarrow> None
      | Some cid \<Rightarrow>
          (case docs_by_id m cid of
             None \<Rightarrow> None
           | Some x \<Rightarrow> map_option (\<lambda>n. doc_history x ! nat (n - 1)) (doc_live x)))"

section \<open>The view of the tables\<close>

definition live_version :: "db \<Rightarrow> content_row \<Rightarrow> int option" where
  "live_version d c =
     (case c_published_version_id c of
        None \<Rightarrow> None
      | Some vid \<Rightarrow> map_option v_version (find_version d vid))"

definition doc_of :: "db \<Rightarrow> content_row \<Rightarrow> doc" where
  "doc_of d c =
     \<lparr>doc_slug = c_slug c, doc_history = map v_fields (history d (c_id c)),
      doc_live = live_version d c\<rparr>"

definition docs_of :: "db \<Rightarrow> docs" where
  "docs_of d =
     \<lparr>docs_by_id = (\<lambda>cid. map_option (doc_of d) (find_content d cid)),
      docs_by_slug = (\<lambda>slug. map_option c_id (row_with c_slug slug (contents d)))\<rparr>"

definition outcome :: "'a io \<Rightarrow> world \<Rightarrow> go_error option \<times> world" where
  "outcome m w = (case m w of (Inl e, w') \<Rightarrow> (Some e, w') | (Inr x, w') \<Rightarrow> (None, w'))"

fun run_op :: "doc_op \<Rightarrow> world \<Rightarrow> go_error option \<times> world" where
  "run_op (CreateOp uuid i) w = outcome (service_create uuid i) w"
| "run_op (UpdateOp i) w = outcome (service_update i) w"
| "run_op (PublishOp cid ver actor) w = outcome (service_publish cid ver actor) w"
| "run_op (UnpublishOp cid actor) w = outcome (service_unpublish cid actor) w"

text \<open>No driver failures, and room for \<open>n\<close> more rows and versions in the 64-bit counters.\<close>

definition ready :: "nat \<Rightarrow> world \<Rightarrow> bool" where
  "ready n w \<longleftrightarrow> db_ok (tables w) \<and> faults w = [] \<and> int n < max_rowid \<and>
     version_seq (tables w) + int n \<le> max_rowid \<and> event_seq (tables w) + int n \<le> max_rowid \<and>
     (\<forall>c \<in> set (contents (tables w)). c_current_version c + int n \<le> max_rowid)"

section \<open>The operations without driver failures\<close>

lemma now_millis_runs:
  obtains t w1 where "now_millis w = (Inr t, w1)" "tables w1 = tables w" "faults w1 = faults w"
    "t = to_millis (clock_now w)"
  by (cases "now_millis w")
    (auto simp: now_millis_def io_bind_def clk_now_def io_return_def split: list.splits)

lemma insert_version_nofault:
  assumes "faults w = []" "version_seq (tables w) < max_rowid" "cid \<in> c_id ` set (contents (tables w))"
    "(cid, ver) \<notin> (\<lambda>r. (v_content_id r, v_version r)) ` set (versions (tables w))"
  shows "insert_version cid ver f actor now w =
    (Inr (version_seq (tables w) + 1), w\<lparr>tables := append_version cid ver f actor now (tables w)\<rparr>)"
proof -
  have "insert_version_row
      \<lparr>v_id = 0, v_content_id = cid, v_version = ver, v_created_by = actor,
       v_created_at = now, v_fields = f\<rparr> (tables w)
    = Inr (version_seq (tables w) + 1, append_version cid ver f actor now (tables w))"
    using assms by (simp add: row_simps append_version_def new_version_def)
  with assms(1) show ?thesis
    by (simp add: insert_version_def io_bind_def map_err_def io_catch_def sql_stmt_nofault
        driver_call_nofault)
qed

lemma get_content_tx_nofault:
  assumes "faults w = []" "db_ok (tables w)"
  shows "get_content_tx cid w =
    (case find_content (tables w) cid of None \<Rightarrow> Inl ErrNotFound | Some c \<Rightarrow> Inr c, w)"
proof -
  have "in_int64 (c_current_version c)" if "find_content (tables w) cid = Some c" for c
    using that assms(2) by (auto simp: db_ok_find_content db_ok_def contents_ok_def)
  with assms(1) show ?thesis
    by (auto simp: get_content_tx_def map_err_def io_catch_def io_bind_def query_row_nofault
        io_throw_def no_rows_to_def scan_content_def io_return_def split: option.split)
qed

lemma create_nofault:
  assumes "faults w = []" "db_ok (tables w)" "version_seq (tables w) < max_rowid"
  shows "outcome (create_content cid slug f actor now) w =
    (if cid \<in> c_id ` set (contents (tables w)) \<or> slug \<in> c_slug ` set (contents (tables w))
     then (Some ErrSlugTaken, w)
     else (None, w\<lparr>tables := append_version cid 1 f actor now
       ((tables w)\<lparr>contents := contents (tables w) @ [new_content cid slug now]\<rparr>)\<rparr>))"
proof (cases "cid \<in> c_id ` set (contents (tables w)) \<or> slug \<in> c_slug ` set (contents (tables w))")
  case True
  then show ?thesis
    using assms(1)
    by (auto simp: outcome_def create_content_def db_tx_def io_bind_def map_err_def io_catch_def
        io_throw_def driver_call_nofault sql_stmt_nofault insert_content_def)
next
  case False
  let ?d1 = "(tables w)\<lparr>contents := contents (tables w) @ [new_content cid slug now]\<rparr>"
  have "(cid, 1) \<notin> (\<lambda>r. (v_content_id r, v_version r)) ` set (versions (tables w))"
    using False assms(2) by (auto simp: db_ok_def version_keys_ok_def)
  then have "insert_version cid 1 f actor now (w\<lparr>tables := ?d1\<rparr>) =
    (Inr (version_seq (tables w) + 1), w\<lparr>tables := append_version cid 1 f actor now ?d1\<rparr>)"
    using insert_version_nofault [of "w\<lparr>tables := ?d1\<rparr>" cid 1 f actor now] assms by simp
  moreover have "insert_content (new_content cid slug now) (tables w) = Inr ((), ?d1)"
    using False by (simp add: row_simps version_fk_def)
  ultimately show ?thesis
    using False assms(1)
    by (simp add: outcome_def create_content_def db_tx_def io_bind_def map_err_def io_catch_def
        driver_call_nofault sql_stmt_nofault new_content_def io_return_def)
qed

lemma history_fresh:
  assumes "db_ok d" "find_content d cid = Some c" "c_current_version c < ver"
  shows "(cid, ver) \<notin> (\<lambda>r. (v_content_id r, v_version r)) ` set (versions d)"
proof
  assume "(cid, ver) \<in> (\<lambda>r. (v_content_id r, v_version r)) ` set (versions d)"
  then obtain v where "v \<in> set (versions d)" "v_content_id v = cid" "v_version v = ver" by auto
  with version_number_range [OF assms(1), of v c] assms(2,3) show False by simp
qed

lemma bump_version_none:
  "filter (\<lambda>c. c_id c = cid \<and> c_current_version c = expected) (contents d) = [] \<Longrightarrow>
   bump_version cid expected now d = d"
  unfolding bump_version_def by (subst update_where_none) (auto simp: filter_empty_conv)

lemma update_contents_bump:
  "update_contents (\<lambda>c. c_id c = cid \<and> c_current_version c = expected)
      (\<lambda>c. c\<lparr>c_current_version := c_current_version c + 1, c_updated_at := now\<rparr>) d =
   Inr (length (filter (\<lambda>c. c_id c = cid \<and> c_current_version c = expected) (contents d)),
        bump_version cid expected now d)"
  by (simp add: row_simps bump_version_def)

lemma content_rows:
  assumes "db_ok d"
  shows "filter (\<lambda>c. c_id c = cid) (contents d) =
    (case find_content d cid of None \<Rightarrow> [] | Some c \<Rightarrow> [c])"
  using assms filter_key_unique [of c_id "contents d" cid] filter_key_none [of c_id cid "contents d"]
  by (auto simp: find_content_def db_ok_def contents_ok_def split: option.split)

lemma content_rows_at:
  assumes "db_ok d"
  shows "filter (\<lambda>c. c_id c = cid \<and> c_current_version c = expected) (contents d) =
    (case find_content d cid of None \<Rightarrow> []
     | Some c \<Rightarrow> if c_current_version c = expected then [c] else [])"
proof -
  have "filter (\<lambda>c. c_id c = cid \<and> c_current_version c = expected) (contents d) =
      filter (\<lambda>c. c_current_version c = expected) (filter (\<lambda>c. c_id c = cid) (contents d))"
    by (simp add: conj_commute)
  then show ?thesis by (simp add: content_rows [OF assms] split: option.split)
qed

text \<open>An update with a stale token, or of no document, fails and changes nothing.\<close>

lemma update_miss_nofault:
  assumes nf: "faults w = []" and ok: "db_ok (tables w)"
    and miss: "\<And>c. find_content (tables w) cid = Some c \<Longrightarrow> c_current_version c \<noteq> expected"
  shows "update_content cid expected f actor now w =
    (Inl (if find_content (tables w) cid = None then ErrNotFound else ErrVersionConflict), w)"
proof -
  let ?d = "tables w"
  have none: "filter (\<lambda>c. c_id c = cid \<and> c_current_version c = expected) (contents ?d) = []"
    using miss by (simp add: content_rows_at [OF ok] split: option.split)
  show ?thesis
    using nf none update_contents_bump [of cid expected now ?d] bump_version_none [OF none]
      content_rows [OF ok, of cid]
    by (cases "find_content ?d cid")
      (simp_all add: update_content_def db_tx_def io_bind_def map_err_def io_catch_def
        driver_call_nofault sql_stmt_nofault sql_query_nofault io_throw_def)
qed

text \<open>The two steps of an update after its counter was advanced: the new row, and the reading back.\<close>

lemma insert_bumped:
  assumes "faults w = []" "db_ok (tables w)" "version_seq (tables w) < max_rowid"
    and Some: "find_content (tables w) cid = Some c" and range: "in_int64 (c_current_version c + 1)"
  shows "insert_version cid (wrap64 (c_current_version c + 1)) f actor now
      (w\<lparr>tables := bump_version cid (c_current_version c) now (tables w)\<rparr>) =
    (Inr (version_seq (tables w) + 1),
     w\<lparr>tables := append_version cid (c_current_version c + 1) f actor now
       (bump_version cid (c_current_version c) now (tables w))\<rparr>)"
proof -
  let ?d = "tables w" and ?ver = "c_current_version c + 1"
  let ?d1 = "bump_version cid (c_current_version c) now (tables w)"
  have "map c_id (contents ?d1) = map c_id (contents ?d)"
    by (simp add: bump_version_def map_update_where)
  then have "c_id ` set (contents ?d1) = c_id ` set (contents ?d)"
    by (metis list.set_map)
  then have "cid \<in> c_id ` set (contents ?d1)"
    using find_content_in [OF Some] find_content_id [OF Some] by auto
  moreover have "(cid, ?ver) \<notin> (\<lambda>r. (v_content_id r, v_version r)) ` set (versions ?d1)"
    using history_fresh [OF assms(2) Some] by simp
  ultimately show ?thesis
    using insert_version_nofault [of "w\<lparr>tables := ?d1\<rparr>" cid ?ver f actor now] assms(1,3)
      wrap64_id [OF range] by simp
qed

lemma read_bumped:
  fixes f actor now
  assumes "faults w = []" "db_ok (tables w)"
    and Some: "find_content (tables w) cid = Some c" and range: "in_int64 (c_current_version c + 1)"
  defines "d \<equiv> append_version cid (c_current_version c + 1) f actor now
    (bump_version cid (c_current_version c) now (tables w))"
  shows "get_content_tx cid (w\<lparr>tables := d\<rparr>) =
    (Inr (c\<lparr>c_current_version := c_current_version c + 1, c_updated_at := now\<rparr>), w\<lparr>tables := d\<rparr>)"
proof -
  have c: "c \<in> set (contents (tables w))" "c_id c = cid"
    using Some by (simp_all add: find_content_in find_content_id)
  have "db_ok d"
    unfolding d_def by (rule db_ok_update [OF assms(2) c refl range])
  moreover have "find_content d cid =
      Some (c\<lparr>c_current_version := c_current_version c + 1, c_updated_at := now\<rparr>)"
    using Some c(2) by (simp add: d_def find_content_def bump_version_def row_with_update_where)
  ultimately show ?thesis using assms(1) by (simp add: get_content_tx_nofault)
qed

lemma update_nofault:
  assumes nf: "faults w = []" and ok: "db_ok (tables w)" and seq: "version_seq (tables w) < max_rowid"
    and tok: "\<forall>c \<in> set (contents (tables w)). c_current_version c < max_rowid"
  shows "outcome (update_content cid expected f actor now) w =
    (case find_content (tables w) cid of
       None \<Rightarrow> (Some ErrNotFound, w)
     | Some c \<Rightarrow>
         if c_current_version c = expected
         then (None, w\<lparr>tables := append_version cid (expected + 1) f actor now
                       (bump_version cid expected now (tables w))\<rparr>)
         else (Some ErrVersionConflict, w))"
proof (cases "\<exists>c. find_content (tables w) cid = Some c \<and> c_current_version c = expected")
  case False
  with update_miss_nofault [OF nf ok, of cid expected f actor now] show ?thesis
    by (auto simp: outcome_def split: option.split)
next
  case True
  then obtain c where Some: "find_content (tables w) cid = Some c" and cur: "c_current_version c = expected"
    by blast
  have "length (filter (\<lambda>c. c_id c = cid \<and> c_current_version c = expected) (contents (tables w))) = 1"
    using Some cur by (simp add: content_rows_at [OF ok])
  moreover have range: "in_int64 (c_current_version c + 1)"
    using tok find_content_in [OF Some] ok
    by (force simp: db_ok_def contents_ok_def in_int64_def max_rowid_def)
  ultimately show ?thesis
    using update_contents_bump [of cid expected now "tables w"] nf Some cur
      insert_bumped [OF nf ok seq Some range, of f actor now]
      read_bumped [OF nf ok Some range, of f actor now]
    by (simp add: outcome_def update_content_def db_tx_def io_bind_def map_err_def io_catch_def
        driver_call_nofault sql_stmt_nofault Let_def io_return_def)
qed

lemma get_version_nofault:
  assumes nf: "faults w = []"
  shows "get_version cid ver w =
    (case first_row (filter (\<lambda>v. v_version v = ver) (history (tables w) cid)) of
       None \<Rightarrow> Inl ErrNotFound | Some v \<Rightarrow> Inr v, w)"
  using nf
  by (auto simp: get_version_def map_err_def io_catch_def query_row_nofault io_throw_def
      no_rows_to_def split: option.split)

definition manual_publish :: "string \<Rightarrow> int64 \<Rightarrow> string \<Rightarrow> int64 \<Rightarrow> publish_params" where
  "manual_publish cid vid actor now =
     \<lparr>pp_content_id = cid, pp_version_id = vid, pp_source = SourceManual, pp_actor = actor,
      pp_schedule_id = None, pp_now = now\<rparr>"

lemma manual_publish_sel [simp]:
  "pp_content_id (manual_publish cid vid actor now) = cid"
  "pp_version_id (manual_publish cid vid actor now) = vid"
  "pp_schedule_id (manual_publish cid vid actor now) = None"
  "pp_now (manual_publish cid vid actor now) = now"
  by (simp_all add: manual_publish_def)

lemma insert_event_nofault:
  assumes "faults w = []" "event_seq (tables w) < max_rowid" "e_schedule_id e = None"
    "e_content_id e \<in> c_id ` set (contents (tables w))" "version_fk (e_version_id e) (tables w)"
  shows "insert_event_tx e w = (Inr (), w\<lparr>tables := append_event e (tables w)\<rparr>)"
proof -
  have "insert_event e (tables w) = Inr (event_seq (tables w) + 1, append_event e (tables w))"
    using assms by (simp add: row_simps append_event_def)
  with assms(1) show ?thesis
    by (simp add: insert_event_tx_def map_err_def io_catch_def io_bind_def io_return_def
        sql_stmt_nofault)
qed

lemma version_fk_set_pointer [simp]: "version_fk ref (set_pointer cid ptr now d) = version_fk ref d"
  by (cases ref) (simp_all add: version_fk_def)

lemma pointer_move_nofault:
  fixes now
  assumes nf: "faults w = []" and ok: "db_ok (tables w)" and c: "find_content (tables w) cid = Some c"
    and ptr: "version_fk ptr (tables w)"
  shows "map_err g (sql_stmt (update_contents (\<lambda>c. c_id c = cid)
      (\<lambda>c. c\<lparr>c_published_version_id := ptr,
             c_published_at := (if ptr = None then None else Some now), c_updated_at := now\<rparr>))) w =
    (Inr 1, w\<lparr>tables := set_pointer cid ptr now (tables w)\<rparr>)"
proof -
  have ids: "distinct (map c_id (contents (tables w)))"
    using ok by (simp add: db_ok_def contents_ok_def)
  have "filter (\<lambda>c. c_id c = cid) (contents (tables w)) = [c]"
    using filter_key_unique [OF ids] c by (simp add: find_content_def)
  then have "update_contents (\<lambda>c. c_id c = cid)
      (\<lambda>c. c\<lparr>c_published_version_id := ptr,
             c_published_at := (if ptr = None then None else Some now), c_updated_at := now\<rparr>) (tables w)
     = Inr (1, set_pointer cid ptr now (tables w))"
    using ptr by (simp add: row_simps set_pointer_def)
  with nf show ?thesis by (simp add: map_err_def io_catch_def sql_stmt_nofault)
qed

lemma map_err_driver_call: "faults w = [] \<Longrightarrow> map_err g (driver_call x) w = (Inr x, w)"
  by (simp add: map_err_def io_catch_def driver_call_nofault)

lemma find_moved:
  fixes now
  assumes "db_ok (append_event e (set_pointer cid ptr now d))" "find_content d cid = Some c"
    "faults w = []"
  shows "get_content_tx cid (w\<lparr>tables := append_event e (set_pointer cid ptr now d)\<rparr>) =
    (Inr (c\<lparr>c_published_version_id := ptr,
            c_published_at := (if ptr = None then None else Some now), c_updated_at := now\<rparr>),
     w\<lparr>tables := append_event e (set_pointer cid ptr now d)\<rparr>)"
  using assms by (simp add: get_content_tx_nofault find_content_set_pointer)

lemma publish_nofault:
  fixes now
  assumes nf: "faults w = []" and ok: "db_ok (tables w)" and seq: "event_seq (tables w) < max_rowid"
    and v: "v \<in> set (history (tables w) cid)" and c: "find_content (tables w) cid = Some c"
  shows "outcome (publish (manual_publish cid (v_id v) actor now)) w =
    (None, if c_published_version_id c = Some (v_id v) then w
           else w\<lparr>tables := append_event (publish_event (manual_publish cid (v_id v) actor now))
                  (set_pointer cid (Some (v_id v)) now (tables w))\<rparr>)"
proof -
  let ?p = "manual_publish cid (v_id v) actor now"
  let ?d1 = "set_pointer cid (Some (v_id v)) now (tables w)"
  have own: "owns (tables w) (v_id v) cid"
    using v by (auto simp: owns_def history_def)
  then have owner: "version_owner (v_id v) (tables w) = Some cid"
    using ok by (simp add: version_owner_owns)
  have cid: "cid \<in> c_id ` set (contents (tables w))"
    using c by (auto simp: find_content_in dest: find_content_id)
  have e: "e_content_id (publish_event ?p) = cid" "e_version_id (publish_event ?p) = Some (v_id v)"
    "e_schedule_id (publish_event ?p) = None" "e_action (publish_event ?p) = ActionPublish"
    by (simp_all add: publish_event_def)
  have "db_ok (append_event (publish_event ?p) ?d1)"
    by (rule db_ok_pointer_move [OF ok cid]) (use own e in simp_all)
  note get = find_moved [OF this c nf]
  have upd: "map_err g (sql_stmt (update_contents (\<lambda>c. c_id c = cid)
      (\<lambda>c. c\<lparr>c_published_version_id := Some (v_id v), c_published_at := Some now,
             c_updated_at := now\<rparr>))) w = (Inr 1, w\<lparr>tables := ?d1\<rparr>)" for g
    using pointer_move_nofault [OF nf ok c owns_version_fk [OF own]] by simp
  have ev: "insert_event_tx (publish_event ?p) (w\<lparr>tables := ?d1\<rparr>) =
      (Inr (), w\<lparr>tables := append_event (publish_event ?p) ?d1\<rparr>)"
    using insert_event_nofault [of "w\<lparr>tables := ?d1\<rparr>" "publish_event ?p"] nf seq e cid
      owns_version_fk [OF own] by simp
  have rd: "get_content_tx cid w = (Inr c, w)"
    using nf ok c by (simp add: get_content_tx_nofault)
  have ow: "map_err g (query_row (version_owner (v_id v))) w = (Inr cid, w)" for g
    using nf owner by (simp add: map_err_def io_catch_def query_row_nofault)
  show ?thesis
  proof (cases "c_published_version_id c = Some (v_id v)")
    case True
    with nf show ?thesis
      by (simp add: outcome_def publish_def db_tx_def io_bind_def rd ow map_err_driver_call
          io_return_def)
  next
    case False
    with nf show ?thesis
      by (simp add: outcome_def publish_def db_tx_def io_bind_def rd ow upd ev get
          map_err_driver_call)
  qed
qed

definition unpublish_event :: "string \<Rightarrow> content_row \<Rightarrow> string \<Rightarrow> int64 \<Rightarrow> event_row" where
  "unpublish_event cid c actor now =
     \<lparr>e_id = 0, e_content_id = cid, e_version_id = c_published_version_id c,
      e_action = ActionUnpublish, e_source = SourceManual, e_schedule_id = None,
      e_actor = actor, e_occurred_at = now\<rparr>"

text \<open>The writes of an unpublish that finds its document published.\<close>

lemma unpublish_writes:
  fixes actor now
  assumes nf: "faults w = []" and ok: "db_ok (tables w)" and seq: "event_seq (tables w) < max_rowid"
    and c: "find_content (tables w) cid = Some c"
  defines "e \<equiv> unpublish_event cid c actor now" and "d1 \<equiv> set_pointer cid None now (tables w)"
  shows "map_err g (sql_stmt (update_contents (\<lambda>c. c_id c = cid)
      (\<lambda>c. c\<lparr>c_published_version_id := None, c_published_at := None,
             c_updated_at := now\<rparr>))) w = (Inr 1, w\<lparr>tables := d1\<rparr>)"
    and "insert_event_tx e (w\<lparr>tables := d1\<rparr>) = (Inr (), w\<lparr>tables := append_event e d1\<rparr>)"
    and "db_ok (append_event e d1)"
proof -
  have own: "owns (tables w) vid cid" if "c_published_version_id c = Some vid" for vid
    using that find_content_in [OF c] find_content_id [OF c] ok by (auto simp: db_ok_def pointers_ok_def)
  have cid: "cid \<in> c_id ` set (contents (tables w))"
    using find_content_in [OF c] find_content_id [OF c] by auto
  have fk: "version_fk (c_published_version_id c) (tables w)"
    using own by (cases "c_published_version_id c") (auto simp: version_fk_def owns_def)
  show "map_err g (sql_stmt (update_contents (\<lambda>c. c_id c = cid)
      (\<lambda>c. c\<lparr>c_published_version_id := None, c_published_at := None,
             c_updated_at := now\<rparr>))) w = (Inr 1, w\<lparr>tables := d1\<rparr>)"
    using pointer_move_nofault [OF nf ok c, of None] by (simp add: version_fk_def d1_def)
  show "insert_event_tx e (w\<lparr>tables := d1\<rparr>) = (Inr (), w\<lparr>tables := append_event e d1\<rparr>)"
    using insert_event_nofault [of "w\<lparr>tables := d1\<rparr>" e] nf seq cid fk
    by (simp add: d1_def e_def unpublish_event_def)
  show "db_ok (append_event e d1)"
    unfolding d1_def by (rule db_ok_pointer_move [OF ok cid]) (use own in \<open>simp_all add: e_def unpublish_event_def\<close>)
qed

lemma unpublish_nofault:
  fixes now
  assumes nf: "faults w = []" and ok: "db_ok (tables w)" and seq: "event_seq (tables w) < max_rowid"
  shows "\<exists>e. outcome (unpublish cid actor now) w =
    (case find_content (tables w) cid of
       None \<Rightarrow> (Some ErrNotFound, w)
     | Some c \<Rightarrow>
         (None, if c_published_version_id c = None then w
                else w\<lparr>tables := append_event e (set_pointer cid None now (tables w))\<rparr>))"
proof (cases "find_content (tables w) cid")
  case None
  with nf ok show ?thesis
    by (simp add: outcome_def unpublish_def db_tx_def io_bind_def get_content_tx_nofault
        map_err_def io_catch_def driver_call_nofault)
next
  case (Some c)
  note writes = unpublish_writes [OF nf ok seq Some, where now = now]
  have rd: "get_content_tx cid w = (Inr c, w)"
    using nf ok Some by (simp add: get_content_tx_nofault)
  have "outcome (unpublish cid actor now) w =
      (None, if c_published_version_id c = None then w
             else w\<lparr>tables := append_event (unpublish_event cid c actor now)
               (set_pointer cid None now (tables w))\<rparr>)"
    using nf writes(1) writes(2) [where actor = actor] find_moved [OF writes(3) [where actor = actor] Some nf]
    by (simp add: outcome_def unpublish_def db_tx_def io_bind_def rd unpublish_event_def
        map_err_driver_call io_return_def del: not_None_eq)
  with Some show ?thesis by auto
qed

section \<open>The view under the writes\<close>

lemma live_version_append:
  assumes ok: "db_ok d" and c: "c \<in> set (contents d)" and vs: "versions d' = versions d @ vs"
  shows "live_version d' c = live_version d c"
proof (cases "c_published_version_id c")
  case (Some vid)
  with published_pointer [OF ok c] obtain v where "find_version d vid = Some v" by blast
  with Some vs show ?thesis
    by (simp add: live_version_def find_version_def row_with_append)
qed (simp add: live_version_def)

lemma docs_of_create:
  fixes f actor now
  assumes ok: "db_ok d" and cid: "cid \<notin> c_id ` set (contents d)"
    and slug: "slug \<notin> c_slug ` set (contents d)"
  defines "d' \<equiv> append_version cid 1 f actor now
                   (d\<lparr>contents := contents d @ [new_content cid slug now]\<rparr>)"
  shows "docs_of d' = (put_doc cid \<lparr>doc_slug = slug, doc_history = [f], doc_live = None\<rparr> (docs_of d))
      \<lparr>docs_by_slug := (docs_by_slug (docs_of d))(slug \<mapsto> cid)\<rparr>"
proof -
  have con: "contents d' = contents d @ [new_content cid slug now]"
    and vs: "versions d' = versions d @ [new_version (version_seq d + 1) cid 1 f actor now]"
    by (simp_all add: d'_def)
  have hist: "history d' cid' = history d cid' @
      (if cid' = cid then [new_version (version_seq d + 1) cid 1 f actor now] else [])" for cid'
    by (simp add: history_def vs)
  have old: "doc_of d' c = doc_of d c" if "find_content d cid' = Some c" for c cid'
  proof -
    have c: "c \<in> set (contents d)" using that by (rule find_content_in)
    then have "c_id c \<noteq> cid" using cid by auto
    with live_version_append [OF ok c vs] show ?thesis by (simp add: doc_of_def hist)
  qed
  have new: "doc_of d' (new_content cid slug now) = \<lparr>doc_slug = slug, doc_history = [f], doc_live = None\<rparr>"
    using history_unknown [OF ok cid] by (simp add: doc_of_def hist live_version_def)
  have "map_option (doc_of d') (find_content d' cid') =
      (if cid' = cid then Some \<lparr>doc_slug = slug, doc_history = [f], doc_live = None\<rparr>
       else map_option (doc_of d) (find_content d cid'))" for cid'
  proof (cases "find_content d cid'")
    case None
    then have "row_with c_id cid' (contents d) = None" by (simp add: find_content_def)
    with None new show ?thesis
      by (simp add: find_content_def con row_with_append)
  next
    case (Some c)
    then have "cid' \<noteq> cid" using cid find_content_None by (metis option.distinct(1))
    with Some old [OF Some] show ?thesis
      by (simp add: find_content_def con row_with_append)
  qed
  moreover have "map_option c_id (row_with c_slug slug' (contents d')) =
      (if slug' = slug then Some cid else map_option c_id (row_with c_slug slug' (contents d)))" for slug'
  proof -
    have "row_with c_slug slug (contents d) = None" using slug by (simp add: row_with_None_iff)
    then show ?thesis by (auto simp: con row_with_append split: option.split)
  qed
  ultimately show ?thesis
    by (auto simp: docs_of_def put_doc_def fun_eq_iff)
qed

lemma put_doc_view:
  assumes other: "\<And>cid'. cid' \<noteq> cid \<Longrightarrow>
      map_option (doc_of d') (find_content d' cid') = map_option (doc_of d) (find_content d cid')"
    and this: "map_option (doc_of d') (find_content d' cid) = Some x"
    and slugs: "\<And>slug. map_option c_id (row_with c_slug slug (contents d')) =
      map_option c_id (row_with c_slug slug (contents d))"
  shows "docs_of d' = put_doc cid x (docs_of d)"
  using assms by (auto simp: docs_of_def put_doc_def fun_eq_iff)

lemma docs_of_update:
  fixes f actor now
  assumes ok: "db_ok d" and c: "find_content d cid = Some c" "c_current_version c = expected"
  defines "d' \<equiv> append_version cid (expected + 1) f actor now (bump_version cid expected now d)"
  shows "docs_of d' = put_doc cid ((doc_of d c)\<lparr>doc_history := doc_history (doc_of d c) @ [f]\<rparr>) (docs_of d)"
proof -
  let ?P = "\<lambda>c. c_id c = cid \<and> c_current_version c = expected"
  let ?f = "\<lambda>c. c\<lparr>c_current_version := c_current_version c + 1, c_updated_at := now\<rparr>"
  have con: "contents d' = update_where ?P ?f (contents d)"
    by (simp add: d'_def bump_version_def)
  have vs: "versions d' = versions d @ [new_version (version_seq d + 1) cid (expected + 1) f actor now]"
    by (simp add: d'_def)
  have hist: "history d' cid' = history d cid' @
      (if cid' = cid then [new_version (version_seq d + 1) cid (expected + 1) f actor now] else [])"
    for cid'
    by (simp add: history_def vs)
  have found: "find_content d' cid' = map_option (\<lambda>c. if ?P c then ?f c else c) (find_content d cid')"
    for cid' by (simp add: find_content_def con row_with_update_where)
  have live: "live_version d' c0 = live_version d c0" if "c0 \<in> set (contents d)" for c0
    using live_version_append [OF ok that vs] .
  show ?thesis
  proof (rule put_doc_view)
    fix cid' assume ne: "cid' \<noteq> cid"
    show "map_option (doc_of d') (find_content d' cid') = map_option (doc_of d) (find_content d cid')"
    proof (cases "find_content d cid'")
      case (Some c0)
      then have "c_id c0 = cid'" "c0 \<in> set (contents d)"
        by (simp_all add: find_content_id find_content_in)
      with Some ne show ?thesis by (simp add: found doc_of_def hist live)
    qed (simp add: found)
  next
    have c0: "c \<in> set (contents d)" "c_id c = cid"
      using c(1) by (simp_all add: find_content_in find_content_id)
    have "live_version d' (?f c) = live_version d' c" by (simp add: live_version_def)
    with c c0 show "map_option (doc_of d') (find_content d' cid) =
        Some ((doc_of d c)\<lparr>doc_history := doc_history (doc_of d c) @ [f]\<rparr>)"
      by (simp add: found doc_of_def hist live)
  next
    fix slug
    show "map_option c_id (row_with c_slug slug (contents d')) =
      map_option c_id (row_with c_slug slug (contents d))"
      by (cases "row_with c_slug slug (contents d)") (simp_all add: con row_with_update_where)
  qed
qed

lemma docs_of_pointer:
  fixes now
  assumes c: "find_content d cid = Some c"
  shows "docs_of (append_event e (set_pointer cid ptr now d)) =
    put_doc cid ((doc_of d c)\<lparr>doc_live := live_version d (c\<lparr>c_published_version_id := ptr\<rparr>)\<rparr>) (docs_of d)"
proof -
  let ?d' = "append_event e (set_pointer cid ptr now d)"
  let ?f = "\<lambda>c. c\<lparr>c_published_version_id := ptr,
             c_published_at := (if ptr = None then None else Some now), c_updated_at := now\<rparr>"
  have live: "live_version ?d' c0 = live_version d c0" for c0
    by (cases "c_published_version_id c0") (simp_all add: live_version_def)
  have same: "live_version d (?f c) = live_version d (c\<lparr>c_published_version_id := ptr\<rparr>)"
    by (simp add: live_version_def)
  show ?thesis
  proof (rule put_doc_view)
    fix cid' assume "cid' \<noteq> cid"
    then show "map_option (doc_of ?d') (find_content ?d' cid') =
        map_option (doc_of d) (find_content d cid')"
      by (cases "find_content d cid'") (simp_all add: find_content_set_pointer doc_of_def live)
  next
    show "map_option (doc_of ?d') (find_content ?d' cid) =
        Some ((doc_of d c)\<lparr>doc_live := live_version d (c\<lparr>c_published_version_id := ptr\<rparr>)\<rparr>)"
      using c same by (simp add: find_content_set_pointer doc_of_def live)
  next
    fix slug
    show "map_option c_id (row_with c_slug slug (contents ?d')) =
      map_option c_id (row_with c_slug slug (contents d))"
      by (cases "row_with c_slug slug (contents d)") (simp_all add: set_pointer_def row_with_update_where)
  qed
qed

section \<open>The simulation\<close>

text \<open>
  What the view relies on: a run that is ready for one more operation behaves as the specification
  on the view, and is then ready for one less. Every sequence of operations follows.
\<close>

fun trace :: "('op \<Rightarrow> 'c \<Rightarrow> 'e \<times> 'c) \<Rightarrow> 'op list \<Rightarrow> 'c \<Rightarrow> 'e list \<times> 'c" where
  "trace run [] c = ([], c)"
| "trace run (q # qs) c =
     (case run q c of (e, c1) \<Rightarrow> (case trace run qs c1 of (es, c2) \<Rightarrow> (e # es, c2)))"

locale simulation =
  fixes ready :: "nat \<Rightarrow> 'c \<Rightarrow> bool"
    and view :: "'c \<Rightarrow> 'a"
    and run :: "'op \<Rightarrow> 'c \<Rightarrow> 'e \<times> 'c"
    and spec :: "'op \<Rightarrow> 'a \<Rightarrow> 'e \<times> 'a"
  assumes step_view: "ready (Suc n) c \<Longrightarrow> run q c = (e, c') \<Longrightarrow> spec q (view c) = (e, view c')"
    and step_ready: "ready (Suc n) c \<Longrightarrow> run q c = (e, c') \<Longrightarrow> ready n c'"
begin

lemma trace_view:
  "ready (length qs) c \<Longrightarrow> trace run qs c = (es, c') \<Longrightarrow> trace spec qs (view c) = (es, view c')"
proof (induction qs arbitrary: c es)
  case (Cons q qs)
  obtain e1 c1 where r1: "run q c = (e1, c1)" by fastforce
  obtain es2 c2 where r2: "trace run qs c1 = (es2, c2)" by fastforce
  have "spec q (view c) = (e1, view c1)" "ready (length qs) c1"
    using step_view [OF _ r1] step_ready [OF _ r1] Cons.prems(1) by simp_all
  moreover have "c2 = c'" "es = e1 # es2"
    using Cons.prems(2) r1 r2 by auto
  ultimately show ?case
    using Cons.IH [of c1 es2] r2 by simp
qed auto

end

text \<open>The outcomes of the four service calls, read off the store lemmas.\<close>

lemma outcome_bind_now:
  assumes "now_millis w = (Inr t, w1)"
  shows "outcome (io_bind now_millis k) w = outcome (k t) w1"
  using assms by (simp add: outcome_def io_bind_def)

lemma outcome_lift:
  "outcome (io_bind (lift_sum r) k) w =
     (case r of Inl e \<Rightarrow> (Some e, w) | Inr x \<Rightarrow> outcome (k x) w)"
  by (simp add: outcome_def io_bind_def lift_sum_def io_throw_def io_return_def split: sum.split)

lemma ready_same:
  "ready (Suc n) w \<Longrightarrow> tables w' = tables w \<Longrightarrow> faults w' = [] \<Longrightarrow> ready n w'"
  by (auto simp: ready_def)

lemma ready_weaken: "ready (Suc n) w \<Longrightarrow> ready n w"
  by (auto simp: ready_def)

text \<open>What every operation starts with: a reading of the clock, which leaves the tables alone.\<close>

lemma ready_now:
  assumes "ready (Suc n) w"
  obtains t w1 where "now_millis w = (Inr t, w1)" "tables w1 = tables w" "faults w1 = []"
    "db_ok (tables w)" "version_seq (tables w) < max_rowid" "event_seq (tables w) < max_rowid"
    "\<forall>c \<in> set (contents (tables w)). c_current_version c < max_rowid"
    "\<forall>c \<in> set (contents (tables w)). c_current_version c + int n \<le> max_rowid"
    "\<forall>c \<in> set (contents (tables w)). c_current_version c + int (Suc n) \<le> max_rowid"
proof -
  obtain t w1 where "now_millis w = (Inr t, w1)" "tables w1 = tables w" "faults w1 = []"
    using assms by (auto simp: ready_def intro: now_millis_runs [of w])
  with assms that show ?thesis by (fastforce simp: ready_def)
qed

lemma taken_docs:
  "docs_by_id (docs_of d) cid = None \<longleftrightarrow> cid \<notin> c_id ` set (contents d)"
  "docs_by_slug (docs_of d) slug = None \<longleftrightarrow> slug \<notin> c_slug ` set (contents d)"
  using find_content_None [of d cid] row_with_None_iff [of c_slug slug "contents d"]
  by (auto simp: docs_of_def)

lemma sim_create:
  assumes rdy: "ready (Suc n) w" and run: "run_op (CreateOp uuid i) w = (e, w')"
  shows "spec_op (CreateOp uuid i) (docs_of (tables w)) = (e, docs_of (tables w')) \<and> ready n w'"
proof -
  let ?slug = "trim_space (ci_slug i)" and ?d = "tables w"
  obtain t w1 where now: "now_millis w = (Inr t, w1)" and w1: "tables w1 = ?d" "faults w1 = []" and
    ok: "db_ok ?d" and seq: "version_seq ?d < max_rowid"
    using rdy by (rule ready_now)
  consider (slug) err where "validate_slug ?slug = Some err"
    | (fields) err where "validate_slug ?slug = None" "normalize_fields (ci_fields i) = Inl err"
    | (good) f where "validate_slug ?slug = None" "normalize_fields (ci_fields i) = Inr f"
    by (cases "validate_slug ?slug"; cases "normalize_fields (ci_fields i)") auto
  then show ?thesis
  proof cases
    case slug
    with run have "e = Some err" "w' = w"
      by (simp_all add: service_create_def Let_def outcome_def io_throw_def)
    with slug rdy show ?thesis by (simp add: spec_create_def Let_def ready_weaken)
  next
    case fields
    with run rdy show ?thesis
      by (auto simp: spec_create_def service_create_def Let_def outcome_lift ready_weaken)
  next
    case good
    have "run_op (CreateOp uuid i) w = outcome (create_content uuid ?slug f (ci_actor i) t) w1"
      using good by (simp add: service_create_def Let_def outcome_lift outcome_bind_now [OF now])
    note made = this [unfolded run create_nofault [OF w1(2) ok [folded w1(1)] seq [folded w1(1)]], unfolded w1(1)]
    show ?thesis
    proof (cases "uuid \<in> c_id ` set (contents ?d) \<or> ?slug \<in> c_slug ` set (contents ?d)")
      case True
      then have "docs_by_id (docs_of ?d) uuid \<noteq> None \<or> docs_by_slug (docs_of ?d) ?slug \<noteq> None"
        using taken_docs by blast
      then have "spec_op (CreateOp uuid i) (docs_of ?d) = (Some ErrSlugTaken, docs_of ?d)"
        using good by (simp only: spec_op.simps spec_create_def Let_def option.case sum.case if_True)
      then show ?thesis using True made w1 rdy by (auto intro: ready_same)
    next
      case False
      then have new: "uuid \<notin> c_id ` set (contents ?d)" "?slug \<notin> c_slug ` set (contents ?d)" by blast+
      then have "spec_op (CreateOp uuid i) (docs_of ?d) = (e, docs_of (tables w'))"
        using good made docs_of_create [OF ok new] by (simp add: spec_create_def Let_def taken_docs)
      moreover have "db_ok (tables w')" using made db_ok_create [OF ok new] False by simp
      ultimately show ?thesis using made w1 rdy False by (auto simp: ready_def)
    qed
  qed
qed

lemma sim_update:
  assumes rdy: "ready (Suc n) w" and run: "run_op (UpdateOp i) w = (e, w')"
  shows "spec_op (UpdateOp i) (docs_of (tables w)) = (e, docs_of (tables w')) \<and> ready n w'"
proof -
  let ?d = "tables w" and ?cid = "ui_id i" and ?exp = "ui_expected_version i"
  obtain t w1 where now: "now_millis w = (Inr t, w1)" and w1: "tables w1 = ?d" "faults w1 = []" and
    ok: "db_ok ?d" and seq: "version_seq ?d < max_rowid" and
    tok: "\<forall>c \<in> set (contents ?d). c_current_version c < max_rowid" and
    bound: "\<forall>c \<in> set (contents ?d). c_current_version c + int (Suc n) \<le> max_rowid"
    using rdy by (rule ready_now)
  show ?thesis
  proof (cases "normalize_fields (ui_fields i)")
    case (Inl err)
    with run have "e = Some err" "w' = w" by (simp_all add: service_update_def outcome_lift)
    with Inl rdy show ?thesis by (simp add: spec_update_def ready_weaken)
  next
    case (Inr f)
    have r: "(e, w') = outcome (update_content ?cid ?exp f (ui_actor i) t) w1"
      using run Inr by (simp add: service_update_def outcome_lift outcome_bind_now [OF now])
    note upd = update_nofault [OF w1(2) ok [folded w1(1)] seq [folded w1(1)] tok [folded w1(1)]]
    show ?thesis
    proof (cases "find_content ?d ?cid")
      case None
      with r w1 upd have "e = Some ErrNotFound" "w' = w1" by simp_all
      with None Inr w1 rdy show ?thesis
        by (simp add: spec_update_def docs_of_def ready_same)
    next
      case (Some c)
      then have c: "c \<in> set (contents ?d)" "c_id c = ?cid"
        by (simp_all add: find_content_in find_content_id)
      have len: "int (length (doc_history (doc_of ?d c))) = c_current_version c"
        using history_length [OF ok Some] c(2) by (simp add: doc_of_def)
      show ?thesis
      proof (cases "c_current_version c = ?exp")
        case False
        with r w1 upd Some have "e = Some ErrVersionConflict" "w' = w1" by simp_all
        with Some Inr w1 rdy len False show ?thesis
          by (simp add: spec_update_def docs_of_def ready_same)
      next
        case True
        let ?d' = "append_version ?cid (?exp + 1) f (ui_actor i) t (bump_version ?cid ?exp t ?d)"
        have e: "e = None" and w': "w' = w1\<lparr>tables := ?d'\<rparr>"
          using r w1 upd Some True by simp_all
        have "in_int64 (?exp + 1)"
          using tok c ok True by (force simp: db_ok_def contents_ok_def in_int64_def max_rowid_def)
        from db_ok_update [OF ok c True this] have ok': "db_ok ?d'" .
        have "docs_of ?d' = put_doc ?cid ((doc_of ?d c)\<lparr>doc_history := doc_history (doc_of ?d c) @ [f]\<rparr>)
            (docs_of ?d)"
          by (rule docs_of_update [OF ok Some True])
        moreover have "\<forall>c \<in> set (contents ?d'). c_current_version c + int n \<le> max_rowid"
          using bound by (auto simp: bump_version_def ball_update_where)
        ultimately show ?thesis
          using e w' w1 ok' rdy Some Inr len True
          by (auto simp: spec_update_def ready_def docs_of_def)
      qed
    qed
  qed
qed

lemma first_version:
  assumes ok: "db_ok d" and c: "find_content d cid = Some c"
  shows "(case first_row (filter (\<lambda>v. v_version v = ver) (history d cid)) of
      None \<Rightarrow> \<not> (1 \<le> ver \<and> ver \<le> int (length (history d cid)))
    | Some v \<Rightarrow> 1 \<le> ver \<and> ver \<le> int (length (history d cid)) \<and> v \<in> set (history d cid) \<and>
        v_version v = ver)"
proof -
  have "v_version ` set (history d cid) = set (map v_version (history d cid))" by simp
  also have "\<dots> = {1..c_current_version c}"
    by (simp only: history_numbers [OF ok c] set_upto)
  finally have nums: "v_version ` set (history d cid) = {1..c_current_version c}" .
  have len: "int (length (history d cid)) = c_current_version c"
    by (rule history_length [OF ok c])
  show ?thesis
  proof (cases "first_row (filter (\<lambda>v. v_version v = ver) (history d cid))")
    case None
    then have "ver \<notin> v_version ` set (history d cid)" by (auto simp: filter_empty_conv)
    then show ?thesis unfolding nums None option.case len by simp
  next
    case (Some v)
    then have v: "v \<in> set (history d cid)" "v_version v = ver" by (auto dest: first_row_SomeD)
    then have "ver \<in> v_version ` set (history d cid)" by auto
    with v show ?thesis unfolding nums Some option.case len by simp
  qed
qed

lemma outcome_bind_reads:
  "m w = (r, w1) \<Longrightarrow> outcome (io_bind m k) w =
     (case r of Inl e \<Rightarrow> (Some e, w1) | Inr x \<Rightarrow> outcome (k x) w1)"
  by (simp add: outcome_def io_bind_def split: sum.split)

text \<open>The tables after a publish, as the specification has them.\<close>

lemma publish_tables:
  fixes actor t
  assumes ok: "db_ok d" and c: "find_content d cid = Some c" and v: "v \<in> set (history d cid)"
  defines "d' \<equiv> if c_published_version_id c = Some (v_id v) then d
    else append_event (publish_event (manual_publish cid (v_id v) actor t)) (set_pointer cid (Some (v_id v)) t d)"
  shows "docs_of d' = put_doc cid ((doc_of d c)\<lparr>doc_live := Some (v_version v)\<rparr>) (docs_of d)"
    and "db_ok d'"
    and "\<forall>c \<in> set (contents d). c_current_version c + k \<le> max_rowid \<Longrightarrow>
      \<forall>c \<in> set (contents d'). c_current_version c + k \<le> max_rowid"
    and "version_seq d' = version_seq d" "event_seq d' \<le> event_seq d + 1"
proof -
  have found: "find_version d (v_id v) = Some v"
    using v ok by (auto simp: db_ok_find_version history_def)
  have own: "owns d (v_id v) cid" using v by (auto simp: owns_def history_def)
  show "docs_of d' = put_doc cid ((doc_of d c)\<lparr>doc_live := Some (v_version v)\<rparr>) (docs_of d)"
  proof (cases "c_published_version_id c = Some (v_id v)")
    case True
    then have "live_version d c = Some (v_version v)" using found by (simp add: live_version_def)
    with True c show ?thesis by (simp add: d'_def put_doc_def docs_of_def doc_of_def fun_upd_idem)
  next
    case False
    then show ?thesis using docs_of_pointer [OF c] found by (simp add: d'_def live_version_def)
  qed
  have "db_ok (append_event (publish_event (manual_publish cid (v_id v) actor t)) (set_pointer cid (Some (v_id v)) t d))"
    by (rule db_ok_pointer_move [OF ok owns_content [OF ok own]])
      (use own in \<open>simp_all add: publish_event_def manual_publish_def\<close>)
  then show "db_ok d'" using ok by (simp add: d'_def)
  show "\<forall>c \<in> set (contents d). c_current_version c + k \<le> max_rowid \<Longrightarrow>
      \<forall>c \<in> set (contents d'). c_current_version c + k \<le> max_rowid"
    by (auto simp: d'_def set_pointer_def ball_update_where)
  show "version_seq d' = version_seq d" "event_seq d' \<le> event_seq d + 1" by (simp_all add: d'_def)
qed

lemma sim_publish:
  assumes rdy: "ready (Suc n) w" and run: "run_op (PublishOp cid ver actor) w = (e, w')"
  shows "spec_op (PublishOp cid ver actor) (docs_of (tables w)) = (e, docs_of (tables w')) \<and> ready n w'"
proof -
  let ?d = "tables w"
  obtain t w1 where now: "now_millis w = (Inr t, w1)" and w1: "tables w1 = ?d" "faults w1 = []" and
    ok: "db_ok ?d" and seq: "event_seq ?d < max_rowid" and
    bound: "\<forall>c \<in> set (contents ?d). c_current_version c + int n \<le> max_rowid"
    using rdy by (rule ready_now)
  have nf: "faults w = []" using rdy by (simp add: ready_def)
  let ?v = "first_row (filter (\<lambda>v. v_version v = ver) (history ?d cid))"
  have r: "(e, w') = (case ?v of None \<Rightarrow> (Some ErrNotFound, w)
      | Some v \<Rightarrow> outcome (publish (manual_publish cid (v_id v) actor t)) w1)"
    using run get_version_nofault [OF nf, of cid ver]
    by (cases ?v)
      (simp_all add: service_publish_def outcome_bind_reads outcome_bind_now [OF now]
        manual_publish_def del: first_row_None)
  show ?thesis
  proof (cases "find_content ?d cid")
    case None
    then have "history ?d cid = []"
      using history_unknown [OF ok] by (simp add: find_content_None)
    with r have "e = Some ErrNotFound" "w' = w" by simp_all
    with None rdy show ?thesis by (simp add: spec_publish_def docs_of_def ready_weaken)
  next
    case (Some c)
    note fv = first_version [OF ok Some, of ver]
    have c: "docs_by_id (docs_of ?d) cid = Some (doc_of ?d c)" "c_id c = cid"
      using Some by (simp_all add: docs_of_def find_content_id)
    show ?thesis
    proof (cases ?v)
      case None
      with r fv c have "e = Some ErrNotFound" "w' = w" "\<not> (1 \<le> ver \<and> ver \<le> int (length (history ?d cid)))"
        by simp_all
      with c rdy show ?thesis by (auto simp: spec_publish_def doc_of_def ready_weaken)
    next
      fix v assume v: "?v = Some v"
      then have vh: "v \<in> set (history ?d cid)" "v_version v = ver"
        and rng: "1 \<le> ver" "ver \<le> int (length (history ?d cid))"
        using fv by simp_all
      note tabs = publish_tables [OF ok Some vh(1), where actor = actor and t = t]
      have res: "e = None" "tables w' = (if c_published_version_id c = Some (v_id v) then ?d
          else append_event (publish_event (manual_publish cid (v_id v) actor t)) (set_pointer cid (Some (v_id v)) t ?d))"
        "faults w' = []"
        using r v publish_nofault [OF w1(2), of v cid c actor t] seq vh Some ok w1 by auto
      have "spec_op (PublishOp cid ver actor) (docs_of ?d) =
          (None, put_doc cid ((doc_of ?d c)\<lparr>doc_live := Some ver\<rparr>) (docs_of ?d))"
        using c rng by (simp add: spec_publish_def doc_of_def)
      with tabs(1) vh(2) res have "spec_op (PublishOp cid ver actor) (docs_of ?d) = (e, docs_of (tables w'))" by simp
      moreover have "ready n w'"
        using rdy tabs(2,4,5) tabs(3) [OF bound] res(2,3) unfolding ready_def res(2) by linarith
      ultimately show ?thesis by blast
    qed
  qed
qed

lemma sim_unpublish:
  assumes rdy: "ready (Suc n) w" and run: "run_op (UnpublishOp cid actor) w = (e, w')"
  shows "spec_op (UnpublishOp cid actor) (docs_of (tables w)) = (e, docs_of (tables w')) \<and> ready n w'"
proof -
  let ?d = "tables w"
  obtain t w1 where now: "now_millis w = (Inr t, w1)" and w1: "tables w1 = ?d" "faults w1 = []" and
    ok: "db_ok ?d" and seq: "event_seq ?d < max_rowid" and
    bound: "\<forall>c \<in> set (contents ?d). c_current_version c + int n \<le> max_rowid"
    using rdy by (rule ready_now)
  have r: "(e, w') = outcome (unpublish cid actor t) w1"
    using run by (simp add: service_unpublish_def outcome_bind_now [OF now])
  from unpublish_nofault [OF w1(2) ok [folded w1(1)] seq [folded w1(1)], of cid actor t] obtain ev where
    out: "outcome (unpublish cid actor t) w1 =
      (case find_content ?d cid of None \<Rightarrow> (Some ErrNotFound, w1)
       | Some c \<Rightarrow> (None, if c_published_version_id c = None then w1
                else w1\<lparr>tables := append_event ev (set_pointer cid None t ?d)\<rparr>))"
    unfolding w1(1) by blast
  show ?thesis
  proof (cases "find_content ?d cid")
    case None
    with r out have "e = Some ErrNotFound" "w' = w1" by simp_all
    with None w1 rdy show ?thesis by (simp add: spec_unpublish_def docs_of_def ready_same)
  next
    case (Some c)
    have spec: "spec_op (UnpublishOp cid actor) (docs_of ?d) =
        (None, put_doc cid ((doc_of ?d c)\<lparr>doc_live := None\<rparr>) (docs_of ?d))"
      using Some by (simp add: spec_unpublish_def docs_of_def)
    show ?thesis
    proof (cases "c_published_version_id c = None")
      case True
      with r out Some have "e = None" "w' = w1" by simp_all
      moreover have "put_doc cid ((doc_of ?d c)\<lparr>doc_live := None\<rparr>) (docs_of ?d) = docs_of ?d"
        using Some True by (simp add: put_doc_def docs_of_def doc_of_def live_version_def fun_upd_idem)
      ultimately show ?thesis using spec w1 rdy by (simp add: ready_same)
    next
      case False
      let ?d' = "append_event ev (set_pointer cid None t ?d)"
      have res: "e = None" "w' = w1\<lparr>tables := ?d'\<rparr>"
        using r out Some False by simp_all
      have "db_ok (tables w')"
        using unpublish_ok [of w1 cid actor t] ok w1 r res
        by (auto simp: outcome_def split: prod.splits sum.splits)
      moreover have "docs_of ?d' = put_doc cid ((doc_of ?d c)\<lparr>doc_live := None\<rparr>) (docs_of ?d)"
        using docs_of_pointer [OF Some] by (simp add: live_version_def)
      moreover have "\<forall>c \<in> set (contents ?d'). c_current_version c + int n \<le> max_rowid"
        using bound by (auto simp: set_pointer_def ball_update_where)
      ultimately show ?thesis
        using spec res w1 rdy by (auto simp: ready_def)
    qed
  qed
qed

lemma sim_step:
  assumes "ready (Suc n) w" "run_op q w = (e, w')"
  shows "spec_op q (docs_of (tables w)) = (e, docs_of (tables w')) \<and> ready n w'"
  using assms sim_create sim_update sim_publish sim_unpublish by (cases q) metis+

interpretation documents: simulation ready "\<lambda>w. docs_of (tables w)" run_op spec_op
  by unfold_locales (auto dest: sim_step)

end
