(* ===== verification/Examples.thy ===== *)
theory Examples
  imports Abstraction
begin

text \<open>
  A small concrete history the witnesses of the properties evaluate: a document is created, edited,
  its first version published and its second version scheduled; a worker's tick at the scheduled
  time publishes it.
\<close>

definition draft :: "string \<Rightarrow> version_fields" where
  "draft t = \<lparr>f_title = t, f_body = ''body'', f_meta_title = [], f_meta_description = [],
              f_canonical_url = [], f_og_image_url = [], f_noindex = False\<rparr>"

definition world_of :: "db \<Rightarrow> int \<Rightarrow> world" where
  "world_of d t = \<lparr>tables = d, faults = [], clock_now = t, clock_later = []\<rparr>"

definition after :: "request \<Rightarrow> db \<Rightarrow> db" where
  "after q d = tables (snd (run_request q (world_of d 0)))"

definition editing :: "request list" where
  "editing =
     [CreateRequest ''d1'' ''hello'' (draft ''one'') ''ana'' 1,
      UpdateRequest ''d1'' 1 (draft ''two'') ''bo'' 2,
      PublishRequest ''d1'' 1 ''ana'' 3,
      ScheduleRequest ''s1'' ''d1'' 2 100 4]"

definition edited_db :: db where
  "edited_db = fold after editing empty_db"

definition some_worker :: worker where
  "some_worker = new_worker \<lparr>wc_instance_id = ''w1'', wc_poll_interval = 1000000000,
     wc_lease_ttl = 30000000000, wc_batch_size = 10\<rparr>"

definition no_text :: "sqlite_code \<Rightarrow> string" where
  "no_text c = []"

definition ticked_db :: db where
  "ticked_db = tables (snd (tick no_text table_order some_worker (world_of edited_db 100000000)))"

definition doc1 :: "int64 \<Rightarrow> int64 option \<Rightarrow> int64 option \<Rightarrow> int64 \<Rightarrow> content_row" where
  "doc1 cur ptr at upd =
     \<lparr>c_id = ''d1'', c_slug = ''hello'', c_current_version = cur, c_published_version_id = ptr,
      c_published_at = at, c_created_at = 1, c_updated_at = upd\<rparr>"

definition versions1 :: "version_row list" where
  "versions1 =
     [\<lparr>v_id = 1, v_content_id = ''d1'', v_version = 1, v_created_by = ''ana'', v_created_at = 1,
       v_fields = draft ''one''\<rparr>,
      \<lparr>v_id = 2, v_content_id = ''d1'', v_version = 2, v_created_by = ''bo'', v_created_at = 2,
       v_fields = draft ''two''\<rparr>]"

definition event1 :: event_row where
  "event1 = \<lparr>e_id = 1, e_content_id = ''d1'', e_version_id = Some 1, e_action = ActionPublish,
     e_source = SourceManual, e_schedule_id = None, e_actor = ''ana'', e_occurred_at = 3\<rparr>"

definition event2 :: event_row where
  "event2 = \<lparr>e_id = 2, e_content_id = ''d1'', e_version_id = Some 2, e_action = ActionPublish,
     e_source = SourceScheduled, e_schedule_id = Some ''s1'', e_actor = [], e_occurred_at = 100\<rparr>"

definition schedule1 :: schedule_row where
  "schedule1 = new_schedule ''s1'' ''d1'' 2 100 4"

lemma edited_db_eq:
  "edited_db =
     \<lparr>contents = [doc1 2 (Some 1) (Some 3) 3], versions = versions1, schedules = [schedule1],
      events = [event1], version_seq = 2, event_seq = 1\<rparr>"
  by code_simp

lemma ticked_db_eq:
  "ticked_db =
     \<lparr>contents = [doc1 2 (Some 2) (Some 100) 100], versions = versions1,
      schedules = [schedule1\<lparr>s_status := ScheduleDone, s_attempts := 1, s_updated_at := 100\<rparr>],
      events = [event1, event2], version_seq = 2, event_seq = 2\<rparr>"
  by code_simp

text \<open>Both databases are states the system reaches.\<close>

definition sys_of :: "db \<Rightarrow> system" where
  "sys_of d = \<lparr>sys_db = d, sys_pos = (\<lambda>p. Working [])\<rparr>"

definition one_id :: "nat \<Rightarrow> string" where
  "one_id p = ''w1''"

lemma sys_of_sel [simp]: "sys_db (sys_of d) = d" "sys_pos (sys_of d) p = Working []"
  by (simp_all add: sys_of_def)

lemma world_of_sel [simp]:
  "tables (world_of d t) = d" "faults (world_of d t) = []" "clock_now (world_of d t) = t"
  "clock_later (world_of d t) = []"
  by (simp_all add: world_of_def)

lemma after_step: "sys_step ident (sys_of d) (sys_of (after q d))"
proof -
  obtain r w' where run: "run_request q (world_of d 0) = (r, w')" by fastforce
  then have "sys_step ident (sys_of d) ((sys_of d)\<lparr>sys_db := tables w'\<rparr>)"
    by (intro sys_step.Request [where w = "world_of d 0"]) simp_all
  moreover have "(sys_of d)\<lparr>sys_db := tables w'\<rparr> = sys_of (after q d)"
    using run by (simp add: sys_of_def after_def)
  ultimately show ?thesis by simp
qed

lemma reachable_after: "reachable ident (sys_of d) \<Longrightarrow> reachable ident (sys_of (after q d))"
  using reachable_steps after_step by blast

lemma reachable_empty: "reachable ident (sys_of empty_db)"
  unfolding reachable_def by (rule exI [of _ "sys_of empty_db"]) (simp add: initial_def sys_of_def)

lemma reachable_requests: "reachable ident (sys_of d) \<Longrightarrow> reachable ident (sys_of (fold after qs d))"
  by (induction qs arbitrary: d) (auto intro: reachable_after)

lemma reachable_edited: "reachable ident (sys_of edited_db)"
  unfolding edited_db_def by (intro reachable_requests reachable_empty)

lemma edited_steps_ticked: "(sys_step one_id)\<^sup>*\<^sup>* (sys_of edited_db) (sys_of ticked_db)"
proof -
  obtain r w' where run:
    "tick no_text table_order some_worker (world_of edited_db 100000000) = (r, w')" by fastforce
  have "one_id 0 = wk_id some_worker" by code_simp
  from tick_steps [where ident = one_id and p = 0 and s = "sys_of edited_db", OF run this table_order_ok]
  have "(sys_step one_id)\<^sup>*\<^sup>* (sys_of edited_db) (move w' 0 (Working []) (sys_of edited_db))"
    by simp
  moreover have "move w' 0 (Working []) (sys_of edited_db) = sys_of ticked_db"
    using run by (simp add: move_def sys_of_def ticked_db_def fun_upd_idem)
  ultimately show ?thesis by simp
qed

lemma reachable_ticked: "reachable one_id (sys_of ticked_db)"
  using reachable_steps [OF reachable_edited edited_steps_ticked] .

end
