(* ===== verification/Content_Laws.thy ===== *)
theory Content_Laws
  imports Examples
begin

text \<open>
  Properties of documents: the service implements its specification, failed calls change nothing,
  what validation and normalisation guarantee, what publishing twice does, and what the
  administrative reads return.
\<close>

section \<open>The service implements the specification\<close>

text \<open>
  C16. Any sequence of creates, updates, publishes and unpublishes through the service gives, call by
  call, the errors and the documents the specification gives, as long as the driver does not fail
  and the 64-bit counters have room for the sequence.
\<close>

theorem documents_implement_spec:
  assumes "ready (length ops) w" "trace run_op ops w = (errs, w')"
  shows "trace spec_op ops (docs_of (tables w)) = (errs, docs_of (tables w'))"
  using assms by (rule documents.trace_view)

theorem documents_implement_spec_witness:
  "fst (trace spec_op
      [PublishOp ''d1'' 2 ''ana'', PublishOp ''d1'' 3 ''ana'', UnpublishOp ''d2'' ''bo'', UnpublishOp ''d1'' ''bo'']
      (docs_of edited_db)) = [None, Some ErrNotFound, Some ErrNotFound, None]"
proof -
  let ?ops = "[PublishOp ''d1'' 2 ''ana'', PublishOp ''d1'' 3 ''ana'', UnpublishOp ''d2'' ''bo'',
    UnpublishOp ''d1'' ''bo'']"
  let ?w = "world_of edited_db 0"
  obtain errs w' where run: "trace run_op ?ops ?w = (errs, w')" by fastforce
  have "fst (trace run_op ?ops ?w) = [None, Some ErrNotFound, Some ErrNotFound, None]"
    unfolding edited_db_eq by code_simp
  then have errs: "errs = [None, Some ErrNotFound, Some ErrNotFound, None]" using run by simp
  have "ready (length ?ops) ?w"
    using reachable_db_ok [OF reachable_edited]
    by (simp add: ready_def) (simp add: edited_db_eq max_rowid_def doc1_def)
  from documents_implement_spec [OF this run] errs show ?thesis by simp
qed

section \<open>Failure\<close>

text \<open>
  C26. A write of the service that returns an error, for whatever reason and wherever in the call
  the driver failed, has changed nothing.
\<close>

theorem failed_write_changes_nothing:
  "(service_create uuid ci w = (Inl e, w') \<longrightarrow> tables w' = tables w) \<and>
   (service_update ui w = (Inl e, w') \<longrightarrow> tables w' = tables w) \<and>
   (service_publish cid ver actor w = (Inl e, w') \<longrightarrow> tables w' = tables w) \<and>
   (service_unpublish cid actor w = (Inl e, w') \<longrightarrow> tables w' = tables w) \<and>
   (service_schedule uuid si w = (Inl e, w') \<longrightarrow> tables w' = tables w) \<and>
   (service_cancel_schedule sid w = (Inl e, w') \<longrightarrow> tables w' = tables w)"
  by (intro conjI impI) (erule atomicD [rotated], rule atomic_service)+

text \<open>The pointer has moved and the event is written when the commit fails.\<close>

theorem failed_write_changes_nothing_witness:
  "tables (snd (service_publish ''d1'' 2 ''ana''
      ((world_of edited_db 0)\<lparr>faults := [None, None, None, None, None, None, None, Some ''disk full'']\<rparr>)))
    = edited_db"
proof -
  let ?w = "(world_of edited_db 0)\<lparr>faults := [None, None, None, None, None, None, None, Some ''disk full'']\<rparr>"
  obtain r w' where run: "service_publish ''d1'' 2 ''ana'' ?w = (r, w')" by fastforce
  have "fst (service_publish ''d1'' 2 ''ana'' ?w) = Inl (Wrap ''commit transaction'' (DriverFault ''disk full''))"
    unfolding edited_db_eq by code_simp
  with run have "service_publish ''d1'' 2 ''ana'' ?w =
      (Inl (Wrap ''commit transaction'' (DriverFault ''disk full'')), w')" by simp
  then have "tables w' = tables ?w" using failed_write_changes_nothing by blast
  then show ?thesis by (simp add: run)
qed

section \<open>Validation\<close>

text \<open>
  C35. The slugs the service accepts: not empty, at most 200 bytes, only lower-case letters, digits
  and hyphens, a letter or digit at both ends, no two hyphens in a row.
\<close>

theorem accepted_slugs:
  "validate_slug s = None \<longleftrightarrow>
   s \<noteq> [] \<and> length s \<le> 200 \<and> (\<forall>c \<in> set s. slug_char c \<or> c = hyphen) \<and>
   slug_char (hd s) \<and> slug_char (last s) \<and> (\<forall>p q. s \<noteq> p @ hyphen # hyphen # q)"
  by (auto simp: validate_slug_None slug_scan_iff max_slug_len_def)

theorem accepted_slugs_witness:
  "validate_slug ''a--b'' \<noteq> None \<and> validate_slug ''a-1'' = None"
proof
  have "''a--b'' = ''a'' @ hyphen # hyphen # ''b''" by (simp add: hyphen_def)
  then show "validate_slug ''a--b'' \<noteq> None"
    using accepted_slugs [of "''a--b''"] by blast
  show "validate_slug ''a-1'' = None" by code_simp
qed

text \<open>
  C36. Normalised fields: accepted input has a title, respects every limit, its body is kept byte for
  byte, and normalising it again changes nothing.
\<close>

theorem normalized_fields:
  assumes "normalize_fields f0 = Inr f"
  shows "normalize_fields f = Inr f \<and> f_body f = f_body f0 \<and> f_noindex f = f_noindex f0 \<and>
    f_title f \<noteq> [] \<and> rune_count (f_title f) \<le> 500 \<and> rune_count (f_body f) \<le> 500000 \<and>
    rune_count (f_meta_title f) \<le> 1000 \<and> rune_count (f_meta_description f) \<le> 1000 \<and>
    rune_count (f_canonical_url f) \<le> 2000 \<and> rune_count (f_og_image_url f) \<le> 2000 \<and>
    trim_space (f_title f) = f_title f"
proof -
  have f: "f = trim_fields f0" "f_title f \<noteq> []" "check_limits (field_limits f) = None"
    using assms unfolding normalize_fields_Inr by blast+
  have "trim_fields f = f" unfolding f(1) by simp
  with f(2,3) have "normalize_fields f = Inr f" by (simp add: normalize_fields_Inr)
  moreover have "trim_space (f_title f) = f_title f" "f_body f = f_body f0" "f_noindex f = f_noindex f0"
    using f(1) by (simp_all add: trim_fields_def trim_space_idem)
  moreover have "\<forall>(fld, val, n) \<in> set (field_limits f). int (rune_count val) \<le> n"
    using f(3) unfolding check_limits_None .
  ultimately show ?thesis
    using f(2) by (simp add: field_limits_def max_title_len_def max_body_len_def
        max_meta_len_def max_url_len_def)
qed

theorem normalized_fields_witness:
  "normalize_fields ((draft ''one'')\<lparr>f_body := '' x ''\<rparr>) = Inr ((draft ''one'')\<lparr>f_body := '' x ''\<rparr>) \<and>
   trim_space ''one'' = ''one''"
proof -
  have "normalize_fields ((draft '' one'')\<lparr>f_body := '' x ''\<rparr>) = Inr ((draft ''one'')\<lparr>f_body := '' x ''\<rparr>)"
    by code_simp
  from normalized_fields [OF this] show ?thesis by (simp add: draft_def)
qed

end
