(* ===== verification/Json_Output.thy ===== *)
theory Json_Output
  imports Public_Api "HOL-Library.List_Lexorder" "HOL-Library.Char_ord"
begin

text \<open>
  Response bodies as JSON: the field names, their order and the \<open>omitempty\<close> options that the struct
  tags of \<open>internal/httpapi\<close> give to \<open>encoding/json\<close>. The bytes of a JSON value are the library's;
  what it does to the contents of a string, replacing invalid UTF-8, is written out because it can
  be seen.
\<close>

section \<open>Strings on the wire\<close>

definition replacement_rune :: string where
  "replacement_rune = [CHR 0xEF, CHR 0xBF, CHR 0xBD]"

text \<open>\<open>encoding/json\<close> writes the replacement character for each byte that starts no valid rune.\<close>

function to_valid_utf8 :: "string \<Rightarrow> string" where
  "to_valid_utf8 [] = []"
| "to_valid_utf8 (c # cs) =
     (if rune_width (c # cs) = 1 \<and> 0x80 \<le> byte_of c then replacement_rune @ to_valid_utf8 cs
      else take (rune_width (c # cs)) (c # cs) @ to_valid_utf8 (drop (rune_width (c # cs)) (c # cs)))"
  by pat_completeness auto
termination
  by (relation "measure length") (use rune_width_pos in \<open>auto simp: Suc_le_eq\<close>)

definition valid_utf8 :: "string \<Rightarrow> bool" where
  "valid_utf8 s \<longleftrightarrow> to_valid_utf8 s = s"

lemma to_valid_ascii: "\<forall>c \<in> set s. byte_of c < 0x80 \<Longrightarrow> to_valid_utf8 s = s"
  by (induction s) (simp_all add: rune_width_ascii)

lemma valid_ascii: "\<forall>c \<in> set s. byte_of c < 0x80 \<Longrightarrow> valid_utf8 s"
  by (simp add: valid_utf8_def to_valid_ascii)

definition json_string :: "string \<Rightarrow> json" where
  "json_string s = JString (to_valid_utf8 s)"

definition json_int :: "int \<Rightarrow> json" where
  "json_int n = JNumber (show_int n)"

definition json_pointer :: "('a \<Rightarrow> json) \<Rightarrow> 'a option \<Rightarrow> json" where
  "json_pointer f x = (case x of None \<Rightarrow> JNull | Some y \<Rightarrow> f y)"

definition omit_empty :: "string \<Rightarrow> string \<Rightarrow> (string \<times> json) list" where
  "omit_empty name v = (if v = [] then [] else [(name, json_string v)])"

section \<open>dto.go, publish.go\<close>

definition json_of_seo :: "seo_dto \<Rightarrow> json" where
  "json_of_seo d = JObject
     [(''meta_title'', json_string (sd_meta_title d)),
      (''meta_description'', json_string (sd_meta_description d)),
      (''canonical_url'', json_string (sd_canonical_url d)),
      (''og_image_url'', json_string (sd_og_image_url d)),
      (''noindex'', JBool (sd_noindex d))]"

definition json_of_version :: "version_dto \<Rightarrow> json" where
  "json_of_version d = JObject
     ([(''version'', json_int (vd_version d)),
       (''title'', json_string (vd_title d)),
       (''body'', json_string (vd_body d)),
       (''seo'', json_of_seo (vd_seo d))] @
      omit_empty ''created_by'' (vd_created_by d) @
      [(''created_at'', json_string (vd_created_at d))])"

definition json_of_content :: "content_dto \<Rightarrow> json" where
  "json_of_content d = JObject
     [(''id'', json_string (cd_id d)),
      (''slug'', json_string (cd_slug d)),
      (''version'', json_int (cd_version d)),
      (''status'', json_string (cd_status d)),
      (''published_at'', json_pointer json_string (cd_published_at d)),
      (''created_at'', json_string (cd_created_at d)),
      (''updated_at'', json_string (cd_updated_at d)),
      (''draft'', json_of_version (cd_draft d)),
      (''published_version'', json_pointer json_int (cd_published_version d))]"

definition json_of_public :: "public_content_dto \<Rightarrow> json" where
  "json_of_public d = JObject
     [(''slug'', json_string (pd_slug d)),
      (''title'', json_string (pd_title d)),
      (''body'', json_string (pd_body d)),
      (''seo'', json_of_seo (pd_seo d)),
      (''published_at'', json_string (pd_published_at d)),
      (''updated_at'', json_string (pd_updated_at d))]"

definition json_of_schedule :: "schedule_dto \<Rightarrow> json" where
  "json_of_schedule d = JObject
     ([(''id'', json_string (hd_id d)),
       (''content_id'', json_string (hd_content_id d)),
       (''version'', json_int (hd_version d)),
       (''run_at'', json_string (hd_run_at d)),
       (''status'', json_string (hd_status d)),
       (''attempts'', json_int (hd_attempts d))] @
      omit_empty ''last_error'' (hd_last_error d) @
      (case hd_locked_by d of None \<Rightarrow> [] | Some by \<Rightarrow> [(''locked_by'', json_string by)]) @
      [(''created_at'', json_string (hd_created_at d)),
       (''updated_at'', json_string (hd_updated_at d))])"

definition json_of_list :: "('a \<Rightarrow> json) \<Rightarrow> 'a list_response \<Rightarrow> json" where
  "json_of_list f l = JObject
     [(''items'', JArray (map f (lr_items l))), (''total'', json_int (lr_total l)),
      (''limit'', json_int (lr_limit l)), (''offset'', json_int (lr_offset l))]"

section \<open>errors.go, router.go, html.go\<close>

fun json_of_detail :: "detail \<Rightarrow> json" where
  "json_of_detail (DString s) = json_string s"
| "json_of_detail (DInt n) = json_int n"

text \<open>A map is written in the order of its keys, and left out where empty.\<close>

definition json_of_error :: "string \<Rightarrow> string \<Rightarrow> (string \<times> detail) list \<Rightarrow> json" where
  "json_of_error code msg details = JObject [(''error'', JObject
     ([(''code'', json_string code), (''message'', json_string msg)] @
      (if details = [] then []
       else [(''details'', JObject (map (\<lambda>(k, v). (k, json_of_detail v)) (sort_key fst details)))])))]"

definition json_of_health :: "(string \<times> string) list \<Rightarrow> json" where
  "json_of_health m = JObject (map (\<lambda>(k, v). (k, json_string v)) (sort_key fst m))"

definition json_of_article :: "article_ld \<Rightarrow> json" where
  "json_of_article d = JObject
     ([(''@context'', json_string (ld_context d)),
       (''@type'', json_string (ld_type d)),
       (''headline'', json_string (ld_headline d))] @
      omit_empty ''description'' (ld_description d) @
      [(''datePublished'', json_string (ld_date_published d)),
       (''dateModified'', json_string (ld_date_modified d))] @
      omit_empty ''image'' (ld_image d) @
      [(''mainEntityOfPage'', JObject
         [(''@type'', json_string (ld_main_type d)), (''@id'', json_string (ld_main_id d))])])"

text \<open>What \<open>writeJSON\<close> encodes; the other bodies are not JSON.\<close>

fun json_of_payload :: "payload \<Rightarrow> json option" where
  "json_of_payload (ErrorBody code msg details) = Some (json_of_error code msg details)"
| "json_of_payload (ContentBody d) = Some (json_of_content d)"
| "json_of_payload (ContentList l) = Some (json_of_list json_of_content l)"
| "json_of_payload (VersionBody d) = Some (json_of_version d)"
| "json_of_payload (VersionList l) = Some (json_of_list json_of_version l)"
| "json_of_payload (ScheduleBody d) = Some (json_of_schedule d)"
| "json_of_payload (ScheduleList l) = Some (json_of_list json_of_schedule l)"
| "json_of_payload (PublicBody d) = Some (json_of_public d)"
| "json_of_payload (PublicList l) = Some (json_of_list json_of_public l)"
| "json_of_payload (HealthBody m) = Some (json_of_health m)"
| "json_of_payload p = None"

section \<open>The page for errors: html.go\<close>

definition quoted :: "string \<Rightarrow> string" where
  "quoted s = dquote # s @ [dquote]"

definition error_page :: "string \<Rightarrow> string" where
  "error_page heading =
     ''<!DOCTYPE html><html lang='' @ quoted ''en'' @ ''><head><meta charset='' @ quoted ''utf-8'' @ ''>'' @
     ''<meta name='' @ quoted ''robots'' @ '' content='' @ quoted ''noindex'' @ ''><title>'' @ heading @
     ''</title></head>'' @ ''<body><h1>'' @ heading @ ''</h1></body></html>''"

section \<open>Members of an object\<close>

fun member :: "string \<Rightarrow> json \<Rightarrow> json option" where
  "member k (JObject ms) = map_of ms k"
| "member k j = None"

fun member_names :: "json \<Rightarrow> string list" where
  "member_names (JObject ms) = map fst ms"
| "member_names j = []"

end
