(* ===== verification/Router.thy ===== *)
theory Router
  imports Public_Api
begin

text \<open>
  \<open>Server.Routes\<close> of \<open>internal/httpapi/router.go\<close>: the table of routes with the subtree that carries
  the bearer-token middleware. Which route a path takes is decided by the chi library, a parameter
  with its documented behaviour as the assumption of the locale \<open>chi\<close>: a route is taken only when
  method and pattern match, static segments win over parameters, and a request that some route
  matches takes a route. What chi answers when no route matches is a parameter as well. The
  recovering and the logging middleware are in \<open>Middleware\<close>; they hand a request on unchanged when
  no handler panics, and no handler here does.
\<close>

section \<open>The table\<close>

datatype segment = Fixed string | Param string

datatype endpoint =
    EHealth
  | ECreateContent | EListContents | EGetContent | EUpdateContent
  | EListVersions | EGetVersion | EPublish | EUnpublish
  | ECreateSchedule | EListSchedules | ECancelSchedule
  | EPublicList | EPublicGet | ESitemap | ERobots | EHtmlPage

record route =
  rt_method :: string
  rt_pattern :: "segment list"
  rt_admin :: bool
  rt_endpoint :: endpoint

definition route :: "bool \<Rightarrow> string \<Rightarrow> segment list \<Rightarrow> endpoint \<Rightarrow> route" where
  "route admin m p e = \<lparr>rt_method = m, rt_pattern = p, rt_admin = admin, rt_endpoint = e\<rparr>"

text \<open>A subtree's \<open>/\<close> is served at the mount point with and without the trailing slash.\<close>

definition index_route :: "string \<Rightarrow> segment list \<Rightarrow> endpoint \<Rightarrow> route list" where
  "index_route m p e = [route True m p e, route True m (p @ [Fixed []]) e]"

definition contents_path :: "segment list" where
  "contents_path = [Fixed ''api'', Fixed ''v1'', Fixed ''contents'']"

definition content_path :: "segment list" where
  "content_path = contents_path @ [Param ''id'']"

definition public_path :: "segment list" where
  "public_path = [Fixed ''public'', Fixed ''v1'', Fixed ''contents'']"

definition admin_routes :: "route list" where
  "admin_routes =
     index_route ''POST'' contents_path ECreateContent @
     index_route ''GET'' contents_path EListContents @
     index_route ''GET'' content_path EGetContent @
     index_route ''PUT'' content_path EUpdateContent @
     [route True ''GET'' (content_path @ [Fixed ''versions'']) EListVersions,
      route True ''GET'' (content_path @ [Fixed ''versions'', Param ''version'']) EGetVersion,
      route True ''POST'' (content_path @ [Fixed ''publish'']) EPublish,
      route True ''POST'' (content_path @ [Fixed ''unpublish'']) EUnpublish,
      route True ''POST'' (content_path @ [Fixed ''schedules'']) ECreateSchedule,
      route True ''GET'' (content_path @ [Fixed ''schedules'']) EListSchedules,
      route True ''DELETE'' [Fixed ''api'', Fixed ''v1'', Fixed ''schedules'', Param ''scheduleID'']
        ECancelSchedule]"

definition public_routes :: "route list" where
  "public_routes =
     [route False ''GET'' public_path EPublicList,
      route False ''GET'' (public_path @ [Param ''slug'']) EPublicGet,
      route False ''GET'' [Fixed ''sitemap.xml''] ESitemap,
      route False ''GET'' [Fixed ''robots.txt''] ERobots,
      route False ''GET'' [Param ''slug''] EHtmlPage]"

definition routes :: "route list" where
  "routes = route False ''GET'' [Fixed ''healthz''] EHealth # admin_routes @ public_routes"

section \<open>Handlers behind the routes\<close>

type_synonym params = "(string \<times> string) list"

definition url_param :: "string \<Rightarrow> params \<Rightarrow> string" where
  "url_param name ps = (case map_of ps name of None \<Rightarrow> [] | Some v \<Rightarrow> v)"

fun dispatch :: "server \<Rightarrow> endpoint \<Rightarrow> params \<Rightarrow> http_request \<Rightarrow> handler" where
  "dispatch sv EHealth ps req = handle_health"
| "dispatch sv ECreateContent ps req = handle_create_content sv req"
| "dispatch sv EListContents ps req = handle_list_contents req"
| "dispatch sv EGetContent ps req = handle_get_content (url_param ''id'' ps)"
| "dispatch sv EUpdateContent ps req = handle_update_content sv (url_param ''id'' ps) req"
| "dispatch sv EListVersions ps req = handle_list_versions (url_param ''id'' ps) req"
| "dispatch sv EGetVersion ps req = handle_get_version (url_param ''id'' ps) (url_param ''version'' ps)"
| "dispatch sv EPublish ps req = handle_publish sv (url_param ''id'' ps) req"
| "dispatch sv EUnpublish ps req = handle_unpublish (url_param ''id'' ps) req"
| "dispatch sv ECreateSchedule ps req = handle_create_schedule sv (url_param ''id'' ps) req"
| "dispatch sv EListSchedules ps req = handle_list_schedules (url_param ''id'' ps)"
| "dispatch sv ECancelSchedule ps req = handle_cancel_schedule (url_param ''scheduleID'' ps)"
| "dispatch sv EPublicList ps req = handle_public_list req"
| "dispatch sv EPublicGet ps req = handle_public_get (url_param ''slug'' ps) req"
| "dispatch sv ESitemap ps req = handle_sitemap sv req"
| "dispatch sv ERobots ps req = handle_robots sv"
| "dispatch sv EHtmlPage ps req = handle_html_page sv (url_param ''slug'' ps) req"

type_synonym picker = "string \<Rightarrow> string \<Rightarrow> (route \<times> params) option"

definition serve ::
    "picker \<Rightarrow> (http_request \<Rightarrow> http_response) \<Rightarrow> server \<Rightarrow> http_request \<Rightarrow> handler" where
  "serve pick miss sv req =
     (case pick (rq_method req) (rq_path req) of
        None \<Rightarrow> respond (miss req)
      | Some (rt, ps) \<Rightarrow>
          (let h = dispatch sv (rt_endpoint rt) ps req
           in if rt_admin rt
              then require_bearer_token (cfg_admin_api_token (sv_cfg sv)) req h
              else h))"

section \<open>What chi documents\<close>

fun match_segments :: "segment list \<Rightarrow> string list \<Rightarrow> params option" where
  "match_segments [] [] = Some []"
| "match_segments (Fixed s # ps) (x # xs) = (if x = s then match_segments ps xs else None)"
| "match_segments (Param n # ps) (x # xs) = map_option (Cons (n, x)) (match_segments ps xs)"
| "match_segments ps xs = None"

definition path_segments :: "string \<Rightarrow> string list" where
  "path_segments path = split_at (CHR ''/'') (tl path)"

definition route_params :: "string \<Rightarrow> string \<Rightarrow> route \<Rightarrow> params option" where
  "route_params m path rt =
     (if rt_method rt = m then match_segments (rt_pattern rt) (path_segments path) else None)"

text \<open>At the first segment where two patterns differ in kind, the static one wins.\<close>

fun static_first :: "segment list \<Rightarrow> segment list \<Rightarrow> bool" where
  "static_first (Fixed s # ps) (Param n # qs) = True"
| "static_first (Fixed s # ps) (Fixed t # qs) = (s = t \<and> static_first ps qs)"
| "static_first (Param m # ps) (Param n # qs) = static_first ps qs"
| "static_first ps qs = False"

locale chi =
  fixes pick :: picker
  assumes sound: "pick m path = Some (rt, ps) \<Longrightarrow> rt \<in> set routes \<and> route_params m path rt = Some ps"
    and static: "pick m path = Some (rt, ps) \<Longrightarrow> rt' \<in> set routes \<Longrightarrow> route_params m path rt' \<noteq> None \<Longrightarrow>
      \<not> static_first (rt_pattern rt') (rt_pattern rt)"
    and complete: "rt \<in> set routes \<Longrightarrow> route_params m path rt = Some ps \<Longrightarrow> [] \<notin> snd ` set ps \<Longrightarrow>
      pick m path \<noteq> None"

text \<open>A router that has this behaviour: the first route of the table that matches.\<close>

fun first_of :: "string \<Rightarrow> string \<Rightarrow> route list \<Rightarrow> (route \<times> params) option" where
  "first_of m path [] = None"
| "first_of m path (rt # rts) =
     (case route_params m path rt of Some ps \<Rightarrow> Some (rt, ps) | None \<Rightarrow> first_of m path rts)"

definition first_route :: picker where
  "first_route m path = first_of m path routes"

lemma first_of_Some:
  "first_of m path rts = Some (rt, ps) \<Longrightarrow>
   \<exists>xs ys. rts = xs @ rt # ys \<and> route_params m path rt = Some ps \<and> (\<forall>x \<in> set xs. route_params m path x = None)"
proof (induction rts)
  case (Cons r rts)
  show ?case
  proof (cases "route_params m path r")
    case None
    with Cons obtain xs ys where "rts = xs @ rt # ys" "route_params m path rt = Some ps"
      "\<forall>x \<in> set xs. route_params m path x = None" by auto
    with None have "r # rts = (r # xs) @ rt # ys \<and> route_params m path rt = Some ps \<and>
        (\<forall>x \<in> set (r # xs). route_params m path x = None)" by simp
    then show ?thesis by blast
  next
    case (Some ps')
    with Cons.prems have "r # rts = [] @ rt # rts \<and> route_params m path rt = Some ps" by simp
    then show ?thesis by (metis empty_iff empty_set)
  qed
qed simp

lemma first_of_None: "first_of m path rts = None \<Longrightarrow> rt \<in> set rts \<Longrightarrow> route_params m path rt = None"
  by (induction rts) (auto split: option.splits)

lemma routes_static_first:
  "sorted_wrt (\<lambda>a b. \<not> static_first (rt_pattern b) (rt_pattern a) \<or> rt_method a \<noteq> rt_method b) routes"
  by code_simp

lemma static_first_irrefl: "\<not> static_first p p"
proof (induction p)
  case (Cons s p)
  then show ?case by (cases s) simp_all
qed simp

interpretation first: chi first_route
proof
  fix m path rt ps
  assume "first_route m path = Some (rt, ps)"
  from first_of_Some [OF this [unfolded first_route_def]] obtain xs ys where
    r: "routes = xs @ rt # ys" "route_params m path rt = Some ps"
      "\<forall>x \<in> set xs. route_params m path x = None" by blast
  have "rt \<in> set routes" unfolding r(1) by simp
  with r(2) show "rt \<in> set routes \<and> route_params m path rt = Some ps" by blast
  fix rt'
  assume rt': "rt' \<in> set routes" "route_params m path rt' \<noteq> None"
  then have later: "rt' = rt \<or> rt' \<in> set ys" using r(3) unfolding r(1) by auto
  have same: "rt_method rt' = rt_method rt"
    using rt'(2) r(2) by (auto simp: route_params_def split: if_splits)
  show "\<not> static_first (rt_pattern rt') (rt_pattern rt)"
    using later same routes_static_first static_first_irrefl [of "rt_pattern rt"]
    unfolding r(1) by (auto simp: sorted_wrt_append)
next
  fix rt m path ps
  assume "rt \<in> set routes" "route_params m path rt = Some ps"
  then show "first_route m path \<noteq> None"
    using first_of_None [of m path routes rt] unfolding first_route_def by fastforce
qed

section \<open>Access control\<close>

lemma admin_pattern:
  "\<forall>rt \<in> set routes. rt_admin rt \<longleftrightarrow> take 2 (rt_pattern rt) = [Fixed ''api'', Fixed ''v1'']"
  by code_simp

lemma public_readonly:
  "rt \<in> set routes \<Longrightarrow> \<not> rt_admin rt \<Longrightarrow> h_readonly (dispatch sv (rt_endpoint rt) ps req)"
  by (auto simp: routes_def admin_routes_def public_routes_def index_route_def route_def h_intros)

lemma match_take:
  "match_segments p xs = Some ps \<Longrightarrow> p = Fixed s # q \<Longrightarrow> \<exists>xs'. xs = s # xs' \<and> match_segments q xs' = Some ps"
  by (cases xs) (auto split: if_splits)

lemma match_admin:
  assumes "match_segments p (path_segments path) = Some ps"
  shows "take 2 p = [Fixed ''api'', Fixed ''v1''] \<Longrightarrow> take 2 (path_segments path) = [''api'', ''v1'']"
  using assms by (cases "(p, path_segments path)" rule: match_segments.cases)
    (auto simp: take_Cons' numeral_2_eq_2 split: if_splits elim: match_segments.elims)

context chi
begin

lemma no_token_no_effect:
  assumes "pick (rq_method req) (rq_path req) = Some (rt, ps)" "rt_admin rt"
    and "\<not> authorized (cfg_admin_api_token (sv_cfg sv)) (rq_header req ''Authorization'')"
  shows "serve pick miss sv req w = (unauthorized_response, w)"
  using assms by (simp add: serve_def require_bearer_token_def respond_def)

lemma only_admin_writes:
  assumes "tables (snd (serve pick miss sv req w)) \<noteq> tables w"
  shows "authorized (cfg_admin_api_token (sv_cfg sv)) (rq_header req ''Authorization'') \<and>
    take 2 (path_segments (rq_path req)) = [''api'', ''v1'']"
proof (cases "pick (rq_method req) (rq_path req)")
  case None
  with assms show ?thesis by (simp add: serve_def respond_def)
next
  case (Some x)
  then obtain rt ps where x: "pick (rq_method req) (rq_path req) = Some (rt, ps)" by (cases x) auto
  with sound have rt: "rt \<in> set routes" "route_params (rq_method req) (rq_path req) rt = Some ps" by auto
  have admin: "rt_admin rt"
  proof (rule ccontr)
    assume "\<not> rt_admin rt"
    with public_readonly [OF rt(1) this, of sv ps req] x assms show False
      by (simp add: serve_def h_readonly_def)
  qed
  then have "take 2 (rt_pattern rt) = [Fixed ''api'', Fixed ''v1'']"
    using admin_pattern rt(1) by blast
  moreover have "match_segments (rt_pattern rt) (path_segments (rq_path req)) = Some ps"
    using rt(2) by (simp add: route_params_def split: if_splits)
  ultimately have "take 2 (path_segments (rq_path req)) = [''api'', ''v1'']"
    by (rule match_admin [rotated])
  with no_token_no_effect [OF x admin] assms show ?thesis by fastforce
qed

lemma serve_keeps: "h_keeps db_ok (serve pick miss sv req)"
proof (cases "pick (rq_method req) (rq_path req)")
  case None
  then show ?thesis by (simp add: serve_def h_intros)
next
  case (Some x)
  have "h_keeps db_ok (dispatch sv e ps req)" for e ps
    by (cases e) (simp_all add: h_intros h_keeps_readonly)
  with Some show ?thesis
    by (cases x) (simp add: serve_def Let_def require_bearer_token_def h_intros)
qed

end

end
