(* ===== verification/Migrations.thy ===== *)
theory Migrations
  imports Go_Numbers
begin

text \<open>
  \<open>internal/store/migrate.go\<close>: the calls of the goose library. Its settings are global and written
  once in the life of the process (\<open>gooseOnce\<close>, \<open>gooseErr\<close>); what goose answers is a parameter of
  each call. The state records the calls made, so that the order of configuring and migrating and
  the number of configurations can be stated.
\<close>

datatype goose_call = SetBaseFS | SetLogger | SetDialect string | UpCall | DownCall | VersionCall

record goose =
  g_once :: bool
  g_err :: "string option"
  g_calls :: "goose_call list"

definition fresh_goose :: goose where
  "fresh_goose = \<lparr>g_once = False, g_err = None, g_calls = []\<rparr>"

datatype migrate_error =
    ConfigureGoose string
  | ApplyMigrations string
  | RollBackMigration string
  | ReadMigrationVersion string

text \<open>\<open>configureGoose\<close>; \<open>dialect\<close> is the answer of \<open>SetDialect\<close>, asked for the first time only.\<close>

definition configure_goose :: "string option \<Rightarrow> goose \<Rightarrow> string option \<times> goose" where
  "configure_goose dialect g =
     (let g' = (if g_once g then g
                else g\<lparr>g_once := True, g_err := dialect,
                       g_calls := g_calls g @ [SetBaseFS, SetLogger, SetDialect ''sqlite3'']\<rparr>)
      in (g_err g', g'))"

definition call_goose :: "goose_call \<Rightarrow> goose \<Rightarrow> goose" where
  "call_goose c g = g\<lparr>g_calls := g_calls g @ [c]\<rparr>"

definition migrate :: "string option \<Rightarrow> string option \<Rightarrow> goose \<Rightarrow> migrate_error option \<times> goose" where
  "migrate dialect up g =
     (case configure_goose dialect g of
        (Some e, g1) \<Rightarrow> (Some (ConfigureGoose e), g1)
      | (None, g1) \<Rightarrow> (map_option ApplyMigrations up, call_goose UpCall g1))"

definition migrate_down :: "string option \<Rightarrow> string option \<Rightarrow> goose \<Rightarrow> migrate_error option \<times> goose" where
  "migrate_down dialect down g =
     (case configure_goose dialect g of
        (Some e, g1) \<Rightarrow> (Some (ConfigureGoose e), g1)
      | (None, g1) \<Rightarrow> (map_option RollBackMigration down, call_goose DownCall g1))"

definition migration_version ::
    "string option \<Rightarrow> string + int64 \<Rightarrow> goose \<Rightarrow> (migrate_error + int64) \<times> goose" where
  "migration_version dialect version g =
     (case configure_goose dialect g of
        (Some e, g1) \<Rightarrow> (Inl (ConfigureGoose e), g1)
      | (None, g1) \<Rightarrow>
          (case version of Inl e \<Rightarrow> Inl (ReadMigrationVersion e) | Inr v \<Rightarrow> Inr v,
           call_goose VersionCall g1))"

section \<open>Any number of databases in one process\<close>

datatype goose_op =
    MigrateOp "string option" "string option"
  | MigrateDownOp "string option" "string option"
  | VersionOp "string option" "string + int64"

fun run_goose_op :: "goose_op \<Rightarrow> goose \<Rightarrow> migrate_error option \<times> goose" where
  "run_goose_op (MigrateOp dialect up) g = migrate dialect up g"
| "run_goose_op (MigrateDownOp dialect down) g = migrate_down dialect down g"
| "run_goose_op (VersionOp dialect version) g =
     (case migration_version dialect version g of (Inl e, g1) \<Rightarrow> (Some e, g1) | (Inr v, g1) \<Rightarrow> (None, g1))"

fun run_goose_ops :: "goose_op list \<Rightarrow> goose \<Rightarrow> migrate_error option list \<times> goose" where
  "run_goose_ops [] g = ([], g)"
| "run_goose_ops (op # ops) g =
     (case run_goose_op op g of (r, g1) \<Rightarrow>
        (case run_goose_ops ops g1 of (rs, g2) \<Rightarrow> (r # rs, g2)))"

fun dialect_answer :: "goose_op \<Rightarrow> string option" where
  "dialect_answer (MigrateOp dialect up) = dialect"
| "dialect_answer (MigrateDownOp dialect down) = dialect"
| "dialect_answer (VersionOp dialect version) = dialect"

abbreviation settings :: "goose_call list" where
  "settings \<equiv> [SetBaseFS, SetLogger, SetDialect ''sqlite3'']"

text \<open>Once configured, an operation repeats a failed configuration or makes its one call.\<close>

lemma run_configured:
  assumes "g_once g" "run_goose_op op g = (r, g')"
  shows "g_once g' \<and> g_err g' = g_err g \<and>
    (case g_err g of
       Some e \<Rightarrow> r = Some (ConfigureGoose e) \<and> g_calls g' = g_calls g
     | None \<Rightarrow> (\<exists>c. c \<notin> set settings \<and> g_calls g' = g_calls g @ [c]) \<and> (\<forall>e. r \<noteq> Some (ConfigureGoose e)))"
  using assms
  by (cases op)
    (auto simp: migrate_def migrate_down_def migration_version_def configure_goose_def Let_def call_goose_def
      split: option.splits sum.splits)

lemma run_ops_configured:
  assumes "g_once g" "run_goose_ops ops g = (rs, g')"
  shows "g_once g' \<and> g_err g' = g_err g \<and>
    (case g_err g of
       Some e \<Rightarrow> set rs \<subseteq> {Some (ConfigureGoose e)} \<and> g_calls g' = g_calls g
     | None \<Rightarrow> (\<exists>cs. set cs \<inter> set settings = {} \<and> length cs = length ops \<and> g_calls g' = g_calls g @ cs) \<and>
         (\<forall>e. Some (ConfigureGoose e) \<notin> set rs))"
  using assms
proof (induction ops arbitrary: g rs g')
  case (Cons op ops)
  obtain r g1 where r: "run_goose_op op g = (r, g1)" by fastforce
  obtain rs' g2 where rs: "run_goose_ops ops g1 = (rs', g2)" by fastforce
  from Cons.prems(2) r rs have eq: "rs = r # rs'" "g' = g2" by auto
  note one = run_configured [OF Cons.prems(1) r]
  note rest = Cons.IH [OF conjunct1 [OF one] rs]
  show ?case
  proof (cases "g_err g")
    case None
    with one obtain c where c: "c \<notin> set settings" "g_calls g1 = g_calls g @ [c]"
      "\<forall>e. r \<noteq> Some (ConfigureGoose e)" "g_err g1 = None" by auto
    with rest obtain cs where cs: "set cs \<inter> set settings = {}" "length cs = length ops"
      "g_calls g2 = g_calls g1 @ cs" "\<forall>e. Some (ConfigureGoose e) \<notin> set rs'" by auto
    show ?thesis
      using c cs eq None rest by (auto intro!: exI [of _ "c # cs"])
  qed (use one rest eq in auto)
qed (auto split: option.split)

text \<open>The first operation writes the settings; from then on it is as if they had been there.\<close>

definition configured :: "string option \<Rightarrow> goose" where
  "configured dialect = \<lparr>g_once = True, g_err = dialect, g_calls = settings\<rparr>"

lemma run_fresh: "run_goose_op op fresh_goose = run_goose_op op (configured (dialect_answer op))"
  by (cases op)
    (simp_all add: migrate_def migrate_down_def migration_version_def configure_goose_def fresh_goose_def
      configured_def)

lemma run_ops_fresh:
  "run_goose_ops (op # ops) fresh_goose = run_goose_ops (op # ops) (configured (dialect_answer op))"
  by (simp add: run_fresh)

end
