(* ===== verification/Db_Handle.thy ===== *)
theory Db_Handle
  imports Go_Numbers
begin

text \<open>
  \<open>internal/store/db.go\<close>: the connection strings of the two pools, and which pools are open after
  \<open>Open\<close> succeeded or failed and after \<open>Close\<close>. The driver's answers and \<open>filepath.Dir\<close> are
  parameters; on the systems with slashes in paths \<open>filepath.ToSlash\<close> changes nothing.
\<close>

section \<open>Connection strings\<close>

text \<open>\<open>url.PathEscape\<close>: letters, digits and a few marks stay, every other byte becomes \<open>%XX\<close>.\<close>

definition letter_or_digit :: "char \<Rightarrow> bool" where
  "letter_or_digit c \<longleftrightarrow>
     between 0x61 0x7A (byte_of c) \<or> between 0x41 0x5A (byte_of c) \<or> is_digit c"

definition stays :: "char \<Rightarrow> bool" where
  "stays c \<longleftrightarrow> letter_or_digit c \<or> c \<in> set ''-_.~$&+=:@''"

definition hex_char :: "nat \<Rightarrow> char" where
  "hex_char n = char_of (if n < 10 then 48 + n else 55 + n)"

definition escape_char :: "char \<Rightarrow> string" where
  "escape_char c =
     (if stays c then [c] else [CHR 0x25, hex_char (byte_of c div 16), hex_char (byte_of c mod 16)])"

definition path_escape :: "string \<Rightarrow> string" where
  "path_escape s = concat (map escape_char s)"

definition pragmas :: string where
  "pragmas = ''_pragma=journal_mode(WAL)'' @ ''&_pragma=busy_timeout(5000)'' @
             ''&_pragma=foreign_keys(1)'' @ ''&_pragma=synchronous(NORMAL)''"

definition base_dsn :: "string \<Rightarrow> string" where
  "base_dsn path = ''file:'' @ path_escape path @ ''?'' @ pragmas"

definition write_dsn :: "string \<Rightarrow> string" where
  "write_dsn path = base_dsn path @ ''&_txlock=immediate''"

section \<open>Opening and closing\<close>

datatype pool = WritePool | ReadPool

datatype db_step =
    MadeDir string
  | OpenedPool pool string int
  | Pinged pool
  | ClosedPool pool

text \<open>What the operating system and the driver answer: an error, or none.\<close>

record open_answers =
  oa_mkdir :: "string option"
  oa_open_write :: "string option"
  oa_open_read :: "string option"
  oa_ping_write :: "string option"
  oa_ping_read :: "string option"

datatype open_error =
    MkdirFailed string string
  | OpenWriteFailed string
  | OpenReadFailed string
  | ConnectFailed string string
  | ConnectReadFailed string string

text \<open>\<open>DB.Close\<close>: both pools, the first error wins.\<close>

definition close_db :: "string option \<Rightarrow> string option \<Rightarrow> string option \<times> db_step list" where
  "close_db read_err write_err =
     (case read_err of Some e \<Rightarrow> Some e | None \<Rightarrow> write_err, [ClosedPool ReadPool, ClosedPool WritePool])"

definition readers :: "int \<Rightarrow> int" where
  "readers num_cpu = (if num_cpu < 4 then 4 else num_cpu)"

definition open_db ::
    "(string \<Rightarrow> string) \<Rightarrow> int \<Rightarrow> open_answers \<Rightarrow> string \<Rightarrow> open_error option \<times> db_step list" where
  "open_db dir_of num_cpu a path =
     (let dir = dir_of path;
          needs_dir = (dir \<noteq> [] \<and> dir \<noteq> ''.'');
          made = (if needs_dir then [MadeDir dir] else []);
          write = OpenedPool WritePool (write_dsn path) 1;
          read = OpenedPool ReadPool (base_dsn path) (readers num_cpu)
      in case (if needs_dir then oa_mkdir a else None) of
           Some e \<Rightarrow> (Some (MkdirFailed dir e), [])
         | None \<Rightarrow> (case oa_open_write a of
             Some e \<Rightarrow> (Some (OpenWriteFailed e), made)
           | None \<Rightarrow> (case oa_open_read a of
               Some e \<Rightarrow> (Some (OpenReadFailed e), made @ [write, ClosedPool WritePool])
             | None \<Rightarrow> (case oa_ping_write a of
                 Some e \<Rightarrow> (Some (ConnectFailed path e), made @ [write, read] @ snd (close_db None None))
               | None \<Rightarrow> (case oa_ping_read a of
                   Some e \<Rightarrow> (Some (ConnectReadFailed path e),
                     made @ [write, read, Pinged WritePool] @ snd (close_db None None))
                 | None \<Rightarrow> (None, made @ [write, read, Pinged WritePool, Pinged ReadPool]))))))"

text \<open>The pools that are open after some steps.\<close>

fun open_pools :: "db_step list \<Rightarrow> pool set \<Rightarrow> pool set" where
  "open_pools [] ps = ps"
| "open_pools (OpenedPool p dsn n # ss) ps = open_pools ss (insert p ps)"
| "open_pools (ClosedPool p # ss) ps = open_pools ss (ps - {p})"
| "open_pools (MadeDir d # ss) ps = open_pools ss ps"
| "open_pools (Pinged p # ss) ps = open_pools ss ps"

section \<open>Escaping\<close>

definition hex_value :: "char \<Rightarrow> nat" where
  "hex_value c = (if byte_of c < 58 then byte_of c - 48 else byte_of c - 55)"

text \<open>Percent-decoding, as SQLite reads the path of a URI.\<close>

fun percent_decode :: "string \<Rightarrow> string" where
  "percent_decode (c # h # l # cs) =
     (if c = CHR 0x25 then char_of (16 * hex_value h + hex_value l) # percent_decode cs
      else c # percent_decode (h # l # cs))"
| "percent_decode s = s"

lemma byte_of_less: "byte_of c < 256"
  by (simp add: byte_of_def)

lemma hex_value_char: "n < 16 \<Longrightarrow> hex_value (hex_char n) = n"
  by (auto simp: hex_value_def hex_char_def byte_of_def)

lemma percent_not_stays: "\<not> stays (CHR 0x25)"
  by (simp add: stays_def letter_or_digit_def is_digit_def between_def byte_of_def)

lemma percent_decode_Cons: "c \<noteq> CHR 0x25 \<Longrightarrow> percent_decode (c # s) = c # percent_decode s"
  by (cases s; cases "tl s") auto

lemma percent_decode_escape: "percent_decode (path_escape s) = s"
proof (induction s)
  case (Cons c s)
  show ?case
  proof (cases "stays c")
    case True
    with percent_not_stays have "c \<noteq> CHR 0x25" by blast
    with Cons True show ?thesis by (simp add: path_escape_def escape_char_def percent_decode_Cons)
  next
    case False
    have "byte_of c div 16 < 16" using byte_of_less [of c] by linarith
    with Cons False show ?thesis
      by (simp add: path_escape_def escape_char_def hex_value_char byte_of_def)
  qed
qed (simp add: path_escape_def)

lemma path_escape_no_question: "CHR ''?'' \<notin> set (path_escape s)"
proof -
  have "CHR ''?'' \<noteq> hex_char n" if "n < 16" for n
  proof
    assume "CHR ''?'' = hex_char n"
    then have "byte_of (CHR ''?'') = (if n < 10 then 48 + n else 55 + n)"
      using that by (simp add: hex_char_def byte_of_def split: if_splits)
    with that show False by (simp add: byte_of_def split: if_splits)
  qed
  moreover have "\<not> stays (CHR ''?'')"
    by (simp add: stays_def letter_or_digit_def is_digit_def between_def byte_of_def)
  moreover have "byte_of c div 16 < 16" "byte_of c mod 16 < 16" for c
    using byte_of_less [of c] by linarith+
  ultimately show ?thesis
    by (auto simp: path_escape_def escape_char_def split: if_splits)
qed

end
