(* ===== verification/Harness.thy ===== *)
theory Harness
  imports Json_Output Router Migrations Db_Handle
begin

text \<open>
  \<open>internal/testutil/harness.go\<close>: the client of the service that the tests of the repository are
  written with. It sets up a configuration, a database and a clock, marshals requests, sends them to
  the router and unmarshals the answers. A helper that fails the test when an expectation does not
  hold returns an option, \<open>None\<close> for the failed test. What the wire does (the JSON scanner on raw
  bodies, the splitting of a URL) and the router are parameters.
\<close>

section \<open>Configuration and set-up\<close>

definition admin_token :: string where
  "admin_token = ''test-admin-token''"

definition base_time :: instant where
  "base_time = instant_of \<lparr>cl_year = 2026, cl_month = 1, cl_day = 15, cl_hour = 12, cl_minute = 0,
     cl_second = 0, cl_nano = 0\<rparr>"

type_synonym harness_option = "config \<Rightarrow> config"

definition with_poll_interval :: "int64 \<Rightarrow> harness_option" where
  "with_poll_interval d c = c\<lparr>cfg_poll_interval := d\<rparr>"

definition with_lease_ttl :: "int64 \<Rightarrow> harness_option" where
  "with_lease_ttl d c = c\<lparr>cfg_lease_ttl := d\<rparr>"

definition with_public_base_url :: "string \<Rightarrow> harness_option" where
  "with_public_base_url u c = c\<lparr>cfg_public_base_url := u\<rparr>"

definition milliseconds :: "int \<Rightarrow> int64" where
  "milliseconds n = n * 1000000"

definition default_config :: "string \<Rightarrow> config" where
  "default_config path =
     \<lparr>cfg_addr = ''127.0.0.1:0'', cfg_db_path = path, cfg_admin_api_token = admin_token,
      cfg_public_base_url = ''https://example.test'', cfg_poll_interval = milliseconds 20,
      cfg_lease_ttl = seconds 2, cfg_batch_size = 10, cfg_shutdown_grace = seconds 5,
      cfg_scheduler_on = False, cfg_log_json = False\<rparr>"

record harness =
  hn_cfg :: config
  hn_clock :: fake_clock
  hn_db_path :: string

definition new_harness :: "string \<Rightarrow> harness_option list \<Rightarrow> harness" where
  "new_harness path opts =
     \<lparr>hn_cfg = fold (\<lambda>opt c. opt c) opts (default_config path), hn_clock = new_fake base_time,
      hn_db_path = path\<rparr>"

text \<open>The world a test starts in: a migrated database without rows, and the harness's clock.\<close>

definition harness_world :: "harness \<Rightarrow> world" where
  "harness_world h = \<lparr>tables = empty_db, faults = [], clock_now = fake_now (hn_clock h), clock_later = []\<rparr>"

text \<open>
  \<open>OpenDB\<close>: whether the test goes on, and the steps up to the end of the test, when the database
  that was opened is closed.
\<close>

definition open_test_db ::
    "(string \<Rightarrow> string) \<Rightarrow> int \<Rightarrow> open_answers \<Rightarrow> string option \<Rightarrow> string option \<Rightarrow> string \<Rightarrow> goose \<Rightarrow>
     bool \<times> db_step list \<times> goose" where
  "open_test_db dir_of num_cpu a dialect up path g =
     (case open_db dir_of num_cpu a path of
        (Some e, steps) \<Rightarrow> (False, steps, g)
      | (None, steps) \<Rightarrow>
          (case migrate dialect up g of
             (r, g1) \<Rightarrow> (r = None, steps @ snd (close_db None None), g1)))"

section \<open>Requests and responses\<close>

record wire =
  wi_pick :: picker
  wi_miss :: "http_request \<Rightarrow> http_response"
  wi_scan :: "string \<Rightarrow> request_body"
  wi_url :: "string \<Rightarrow> string \<times> (string \<Rightarrow> string)"

record client_request =
  cq_method :: string
  cq_path :: string
  cq_body :: "json option"
  cq_raw :: string
  cq_headers :: "(string \<times> string) list"
  cq_no_auth :: bool

record client_response =
  cs_status :: int
  cs_header :: header
  cs_body :: "json option"

definition response_etag :: "client_response \<Rightarrow> string" where
  "response_etag r = get_header ''ETag'' (cs_header r)"

definition plain_request :: "string \<Rightarrow> string \<Rightarrow> client_request" where
  "plain_request m path =
     \<lparr>cq_method = m, cq_path = path, cq_body = None, cq_raw = [], cq_headers = [], cq_no_auth = False\<rparr>"

text \<open>The request that \<open>Do\<close> builds; headers of the caller replace the ones set before.\<close>

definition client_headers :: "client_request \<Rightarrow> (string \<times> string) list" where
  "client_headers cq =
     cq_headers cq @
     (if cq_no_auth cq then [] else [(''Authorization'', ''Bearer '' @ admin_token)]) @
     (if cq_body cq \<noteq> None \<or> cq_raw cq \<noteq> [] then [(''Content-Type'', ''application/json'')] else [])"

definition http_request_of :: "wire \<Rightarrow> string \<Rightarrow> client_request \<Rightarrow> http_request" where
  "http_request_of wi uuid cq =
     \<lparr>rq_method = cq_method cq, rq_path = fst (wi_url wi (cq_path cq)),
      rq_header = (\<lambda>k. case map_of (client_headers cq) k of None \<Rightarrow> [] | Some v \<Rightarrow> v),
      rq_query = snd (wi_url wi (cq_path cq)),
      rq_body = (case cq_body cq of Some j \<Rightarrow> Body j False | None \<Rightarrow> wi_scan wi (cq_raw cq)),
      rq_uuid = uuid\<rparr>"

type_synonym 'a test = "world \<Rightarrow> 'a \<times> world"

definition harness_do :: "wire \<Rightarrow> server \<Rightarrow> string \<Rightarrow> client_request \<Rightarrow> client_response test" where
  "harness_do wi sv uuid cq w =
     (case serve (wi_pick wi) (wi_miss wi) sv (http_request_of wi uuid cq) w of
        (r, w1) \<Rightarrow> (\<lparr>cs_status = rs_status r, cs_header = rs_header r, cs_body = json_of_payload (rs_body r)\<rparr>, w1))"

definition harness_get :: "wire \<Rightarrow> server \<Rightarrow> string \<Rightarrow> string \<Rightarrow> client_response test" where
  "harness_get wi sv uuid path = harness_do wi sv uuid (plain_request ''GET'' path)"

definition harness_post :: "wire \<Rightarrow> server \<Rightarrow> string \<Rightarrow> string \<Rightarrow> json \<Rightarrow> client_response test" where
  "harness_post wi sv uuid path body =
     harness_do wi sv uuid ((plain_request ''POST'' path)\<lparr>cq_body := Some body\<rparr>)"

definition harness_put ::
    "wire \<Rightarrow> server \<Rightarrow> string \<Rightarrow> string \<Rightarrow> json \<Rightarrow> (string \<times> string) list \<Rightarrow> client_response test" where
  "harness_put wi sv uuid path body hs =
     harness_do wi sv uuid ((plain_request ''PUT'' path)\<lparr>cq_body := Some body, cq_headers := hs\<rparr>)"

definition harness_delete :: "wire \<Rightarrow> server \<Rightarrow> string \<Rightarrow> string \<Rightarrow> client_response test" where
  "harness_delete wi sv uuid path = harness_do wi sv uuid (plain_request ''DELETE'' path)"

section \<open>Reading answers\<close>

text \<open>
  \<open>json.Unmarshal\<close> into a struct: as the decoder of the server, but a member the struct does not have
  is skipped.
\<close>

fun loose_members ::
    "(string \<times> 's decoder) list \<Rightarrow> (string \<times> json) list \<Rightarrow> 's \<Rightarrow> json_error option \<Rightarrow>
     's \<times> json_error option" where
  "loose_members fs [] x e = (x, e)"
| "loose_members fs ((k, v) # ms) x e =
     (case find_field fs k of
        None \<Rightarrow> loose_members fs ms x e
      | Some d \<Rightarrow> (case d v x of (x', e') \<Rightarrow> loose_members fs ms x' (first_error e e')))"

fun loose_struct :: "(string \<times> 's decoder) list \<Rightarrow> 's decoder" where
  "loose_struct fs JNull x = (x, None)"
| "loose_struct fs (JObject ms) x = loose_members fs ms x None"
| "loose_struct fs j x = (x, Some (TypeMismatch j))"

text \<open>A pointer: \<open>null\<close> makes it nil, any other value is read into a variable of its own.\<close>

fun dec_pointer :: "'a \<Rightarrow> 'a decoder \<Rightarrow> 'a option decoder" where
  "dec_pointer zero d JNull x = (None, None)"
| "dec_pointer zero d j x =
     (case d j (case x of None \<Rightarrow> zero | Some y \<Rightarrow> y) of (y, e) \<Rightarrow> (Some y, e))"

text \<open>\<open>Response.JSON\<close>: the test fails on a body that is not JSON or does not fit.\<close>

definition response_json :: "'s decoder \<Rightarrow> 's \<Rightarrow> client_response \<Rightarrow> 's option" where
  "response_json dec zero r =
     (case cs_body r of
        None \<Rightarrow> None
      | Some j \<Rightarrow> (case dec j zero of (x, None) \<Rightarrow> Some x | (x, Some e) \<Rightarrow> None))"

text \<open>\<open>Response.ErrorCode\<close>; \<open>message\<close> and \<open>details\<close> are read, and must fit, but not used.\<close>

record error_reply =
  er_code :: string
  er_message :: string

fun dec_any_map :: "'s decoder" where
  "dec_any_map JNull x = (x, None)"
| "dec_any_map (JObject ms) x = (x, None)"
| "dec_any_map j x = (x, Some (TypeMismatch j))"

definition error_reply_decoder :: "error_reply decoder" where
  "error_reply_decoder = loose_struct
     [(''error'', loose_struct
        [(''code'', on_field er_code (\<lambda>v. er_code_update (\<lambda>_. v)) dec_string),
         (''message'', on_field er_message (\<lambda>v. er_message_update (\<lambda>_. v)) dec_string),
         (''details'', dec_any_map)])]"

definition error_code :: "client_response \<Rightarrow> string option" where
  "error_code r = map_option er_code (response_json error_reply_decoder \<lparr>er_code = [], er_message = []\<rparr> r)"

text \<open>\<open>ContentResponse\<close>.\<close>

record draft_reply =
  dr_version :: int64
  dr_title :: string
  dr_body :: string
  dr_seo :: seo_request

record content_reply =
  ct_id :: string
  ct_slug :: string
  ct_version :: int64
  ct_status :: string
  ct_published_at :: "string option"
  ct_published_version :: "int64 option"
  ct_draft :: draft_reply

definition zero_draft :: draft_reply where
  "zero_draft = \<lparr>dr_version = 0, dr_title = [], dr_body = [], dr_seo = zero_seo\<rparr>"

definition zero_content :: content_reply where
  "zero_content = \<lparr>ct_id = [], ct_slug = [], ct_version = 0, ct_status = [], ct_published_at = None,
     ct_published_version = None, ct_draft = zero_draft\<rparr>"

definition loose_seo_decoder :: "seo_request decoder" where
  "loose_seo_decoder = loose_struct
     [(''meta_title'', on_field sr_meta_title (\<lambda>v. sr_meta_title_update (\<lambda>_. v)) dec_string),
      (''meta_description'', on_field sr_meta_description (\<lambda>v. sr_meta_description_update (\<lambda>_. v)) dec_string),
      (''canonical_url'', on_field sr_canonical_url (\<lambda>v. sr_canonical_url_update (\<lambda>_. v)) dec_string),
      (''og_image_url'', on_field sr_og_image_url (\<lambda>v. sr_og_image_url_update (\<lambda>_. v)) dec_string),
      (''noindex'', on_field sr_noindex (\<lambda>v. sr_noindex_update (\<lambda>_. v)) dec_bool)]"

definition draft_reply_decoder :: "draft_reply decoder" where
  "draft_reply_decoder = loose_struct
     [(''version'', on_field dr_version (\<lambda>v. dr_version_update (\<lambda>_. v)) dec_int64),
      (''title'', on_field dr_title (\<lambda>v. dr_title_update (\<lambda>_. v)) dec_string),
      (''body'', on_field dr_body (\<lambda>v. dr_body_update (\<lambda>_. v)) dec_string),
      (''seo'', on_field dr_seo (\<lambda>v. dr_seo_update (\<lambda>_. v)) loose_seo_decoder)]"

definition content_reply_decoder :: "content_reply decoder" where
  "content_reply_decoder = loose_struct
     [(''id'', on_field ct_id (\<lambda>v. ct_id_update (\<lambda>_. v)) dec_string),
      (''slug'', on_field ct_slug (\<lambda>v. ct_slug_update (\<lambda>_. v)) dec_string),
      (''version'', on_field ct_version (\<lambda>v. ct_version_update (\<lambda>_. v)) dec_int64),
      (''status'', on_field ct_status (\<lambda>v. ct_status_update (\<lambda>_. v)) dec_string),
      (''published_at'', on_field ct_published_at (\<lambda>v. ct_published_at_update (\<lambda>_. v)) (dec_pointer [] dec_string)),
      (''published_version'', on_field ct_published_version (\<lambda>v. ct_published_version_update (\<lambda>_. v))
         (dec_pointer 0 dec_int64)),
      (''draft'', on_field ct_draft (\<lambda>v. ct_draft_update (\<lambda>_. v)) draft_reply_decoder)]"

section \<open>Calls of the API\<close>

definition seo_body :: "seo_request \<Rightarrow> json" where
  "seo_body s = JObject
     [(''meta_title'', json_string (sr_meta_title s)),
      (''meta_description'', json_string (sr_meta_description s)),
      (''canonical_url'', json_string (sr_canonical_url s)),
      (''og_image_url'', json_string (sr_og_image_url s)),
      (''noindex'', JBool (sr_noindex s))]"

definition create_body :: "create_content_request \<Rightarrow> json" where
  "create_body b = JObject
     [(''slug'', json_string (cr_slug b)), (''title'', json_string (cr_title b)),
      (''body'', json_string (cr_body b)), (''seo'', seo_body (cr_seo b))]"

definition update_body :: "update_content_request \<Rightarrow> json" where
  "update_body b = JObject
     [(''title'', json_string (ur_title b)), (''body'', json_string (ur_body b)),
      (''seo'', seo_body (ur_seo b))]"

definition create_content_call ::
    "wire \<Rightarrow> server \<Rightarrow> string \<Rightarrow> string \<Rightarrow> string \<Rightarrow> content_reply option test" where
  "create_content_call wi sv uuid slug title w =
     (case harness_post wi sv uuid ''/api/v1/contents''
        (create_body \<lparr>cr_slug = slug, cr_title = title, cr_body = ''body of '' @ title, cr_seo = zero_seo\<rparr>) w of
        (r, w1) \<Rightarrow>
          (if cs_status r = 201 then response_json content_reply_decoder zero_content r else None, w1))"

definition harness_etag :: "int64 \<Rightarrow> string" where
  "harness_etag v = dquote # show_int v @ [dquote]"

definition update_content_call ::
    "wire \<Rightarrow> server \<Rightarrow> string \<Rightarrow> string \<Rightarrow> int64 \<Rightarrow> string \<Rightarrow> client_response test" where
  "update_content_call wi sv uuid cid v title =
     harness_put wi sv uuid (''/api/v1/contents/'' @ cid)
       (update_body \<lparr>ur_title = title, ur_body = ''body of '' @ title, ur_seo = zero_seo\<rparr>)
       [(''If-Match'', harness_etag v)]"

text \<open>\<open>ScheduleAt\<close>: the body is a map, whose keys are written in order.\<close>

record id_reply =
  ir_id :: string

definition id_reply_decoder :: "id_reply decoder" where
  "id_reply_decoder = loose_struct [(''id'', on_field ir_id (\<lambda>v. ir_id_update (\<lambda>_. v)) dec_string)]"

definition schedule_at_call ::
    "wire \<Rightarrow> server \<Rightarrow> string \<Rightarrow> string \<Rightarrow> int64 \<Rightarrow> int64 \<Rightarrow> string option test" where
  "schedule_at_call wi sv uuid cid v offset w =
     (case harness_post wi sv uuid (''/api/v1/contents/'' @ cid @ ''/schedules'')
        (JObject [(''run_at'', json_string (format_rfc3339 (time_add base_time offset))),
                  (''version'', json_int v)]) w of
        (r, w1) \<Rightarrow>
          (if cs_status r = 201 then map_option ir_id (response_json id_reply_decoder \<lparr>ir_id = []\<rparr> r) else None, w1))"

definition schedule_status_call :: "string \<Rightarrow> string option test" where
  "schedule_status_call sid w =
     (case query_row (\<lambda>d. map_option (\<lambda>s. status_text (s_status s)) (find_schedule d sid)) w of
        (Inl e, w1) \<Rightarrow> (None, w1)
      | (Inr st, w1) \<Rightarrow> (Some st, w1))"

definition public_status_call :: "wire \<Rightarrow> server \<Rightarrow> string \<Rightarrow> string \<Rightarrow> int test" where
  "public_status_call wi sv uuid slug w =
     (case harness_do wi sv uuid
        ((plain_request ''GET'' (''/public/v1/contents/'' @ slug))\<lparr>cq_no_auth := True\<rparr>) w of
        (r, w1) \<Rightarrow> (cs_status r, w1))"

text \<open>
  \<open>Concurrently\<close>: \<open>n\<close> calls released at the same moment. Each call is one write transaction, so some
  order of the calls, a permutation of the first \<open>n\<close> numbers, is the order they take effect in.
\<close>

fun concurrently :: "nat list \<Rightarrow> (nat \<Rightarrow> 'a test) \<Rightarrow> 'a list test" where
  "concurrently [] fn w = ([], w)"
| "concurrently (i # order) fn w =
     (case fn i w of (r, w1) \<Rightarrow> (case concurrently order fn w1 of (rs, w2) \<Rightarrow> (r # rs, w2)))"

text \<open>
  \<open>CountRows\<close>: the query and its arguments are the caller's, as a count over the tables; a failure ends
  the test.
\<close>

definition count_rows :: "(db \<Rightarrow> nat) \<Rightarrow> nat option test" where
  "count_rows query w =
     (case sql_query query w of
        (Inl e, w1) \<Rightarrow> (None, w1)
      | (Inr n, w1) \<Rightarrow> (Some n, w1))"

text \<open>
  \<open>WaitFor\<close> asks \<open>cond\<close> again and again until it holds or the deadline has passed. The polls that fit
  before the deadline are an argument: each comes with what the other goroutines did to the world
  since the poll before. The result is whether the condition was met; the test fails if not.
\<close>

fun wait_for :: "(world \<Rightarrow> world) list \<Rightarrow> bool test \<Rightarrow> bool test" where
  "wait_for [] cond w = (False, w)"
| "wait_for (others # polls) cond w =
     (case cond (others w) of
        (True, w1) \<Rightarrow> (True, w1)
      | (False, w1) \<Rightarrow> wait_for polls cond w1)"

section \<open>Workers\<close>

definition new_test_worker :: "harness \<Rightarrow> string \<Rightarrow> worker" where
  "new_test_worker h worker_id = new_worker
     \<lparr>wc_instance_id = worker_id, wc_poll_interval = cfg_poll_interval (hn_cfg h),
      wc_lease_ttl = cfg_lease_ttl (hn_cfg h), wc_batch_size = cfg_batch_size (hn_cfg h)\<rparr>"

text \<open>
  \<open>StartWorker\<close> runs the worker until its stop function is called, which may happen more than once:
  \<open>calls\<close> are the calls of stop, and the context is done at the first of them.
\<close>

fun stop_calls :: "bool \<Rightarrow> nat \<Rightarrow> wake list" where
  "stop_calls stopped 0 = []"
| "stop_calls stopped (Suc n) = (if stopped then stop_calls True n else ContextDone # stop_calls True n)"

definition start_worker ::
    "(sqlite_code \<Rightarrow> string) \<Rightarrow> planner \<Rightarrow> worker \<Rightarrow> nat \<Rightarrow> nat \<Rightarrow> (worker \<times> bool) io" where
  "start_worker drv pl wk ticks calls =
     worker_run drv pl wk (replicate ticks TickerFires @ stop_calls False calls)"

end
