(* ===== verification/Tokens.thy ===== *)
theory Tokens
  imports Abstraction
begin

text \<open>
  The optimistic lock over time: once an update was accepted, the document's token has passed the
  expected version for good, and an update that expects a version other than the current one is
  refused without effect.
\<close>

lemma token_passed:
  assumes "reachable ident s" "tables w = sys_db s" "service_update i w = (Inr out, w1)"
    and "(sys_step ident)\<^sup>*\<^sup>* (s\<lparr>sys_db := tables w1\<rparr>) t"
  shows "\<exists>c. find_content (sys_db t) (ui_id i) = Some c \<and> ui_expected_version i < c_current_version c"
    and "db_ok (sys_db t)"
proof -
  let ?cid = "ui_id i" and ?exp = "ui_expected_version i"
  have s1: "reachable ident (s\<lparr>sys_db := tables w1\<rparr>)"
    using as_request_steps [OF as_request_service(2) assms(3,2), of ident] assms(1)
    by (blast intro: reachable_steps)
  have d1: "db_ok (tables w1)" using reachable_db_ok [OF s1] by simp
  have ok: "db_ok (sys_db t)" and ev: "evolves (tables w1) (sys_db t)"
    using steps_evolve [OF s1 assms(4)] by simp_all
  then show "db_ok (sys_db t)" by simp
  from service_update_effect [OF assms(3)] obtain w0 now where
    w0: "tables w0 = tables w" and
    upd: "update_content ?cid ?exp (trim_fields (ui_fields i)) (ui_actor i) now w0 = (Inr out, w1)"
    by blast
  from update_content_token [OF _ upd] update_content_effect [OF upd] w0 assms(2) reachable_db_ok [OF assms(1)]
  obtain c1 where c1: "find_content (tables w1) ?cid = Some c1" "c_current_version c1 = ?exp + 1"
    by auto
  from evolves_find_content [OF ev ok c1(1)] c1(2)
  show "\<exists>c. find_content (sys_db t) ?cid = Some c \<and> ?exp < c_current_version c"
    by (auto simp: content_evolves_def)
qed

lemma update_matches:
  assumes "db_ok (tables w)" "service_update i w = (Inr out, w')"
  shows "\<exists>c. find_content (tables w) (ui_id i) = Some c \<and> c_current_version c = ui_expected_version i"
proof -
  from service_update_effect [OF assms(2)] obtain w1 now where
    "tables w1 = tables w"
    "update_content (ui_id i) (ui_expected_version i) (trim_fields (ui_fields i)) (ui_actor i) now w1
       = (Inr out, w')" by blast
  from update_content_effect [OF this(2)] this(1) assms(1) show ?thesis
    by (auto simp: db_ok_find_content)
qed

lemma stale_update_refused:
  assumes "db_ok (tables w)" "find_content (tables w) (ui_id i) = Some c"
    and "c_current_version c \<noteq> ui_expected_version i"
  shows "\<exists>err w'. service_update i w = (Inl err, w') \<and> tables w' = tables w"
proof -
  obtain r w' where run: "service_update i w = (r, w')" by fastforce
  have "\<not> (\<exists>x. r = Inr x)"
  proof
    assume "\<exists>x. r = Inr x"
    with run obtain x where "service_update i w = (Inr x, w')" by blast
    from update_matches [OF assms(1) this] assms(2,3) show False by simp
  qed
  then obtain err where "r = Inl err" by (cases r) auto
  with run atomicD [OF atomic_service(2)] show ?thesis by metis
qed

lemma stale_update_conflict:
  assumes "faults w = []" "db_ok (tables w)" "find_content (tables w) (ui_id i) = Some c"
    and "c_current_version c \<noteq> ui_expected_version i" "normalize_fields (ui_fields i) = Inr f"
  shows "\<exists>w'. service_update i w = (Inl ErrVersionConflict, w') \<and> tables w' = tables w \<and> faults w' = []"
proof -
  obtain m w4 where now: "now_millis w = (Inr m, w4)" and w4: "tables w4 = tables w" "faults w4 = []"
    using assms(1) by (auto intro: now_millis_runs [of w])
  then have "update_content (ui_id i) (ui_expected_version i) f (ui_actor i) m w4 = (Inl ErrVersionConflict, w4)"
    using update_miss_nofault [OF w4(2), of "ui_id i" "ui_expected_version i" f "ui_actor i" m] assms(2-4)
    by simp
  with assms(5) now w4 show ?thesis
    by (simp add: service_update_def io_bind_def lift_sum_def io_return_def)
qed

end
