(* ===== verification/Http_Laws.thy ===== *)
theory Http_Laws
  imports Router Tokens Examples
begin

text \<open>
  Properties of the administrative API: requests are runs of the system, who can write, optimistic
  locking over HTTP, what errors look like, and what the handlers return.
\<close>

section \<open>A request is a run of the system\<close>

text \<open>\<open>h_run h\<close>: whatever the handler does to the database, the system can do in some steps.\<close>

definition h_run :: "handler \<Rightarrow> bool" where
  "h_run h \<longleftrightarrow> (\<forall>ident s w r w'. tables w = sys_db s \<longrightarrow> h w = (r, w') \<longrightarrow>
     (sys_step ident)\<^sup>*\<^sup>* s (s\<lparr>sys_db := tables w'\<rparr>))"

lemma h_runD:
  "h_run h \<Longrightarrow> h w = (r, w') \<Longrightarrow> tables w = sys_db s \<Longrightarrow> (sys_step ident)\<^sup>*\<^sup>* s (s\<lparr>sys_db := tables w'\<rparr>)"
  unfolding h_run_def by blast

named_theorems h_run_intros "handlers that are runs of the system"

lemma h_run_readonly: "h_readonly h \<Longrightarrow> h_run h"
  unfolding h_run_def h_readonly_def by (metis old.unit.exhaust rtranclp.rtrancl_refl snd_conv system.surjective
      system.update_convs(1))

lemma h_run_check [h_run_intros]:
  assumes "as_request m" "\<And>e. h_run (bad e)" "\<And>x. h_run (k x)"
  shows "h_run (check m bad k)"
  unfolding h_run_def
proof (intro allI impI)
  fix ident and s :: system and w :: world and r w'
  assume w: "tables w = sys_db s" and run: "check m bad k w = (r, w')"
  obtain r1 w1 where m: "m w = (r1, w1)" by fastforce
  define s1 where "s1 = s\<lparr>sys_db := tables w1\<rparr>"
  have "(sys_step ident)\<^sup>*\<^sup>* s s1"
    unfolding s1_def using as_request_steps [OF assms(1) m w] .
  moreover have "(sys_step ident)\<^sup>*\<^sup>* s1 (s1\<lparr>sys_db := tables w'\<rparr>)"
  proof (cases r1)
    case (Inl e)
    with run m have "bad e w1 = (r, w')" by (simp add: check_def)
    from h_runD [OF assms(2) this, of s1] show ?thesis by (simp add: s1_def)
  next
    case (Inr x)
    with run m have "k x w1 = (r, w')" by (simp add: check_def)
    from h_runD [OF assms(3) this, of s1] show ?thesis by (simp add: s1_def)
  qed
  ultimately show "(sys_step ident)\<^sup>*\<^sup>* s (s\<lparr>sys_db := tables w'\<rparr>)"
    by (simp add: s1_def)
qed

lemma h_run_check_input [h_run_intros]: "(\<And>x. h_run (k x)) \<Longrightarrow> h_run (check_input r k)"
  by (auto simp: check_input_def intro: h_run_readonly h_readonly_respond split: sum.split)

lemma h_run_if [h_run_intros]: "h_run h \<Longrightarrow> h_run h' \<Longrightarrow> h_run (if b then h else h')"
  by simp

lemma h_run_reads [h_run_intros]:
  "h_run (respond resp)" "h_run (write_domain_error cid e)" "h_run (internal_error e)"
  "h_run (write_content cwv)" "h_run (write_content_state c)"
  by (simp_all add: h_run_readonly h_intros)

lemma as_request_reads [h_run_intros]:
  "as_request (service_get cid)" "as_request (to_schedule_dto s)"
  by (simp_all add: as_request_readonly readonly_intros)

lemma h_run_admin [h_run_intros]:
  "h_run (handle_create_content sv req)"
  "h_run (handle_update_content sv cid req)"
  "h_run (handle_publish sv cid req)"
  "h_run (handle_unpublish cid req)"
  "h_run (handle_create_schedule sv cid req)"
  "h_run (handle_cancel_schedule sid)"
  by (auto simp: handle_create_content_def handle_update_content_def expected_version_def update_with_def
      handle_publish_def handle_unpublish_def handle_create_schedule_def handle_cancel_schedule_def
      intro!: h_run_intros as_request_service split: sum.split option.split)

lemma h_run_dispatch: "h_run (dispatch sv e ps req)"
  by (cases e) (simp_all add: h_run_intros h_run_readonly h_intros)

lemma h_run_serve: "h_run (serve pick miss sv req)"
  using h_run_dispatch
  by (auto simp: serve_def Let_def require_bearer_token_def intro!: h_run_intros split: option.split)

lemma serve_run:
  assumes "serve pick miss sv req w = (r, w')" "tables w = sys_db s"
  shows "(sys_step ident)\<^sup>*\<^sup>* s (s\<lparr>sys_db := tables w'\<rparr>)"
  using h_runD [OF h_run_serve] assms by blast

lemma serve_trace_run:
  "trace (serve pick miss sv) reqs w = (resps, w') \<Longrightarrow> tables w = sys_db s \<Longrightarrow>
   (sys_step ident)\<^sup>*\<^sup>* s (s\<lparr>sys_db := tables w'\<rparr>)"
proof (induction reqs arbitrary: w w' resps s)
  case (Cons req reqs)
  obtain r1 w1 where r1: "serve pick miss sv req w = (r1, w1)" by fastforce
  obtain rs w2 where rs: "trace (serve pick miss sv) reqs w1 = (rs, w2)" by fastforce
  from Cons.prems(1) r1 rs have "w' = w2" by simp
  moreover have "(sys_step ident)\<^sup>*\<^sup>* s (s\<lparr>sys_db := tables w1\<rparr>)"
    using serve_run [OF r1 Cons.prems(2)] .
  moreover have "(sys_step ident)\<^sup>*\<^sup>* (s\<lparr>sys_db := tables w1\<rparr>) (s\<lparr>sys_db := tables w2\<rparr>)"
    using Cons.IH [OF rs, of "s\<lparr>sys_db := tables w1\<rparr>"] by simp
  ultimately show ?case by simp
qed simp

section \<open>A small server for the examples\<close>

definition some_config :: config where
  "some_config =
     \<lparr>cfg_addr = '':8080'', cfg_db_path = ''cms.db'', cfg_admin_api_token = ''secret'',
      cfg_public_base_url = ''https://example.test'', cfg_poll_interval = 1000000000,
      cfg_lease_ttl = 30000000000, cfg_batch_size = 10, cfg_shutdown_grace = 10000000000,
      cfg_scheduler_on = True, cfg_log_json = False\<rparr>"

definition some_server :: server where
  "some_server = \<lparr>sv_cfg = some_config, sv_json_text = (\<lambda>e. ''bad value''), sv_render_ok = (\<lambda>p. True)\<rparr>"

definition no_route :: "http_request \<Rightarrow> http_response" where
  "no_route req = \<lparr>rs_status = 404, rs_header = [], rs_body = NoContent\<rparr>"

definition request :: "string \<Rightarrow> string \<Rightarrow> (string \<times> string) list \<Rightarrow> request_body \<Rightarrow> http_request" where
  "request m path hs body =
     \<lparr>rq_method = m, rq_path = path,
      rq_header = (\<lambda>k. case map_of hs k of None \<Rightarrow> [] | Some v \<Rightarrow> v), rq_query = (\<lambda>k. []),
      rq_body = body, rq_uuid = ''u1''\<rparr>"

definition bearer :: "string \<times> string" where
  "bearer = (''Authorization'', ''Bearer secret'')"

definition no_body :: request_body where
  "no_body = Malformed ''EOF''"

definition rename :: "string \<Rightarrow> request_body" where
  "rename t = Body (JObject [(''title'', JString t)]) False"

definition put_hello :: "string \<Rightarrow> string \<Rightarrow> http_request" where
  "put_hello tag t = request ''PUT'' ''/api/v1/contents/d1'' [bearer, (''If-Match'', tag)] (rename t)"

section \<open>Any traffic\<close>

text \<open>
  C11. Whatever requests the HTTP server is sent, in any order and with the driver failing anywhere,
  the database it leaves is one the system of requests and workers reaches: every property of
  reachable states holds under HTTP traffic.
\<close>

theorem http_traffic_is_a_run:
  assumes "reachable ident s" "tables w = sys_db s"
    and "trace (serve pick miss sv) reqs w = (resps, w')"
  shows "(sys_step ident)\<^sup>*\<^sup>* s (s\<lparr>sys_db := tables w'\<rparr>) \<and>
    reachable ident (s\<lparr>sys_db := tables w'\<rparr>) \<and> db_ok (tables w')"
proof -
  have steps: "(sys_step ident)\<^sup>*\<^sup>* s (s\<lparr>sys_db := tables w'\<rparr>)"
    using serve_trace_run [OF assms(3,2)] .
  then have "reachable ident (s\<lparr>sys_db := tables w'\<rparr>)"
    using assms(1) by (blast intro: reachable_steps)
  with steps reachable_db_ok [OF this] show ?thesis by simp
qed

theorem http_traffic_is_a_run_witness:
  "let (resps, w) = trace (serve first_route no_route some_server)
       [put_hello (format_etag 2) ''three'', put_hello (format_etag 2) ''four''] (world_of edited_db 0)
   in map rs_status resps = [200, 412] \<and> db_ok (tables w)"
proof -
  let ?reqs = "[put_hello (format_etag 2) ''three'', put_hello (format_etag 2) ''four'']"
  obtain resps w where run:
    "trace (serve first_route no_route some_server) ?reqs (world_of edited_db 0) = (resps, w)" by fastforce
  have "map rs_status (fst (trace (serve first_route no_route some_server) ?reqs (world_of edited_db 0))) = [200, 412]"
    unfolding edited_db_eq by code_simp
  with run http_traffic_is_a_run [OF reachable_edited _ run] show ?thesis by simp
qed

section \<open>Who can write\<close>

lemma public_pattern:
  "\<forall>rt \<in> set routes. rt_admin rt \<or> length (rt_pattern rt) = 1 \<or> take 1 (rt_pattern rt) = [Fixed ''public'']"
  by code_simp

lemma match_length: "match_segments p xs = Some ps \<Longrightarrow> length xs = length p"
  by (induction p xs arbitrary: ps rule: match_segments.induct) (auto split: if_splits)

lemma admin_path:
  assumes "chi pick" "pick m path = Some (rt, ps)" "take 2 (path_segments path) = [''api'', ''v1'']"
  shows "rt_admin rt"
proof (rule ccontr)
  assume n: "\<not> rt_admin rt"
  have rt: "rt \<in> set routes" "match_segments (rt_pattern rt) (path_segments path) = Some ps"
    using chi.sound [OF assms(1,2)] by (auto simp: route_params_def split: if_splits)
  from n rt(1) public_pattern consider "length (rt_pattern rt) = 1"
    | "take 1 (rt_pattern rt) = [Fixed ''public'']" by blast
  then show False
  proof cases
    case 1
    with match_length [OF rt(2)] have "length (path_segments path) = 1" by simp
    with assms(3) show False by (cases "path_segments path") auto
  next
    case 2
    with rt(2) assms(3) show False
      by (cases "rt_pattern rt"; cases "path_segments path") auto
  qed
qed

lemma authorized_header:
  "authorized token header \<longleftrightarrow> (\<exists>s. header = ''Bearer '' @ s \<and> trim_space s = token)"
proof
  assume a: "authorized token header"
  then have "header = ''Bearer '' @ drop 7 header"
    using has_prefixD [of "''Bearer ''" header] by (simp add: authorized_def eval_nat_numeral)
  with a show "\<exists>s. header = ''Bearer '' @ s \<and> trim_space s = token"
    unfolding authorized_def by blast
qed (auto simp: authorized_def has_prefix_def)

text \<open>
  C9. Access control: with any router that behaves as chi documents, a request whose Authorization
  header is not \<open>Bearer\<close> and the administrator's token, but for white space around the token, changes
  nothing; when it takes a route under \<open>/api/v1\<close> it is answered 401 before the handler runs, with a
  challenge.
\<close>

theorem access_control:
  assumes "chi pick"
    and no_token: "\<forall>s. rq_header req ''Authorization'' = ''Bearer '' @ s \<longrightarrow>
      trim_space s \<noteq> cfg_admin_api_token (sv_cfg sv)"
  shows "tables (snd (serve pick miss sv req w)) = tables w \<and>
    (take 2 (path_segments (rq_path req)) = [''api'', ''v1''] \<and> pick (rq_method req) (rq_path req) \<noteq> None \<longrightarrow>
       serve pick miss sv req w = (unauthorized_response, w) \<and> rs_status unauthorized_response = 401 \<and>
       get_header ''WWW-Authenticate'' (rs_header unauthorized_response) \<noteq> [])"
proof -
  have na: "\<not> authorized (cfg_admin_api_token (sv_cfg sv)) (rq_header req ''Authorization'')"
    using no_token by (auto simp: authorized_header)
  then have "tables (snd (serve pick miss sv req w)) = tables w"
    using chi.only_admin_writes [OF assms(1)] by blast
  moreover have "serve pick miss sv req w = (unauthorized_response, w)"
    if "take 2 (path_segments (rq_path req)) = [''api'', ''v1'']" "pick (rq_method req) (rq_path req) \<noteq> None"
    using that admin_path [OF assms(1)] chi.no_token_no_effect [OF assms(1) _ _ na] by auto
  moreover have "rs_status unauthorized_response = 401 \<and>
      get_header ''WWW-Authenticate'' (rs_header unauthorized_response) \<noteq> []"
    by (simp add: unauthorized_response_def write_error_def write_json_def get_set_header)
  ultimately show ?thesis by blast
qed

theorem access_control_witness:
  "let req = request ''DELETE'' ''/api/v1/schedules/s1'' [(''Authorization'', ''Bearer secre'')] no_body
   in serve first_route no_route some_server req (world_of edited_db 0) =
        (unauthorized_response, world_of edited_db 0)"
proof -
  let ?req = "request ''DELETE'' ''/api/v1/schedules/s1'' [(''Authorization'', ''Bearer secre'')] no_body"
  have no_token: "\<forall>s. rq_header ?req ''Authorization'' = ''Bearer '' @ s \<longrightarrow>
      trim_space s \<noteq> cfg_admin_api_token (sv_cfg some_server)"
  proof -
    have "trim_space ''secre'' \<noteq> cfg_admin_api_token (sv_cfg some_server)" by code_simp
    then show ?thesis by (simp add: request_def)
  qed
  have "take 2 (path_segments (rq_path ?req)) = [''api'', ''v1'']"
    "first_route (rq_method ?req) (rq_path ?req) \<noteq> None"
    by code_simp+
  with access_control [OF first.chi_axioms no_token, of no_route "world_of edited_db 0"]
  show ?thesis unfolding Let_def by blast
qed

text \<open>
  A configured token with white space around it locks everybody out: the configuration is
  accepted as it is while the token of a request is trimmed.
\<close>

theorem padded_token_locks_out:
  assumes "trim_space (cfg_admin_api_token c) \<noteq> cfg_admin_api_token c"
  shows "\<not> authorized (cfg_admin_api_token c) header"
  using assms trim_space_idem [of "drop 7 header"] by (metis authorized_def)

theorem padded_token_locks_out_witness:
  "\<exists>c. load (\<lambda>s. None) [''ADMIN_API_TOKEN'' \<mapsto> ''secret ''] = Inr c \<and>
     (\<forall>header. \<not> authorized (cfg_admin_api_token c) header)"
proof -
  have l: "map_option cfg_admin_api_token
      (case load (\<lambda>s. None) [''ADMIN_API_TOKEN'' \<mapsto> ''secret ''] of Inl e \<Rightarrow> None | Inr c \<Rightarrow> Some c) =
      Some ''secret ''" by code_simp
  then obtain c where c: "load (\<lambda>s. None) [''ADMIN_API_TOKEN'' \<mapsto> ''secret ''] = Inr c"
    "cfg_admin_api_token c = ''secret ''"
    by (cases "load (\<lambda>s. None) [''ADMIN_API_TOKEN'' \<mapsto> ''secret '']") auto
  have "trim_space ''secret '' \<noteq> ''secret ''" by code_simp
  with c padded_token_locks_out [of c] show ?thesis by auto
qed

end
