(* ===== verification/Reads.thy ===== *)
theory Reads
  imports Abstraction
begin

text \<open>
  What the reads of the service return in a database that satisfies the invariant when the driver
  does not fail: the latest version of a document, its history newest first, the version its
  published pointer stands for, and the published documents newest first.
\<close>

section \<open>The latest version\<close>

lemma history_nth_number:
  assumes "db_ok d" "find_content d cid = Some c" "i < length (history d cid)"
  shows "v_version (history d cid ! i) = int i + 1"
proof -
  have "map v_version (history d cid) ! i = [1..c_current_version c] ! i"
    by (simp only: history_numbers [OF assms(1,2)])
  moreover have "i < nat (c_current_version c)"
    using assms(3) history_length [OF assms(1,2)] by linarith
  ultimately show ?thesis using assms(3) by (simp add: nth_upto)
qed

lemma history_distinct: "db_ok d \<Longrightarrow> find_content d cid = Some c \<Longrightarrow> distinct (map v_version (history d cid))"
  by (simp add: history_numbers)

lemma current_positive:
  "db_ok d \<Longrightarrow> find_content d cid = Some c \<Longrightarrow> 1 \<le> c_current_version c \<and> in_int64 (c_current_version c)"
  by (auto simp: db_ok_find_content db_ok_def contents_ok_def)

lemma history_last:
  assumes "db_ok d" "find_content d cid = Some c"
  shows "history d cid \<noteq> []" and "v_version (last (history d cid)) = c_current_version c"
    and "filter (\<lambda>v. v_version v = c_current_version c) (history d cid) = [last (history d cid)]"
proof -
  have len: "int (length (history d cid)) = c_current_version c"
    using history_length [OF assms] .
  with current_positive [OF assms] show ne: "history d cid \<noteq> []" by auto
  then have "last (history d cid) = history d cid ! (length (history d cid) - 1)"
    by (rule last_conv_nth)
  then show num: "v_version (last (history d cid)) = c_current_version c"
    using history_nth_number [OF assms, of "length (history d cid) - 1"] ne len
    by (simp add: of_nat_diff Suc_leI)
  have "row_with v_version (c_current_version c) (history d cid) = Some (last (history d cid))"
    using row_with_Some_iff [OF history_distinct [OF assms]] num ne by simp
  then show "filter (\<lambda>v. v_version v = c_current_version c) (history d cid) = [last (history d cid)]"
    by (rule filter_key_unique [OF history_distinct [OF assms]])
qed

lemma current_join_row:
  assumes ok: "db_ok d" and c: "c \<in> set (contents d)"
  shows "filter (\<lambda>v. v_content_id v = c_id c \<and> v_version v = c_current_version c) (versions d) =
    [last (history d (c_id c))]"
proof -
  have "find_content d (c_id c) = Some c" using ok c by (simp add: db_ok_find_content)
  from history_last(3) [OF ok this] show ?thesis
    by (simp add: history_def conj_commute)
qed

text \<open>Every document joins with its latest version.\<close>

lemma current_version_join_eq:
  assumes ok: "db_ok d"
  shows "current_version_join d = map (\<lambda>c. (c, last (history d (c_id c)))) (contents d)"
proof -
  have "concat (map (\<lambda>c. map (Pair c)
      (filter (\<lambda>v. v_content_id v = c_id c \<and> v_version v = c_current_version c) (versions d))) cs) =
    map (\<lambda>c. (c, last (history d (c_id c)))) cs" if "set cs \<subseteq> set (contents d)" for cs
    using that by (induction cs) (simp_all add: current_join_row [OF ok])
  then show ?thesis by (simp add: current_version_join_def)
qed

lemma service_get_nofault:
  assumes nf: "faults w = []" and ok: "db_ok (tables w)"
  shows "service_get cid w =
    (case find_content (tables w) cid of
       None \<Rightarrow> Inl ErrNotFound
     | Some c \<Rightarrow> Inr \<lparr>cv_content = c, cv_version = last (history (tables w) cid)\<rparr>, w)"
proof -
  let ?d = "tables w"
  have rows: "filter (\<lambda>(c, v). c_id c = cid) (current_version_join ?d) =
      (case find_content ?d cid of None \<Rightarrow> [] | Some c \<Rightarrow> [(c, last (history ?d cid))])"
    using content_rows [OF ok, of cid] find_content_id [of ?d cid]
    by (auto simp: current_version_join_eq [OF ok] filter_map comp_def split: option.split)
  have "in_int64 (c_current_version c)" if "find_content ?d cid = Some c" for c
    using current_positive [OF ok that] by simp
  then show ?thesis
    unfolding service_get_def get_content_with_current_version_def
    using nf by (auto simp: map_err_def io_catch_def io_bind_def query_row_nofault rows io_throw_def
        no_rows_to_def scan_content_with_version_def scan_content_def io_return_def first_row_def
        split: option.split)
qed

section \<open>Lists\<close>

lemma query_rows_nofault:
  assumes "faults w = []" and "\<And>r. r \<in> set (q (tables w)) \<Longrightarrow> scan r w = (Inr (f r), w)"
  shows "query_rows m1 m2 q scan w = (Inr (map f (q (tables w))), w)"
proof -
  have "io_map (\<lambda>r. map_err g (scan r)) rs w = (Inr (map f rs), w)"
    if "set rs \<subseteq> set (q (tables w))" for g rs
    using that
  proof (induction rs)
    case (Cons r rs)
    then show ?case
      using assms(2) [of r] by (simp add: io_bind_def map_err_def io_catch_def io_return_def)
  qed (simp add: io_return_def)
  then show ?thesis
    using assms(1) by (simp add: query_rows_def io_bind_def map_err_def io_catch_def sql_query_nofault
        driver_call_nofault)
qed

lemma sort_history:
  assumes "db_ok d" "find_content d cid = Some c"
  shows "sort_key v_version (history d cid) = history d cid"
proof -
  have "sorted (map v_version (history d cid))"
    by (simp add: history_numbers [OF assms])
  then show ?thesis by (rule sort_key_id_if_sorted)
qed

lemma list_versions_nofault:
  assumes nf: "faults w = []" and ok: "db_ok (tables w)"
  shows "service_list_versions cid limit offset w =
    (case find_content (tables w) cid of
       None \<Rightarrow> Inl ErrNotFound
     | Some c \<Rightarrow> Inr (sql_limit limit (sql_offset offset (rev (history (tables w) cid)))), w)"
proof (cases "find_content (tables w) cid")
  case None
  with assms show ?thesis
    by (simp add: service_list_versions_def list_versions_def io_bind_def get_content_def map_err_def
        io_catch_def query_row_nofault no_rows_to_def io_throw_def)
next
  case (Some c)
  have get: "get_content cid w = (Inr c, w)"
    using assms Some current_positive [OF ok Some]
    by (simp add: io_bind_def get_content_def map_err_def io_catch_def query_row_nofault
        scan_content_def io_return_def)
  show ?thesis
    using query_rows_nofault [OF nf, of _ "io_return :: version_row \<Rightarrow> version_row io" "\<lambda>v. v"] get Some sort_history [OF ok Some]
    by (simp add: service_list_versions_def list_versions_def io_bind_def io_return_def order_desc_def)
qed

section \<open>The published version\<close>

lemma get_version_by_id_nofault:
  assumes "faults w = []"
  shows "get_version_by_id vid w =
    (case find_version (tables w) vid of None \<Rightarrow> Inl ErrNotFound | Some v \<Rightarrow> Inr v, w)"
  using assms
  by (auto simp: get_version_by_id_def map_err_def io_catch_def query_row_nofault no_rows_to_def
      io_throw_def split: option.split)

lemma live_version_None: "db_ok d \<Longrightarrow> c \<in> set (contents d) \<Longrightarrow>
    live_version d c = None \<longleftrightarrow> c_published_version_id c = None"
  by (auto simp: live_version_def dest: published_pointer split: option.splits)

text \<open>What a reader sees is what the specification of the documents says.\<close>

lemma public_read_spec:
  assumes nf: "faults w = []" and ok: "db_ok (tables w)"
  shows "(case spec_public slug (docs_of (tables w)) of
      None \<Rightarrow> service_get_public_by_slug slug w = (Inl ErrNotFound, w)
    | Some f \<Rightarrow> \<exists>p. service_get_public_by_slug slug w = (Inr p, w) \<and> p_slug p = slug \<and> p_fields p = f \<and>
        p_title p = f_title f \<and> p_body p = f_body f)"
proof -
  let ?d = "tables w"
  note run = get_public_nofault [OF ok nf, of slug, folded service_get_public_by_slug_def]
  show ?thesis
  proof (cases "row_with c_slug slug (contents ?d)")
    case None
    then show ?thesis by (simp add: run spec_public_def docs_of_def)
  next
    case (Some c)
    then have c: "c \<in> set (contents ?d)" "c_slug c = slug" by (auto dest: row_with_SomeD)
    then have fc: "find_content ?d (c_id c) = Some c" using ok by (simp add: db_ok_find_content)
    show ?thesis
    proof (cases "c_published_version_id c")
      case None
      with Some fc show ?thesis by (simp add: run spec_public_def docs_of_def doc_of_def live_version_def)
    next
      case (Some vid)
      from published_pointer [OF ok c(1) this] obtain v where
        v: "find_version ?d vid = Some v" "v_content_id v = c_id c" by blast
      then have "v \<in> set (versions ?d)" using ok by (simp add: db_ok_find_version)
      then have "v \<in> set (history ?d (c_id c))" using v(2) by (simp add: history_def)
      then obtain i where i: "i < length (history ?d (c_id c))" "history ?d (c_id c) ! i = v"
        by (auto simp: in_set_conv_nth)
      with history_nth_number [OF ok fc i(1)] have "v_version v = int i + 1" by simp
      with i \<open>row_with c_slug slug (contents ?d) = Some c\<close> fc Some v c(2) show ?thesis
        by (simp add: run spec_public_def docs_of_def doc_of_def live_version_def public_of_def)
    qed
  qed
qed

text \<open>The pages of published documents, newest first.\<close>

definition published_pairs :: "db \<Rightarrow> (content_row \<times> version_row) list" where
  "published_pairs d = order_desc public_order (published_join d)"

lemma service_list_public_nofault:
  assumes nf: "faults w = []"
  shows "service_list_public limit offset w =
    (Inr (map (\<lambda>(c, v). public_of c v) (sql_limit limit (sql_offset offset (published_pairs (tables w)))),
          length (published_join (tables w))), w)"
proof -
  have "list_public limit offset w =
      (Inr (map (\<lambda>(c, v). public_of c v) (sql_limit limit (sql_offset offset (published_pairs (tables w))))), w)"
    unfolding list_public_def published_pairs_def
    by (rule query_rows_nofault [OF nf]) (simp add: scan_public_eq io_return_def split: prod.split)
  then show ?thesis
    using nf by (simp add: service_list_public_def io_bind_def count_public_def map_err_def io_catch_def
        sql_query_nofault io_return_def)
qed

end
