(* ===== verification/Edit_Laws.thy ===== *)
theory Edit_Laws
  imports Http_Laws Reads
begin

text \<open>
  Optimistic locking over HTTP: the If-Match protocol of \<open>handleUpdateContent\<close>, and what the
  entity tags of responses stand for.
\<close>

section \<open>How an update is answered\<close>

lemma domain_error_status:
  "rs_status (fst (write_domain_error cid e w)) \<in> {400, 404, 409, 412, 500}"
  by (auto simp: write_domain_error_def respond_def write_error_def write_json_def write_internal_def
      write_version_conflict_def split: option.split prod.split)

abbreviation edit :: "string \<Rightarrow> update_content_request \<Rightarrow> string \<Rightarrow> int64 \<Rightarrow> update_input" where
  "edit cid rq actor v \<equiv>
     \<lparr>ui_id = cid, ui_expected_version = v,
      ui_fields = seo_fields (ur_seo rq) (ur_title rq) (ur_body rq), ui_actor = actor\<rparr>"

lemma update_with_cases:
  assumes "update_with cid rq actor v w = (r, w')"
  obtains (refused) e w1 where "service_update (edit cid rq actor v) w = (Inl e, w1)"
      "write_domain_error cid e w1 = (r, w')" "tables w1 = tables w" "tables w' = tables w"
      "rs_status r \<noteq> 200"
    | (accepted) out w1 where "service_update (edit cid rq actor v) w = (Inr out, w1)"
      "write_content out w1 = (r, w')" "tables w' = tables w1"
proof -
  obtain r1 w1 where su: "service_update (edit cid rq actor v) w = (r1, w1)" by fastforce
  show ?thesis
  proof (cases r1)
    case (Inl e)
    with assms su have de: "write_domain_error cid e w1 = (r, w')"
      by (simp add: update_with_def check_def)
    have t1: "tables w1 = tables w" using su Inl by (blast intro: atomicD [OF atomic_service(2)])
    have "tables w' = tables w1"
      using h_readonly_domain_error [of cid e] de unfolding h_readonly_def by (metis snd_conv)
    moreover have "rs_status r \<noteq> 200" using domain_error_status [of cid e w1] de by auto
    ultimately show ?thesis using refused su Inl de t1 by simp
  next
    case (Inr out)
    with assms su have "write_content out w1 = (r, w')"
      by (simp add: update_with_def check_def)
    moreover from this have "tables w' = tables w1"
      using h_readonly_write_content [of out] unfolding h_readonly_def by (metis snd_conv)
    ultimately show ?thesis using accepted su Inr by blast
  qed
qed

text \<open>A strong tag in If-Match: the handler is the update at that version.\<close>

lemma update_at_tag:
  assumes "parse_if_match (rq_header req ''If-Match'') = Inr (v, False)"
  shows "handle_update_content sv cid req =
    check_input (decode_json sv update_decoder zero_update req)
      (\<lambda>rq. update_with cid rq (actor_from req) v)"
  using assms by (simp add: handle_update_content_def expected_version_def)

lemma decode_json_status: "decode_json sv dec zero req = Inl resp \<Longrightarrow> rs_status resp \<in> {400, 413}"
  by (auto simp: decode_json_def write_error_def write_json_def
      split: request_body.splits prod.splits option.splits if_splits)

lemma get_content_nofault:
  assumes "faults w = []" "db_ok (tables w)"
  shows "get_content cid w =
    (case find_content (tables w) cid of None \<Rightarrow> Inl ErrNotFound | Some c \<Rightarrow> Inr c, w)"
proof -
  have "in_int64 (c_current_version c)" if "find_content (tables w) cid = Some c" for c
    using that assms(2) by (auto simp: db_ok_find_content db_ok_def contents_ok_def)
  with assms(1) show ?thesis
    by (auto simp: get_content_def map_err_def io_catch_def query_row_nofault io_throw_def io_bind_def
        no_rows_to_def scan_content_def io_return_def find_content_def row_with_def split: option.splits)
qed

lemma conflict_response:
  assumes "faults w = []" "db_ok (tables w)" "find_content (tables w) cid = Some c" "cid \<noteq> []"
  shows "fst (write_domain_error cid ErrVersionConflict w) =
    write_version_conflict [(''current_version'', DInt (c_current_version c)),
      (''etag'', DString (format_etag (c_current_version c)))]"
  using assms by (simp add: write_domain_error_def get_content_nofault respond_def conflict_details_def)

lemma stale_put_conflict:
  assumes "update_with cid rq actor v w = (r, w')" and nf: "faults w = []" and "cid \<noteq> []"
    and ok: "db_ok (tables w)" and c: "find_content (tables w) cid = Some c" "v < c_current_version c"
    and f: "normalize_fields (seo_fields (ur_seo rq) (ur_title rq) (ur_body rq)) = Inr f"
  shows "r = write_version_conflict (conflict_details (Inr c))"
proof -
  obtain wc where wc: "service_update (edit cid rq actor v) w = (Inl ErrVersionConflict, wc)"
    "tables wc = tables w" "faults wc = []"
    using stale_update_conflict [of w "edit cid rq actor v" c f] nf f c ok by auto
  then have "write_domain_error cid ErrVersionConflict wc = (r, w')"
    using assms(1) by (simp add: update_with_def check_def)
  then have "r = fst (write_domain_error cid ErrVersionConflict wc)" by simp
  also have "\<dots> = write_version_conflict (conflict_details (Inr c))"
    using conflict_response [of wc cid c] wc ok c(1) \<open>cid \<noteq> []\<close> by (simp add: conflict_details_def)
  finally show ?thesis .
qed

section \<open>The properties\<close>

text \<open>
  C4. No update is lost over HTTP: when a PUT with an entity tag was answered 200, a later PUT of the
  same document with the same tag changes nothing and is not answered 200, whatever happened in
  between; without driver failures and with valid fields the answer is 412 and tells the client the
  document's current version, which lies above the one it sent.
\<close>

theorem http_no_lost_update:
  assumes "reachable ident s" "tables w = sys_db s"
    and first: "handle_update_content sv cid req w = (r1, w1)" "rs_status r1 = 200"
    and tag: "parse_if_match (rq_header req ''If-Match'') = Inr (v, False)"
      "parse_if_match (rq_header req' ''If-Match'') = Inr (v, False)"
    and between: "(sys_step ident)\<^sup>*\<^sup>* (s\<lparr>sys_db := tables w1\<rparr>) t" "tables w2 = sys_db t"
    and second: "handle_update_content sv cid req' w2 = (r2, w3)"
  shows "tables w3 = sys_db t \<and> rs_status r2 \<noteq> 200 \<and>
    (faults w2 = [] \<and> cid \<noteq> [] \<and> decode_json sv update_decoder zero_update req' = Inr rq \<and>
     normalize_fields (seo_fields (ur_seo rq) (ur_title rq) (ur_body rq)) = Inr f \<longrightarrow>
     (\<exists>c. find_content (sys_db t) cid = Some c \<and> v < c_current_version c \<and> rs_status r2 = 412 \<and>
        rs_body r2 = ErrorBody code_version_conflict
          ''The content was modified by someone else. Re-read it and retry.''
          [(''current_version'', DInt (c_current_version c)),
           (''etag'', DString (format_etag (c_current_version c)))]))"
proof -
  obtain rq1 where rq1: "decode_json sv update_decoder zero_update req = Inr rq1"
    using first decode_json_status [of sv update_decoder zero_update req]
    by (cases "decode_json sv update_decoder zero_update req")
      (auto simp: update_at_tag [OF tag(1)] check_input_def respond_def)
  let ?i = "edit cid rq1 (actor_from req) v"
  from first(1) rq1 have "update_with cid rq1 (actor_from req) v w = (r1, w1)"
    by (simp add: update_at_tag [OF tag(1)] check_input_def)
  then obtain out wa where su: "service_update ?i w = (Inr out, wa)" "tables w1 = tables wa"
    using first(2) by (cases rule: update_with_cases) auto
  obtain c where c: "find_content (sys_db t) cid = Some c" "v < c_current_version c" and ok: "db_ok (sys_db t)"
    using token_passed [OF assms(1,2) su(1)] between(1) su(2) by auto
  show ?thesis
  proof (cases "decode_json sv update_decoder zero_update req'")
    case (Inl resp)
    with second decode_json_status [OF Inl] between(2) show ?thesis
      by (auto simp: update_at_tag [OF tag(2)] check_input_def respond_def)
  next
    case (Inr rq')
    let ?j = "edit cid rq' (actor_from req') v"
    from second Inr have uw: "update_with cid rq' (actor_from req') v w2 = (r2, w3)"
      by (simp add: update_at_tag [OF tag(2)] check_input_def)
    from stale_update_refused [of w2 ?j c] c ok between(2)
    obtain err wb where ref: "service_update ?j w2 = (Inl err, wb)" "tables wb = tables w2" by auto
    from uw have fin: "tables w3 = sys_db t \<and> rs_status r2 \<noteq> 200"
      using ref between(2) by (cases rule: update_with_cases) auto
    have "r2 = write_version_conflict (conflict_details (Inr c))"
      if "faults w2 = []" "cid \<noteq> []"
        "normalize_fields (seo_fields (ur_seo rq') (ur_title rq') (ur_body rq')) = Inr f"
      using stale_put_conflict [OF uw that(1,2) _ _ _ that(3)] c ok between(2) by simp
    with fin c Inr show ?thesis
      by (auto simp: conflict_details_def write_version_conflict_def write_error_def write_json_def)
  qed
qed

theorem http_no_lost_update_witness:
  "rs_status (fst (handle_update_content some_server ''d1'' (put_hello (format_etag 2) ''four'')
     (world_of (tables (snd (handle_update_content some_server ''d1'' (put_hello (format_etag 2) ''three'')
       (world_of edited_db 0)))) 0))) = 412"
proof -
  let ?req = "put_hello (format_etag 2) ''three''" and ?req' = "put_hello (format_etag 2) ''four''"
  let ?w = "world_of edited_db 0"
  obtain r1 w1 where run1: "handle_update_content some_server ''d1'' ?req ?w = (r1, w1)" by fastforce
  obtain r2 w3 where run2: "handle_update_content some_server ''d1'' ?req' (world_of (tables w1) 0) = (r2, w3)"
    by fastforce
  have "rs_status (fst (handle_update_content some_server ''d1'' ?req ?w)) = 200"
    unfolding edited_db_eq by code_simp
  with run1 have st: "rs_status r1 = 200" by simp
  have tags: "parse_if_match (rq_header ?req ''If-Match'') = Inr (2, False)"
    "parse_if_match (rq_header ?req' ''If-Match'') = Inr (2, False)" by code_simp+
  have dec: "decode_json some_server update_decoder zero_update ?req' =
      Inr \<lparr>ur_title = ''four'', ur_body = [], ur_seo = zero_seo\<rparr>" by code_simp
  have norm: "normalize_fields (seo_fields zero_seo ''four'' []) = Inr ((draft ''four'')\<lparr>f_body := []\<rparr>)"
    by code_simp
  have "rs_status r2 = 412"
    using http_no_lost_update [where ident = one_id, OF reachable_edited _ run1 st tags rtranclp.rtrancl_refl _ run2,
        of "\<lparr>ur_title = ''four'', ur_body = [], ur_seo = zero_seo\<rparr>" "(draft ''four'')\<lparr>f_body := []\<rparr>"] dec norm
    by auto
  then show ?thesis by (simp add: run1 run2)
qed

text \<open>
  C28. The update handler writes only behind a precondition: whenever it changed the database, the
  request carried \<open>*\<close> or exactly one strong tag with the decimal number of the version the document
  then had; a request without the header is answered 428.
\<close>

theorem update_needs_precondition:
  assumes "db_ok (tables w)" "handle_update_content sv cid req w = (r, w')"
  shows "(tables w' \<noteq> tables w \<longrightarrow> trim_space (rq_header req ''If-Match'') = ''*'' \<or>
      (\<exists>inner v c. trim_space (rq_header req ''If-Match'') = dquote # inner @ [dquote] \<and>
         parse_int inner = Some v \<and> 1 \<le> v \<and> find_content (tables w) cid = Some c \<and>
         c_current_version c = v)) \<and>
    (trim_space (rq_header req ''If-Match'') = [] \<and> (\<exists>rq. decode_json sv update_decoder zero_update req = Inr rq)
      \<longrightarrow> rs_status r = 428 \<and> w' = w)"
proof (intro conjI impI)
  assume ch: "tables w' \<noteq> tables w"
  obtain rq where rq: "decode_json sv update_decoder zero_update req = Inr rq"
    using assms(2) ch by (cases "decode_json sv update_decoder zero_update req")
      (auto simp: handle_update_content_def check_input_def respond_def)
  obtain v wild where im: "parse_if_match (rq_header req ''If-Match'') = Inr (v, wild)"
    using assms(2) ch rq by (cases "parse_if_match (rq_header req ''If-Match'')")
      (auto simp: handle_update_content_def check_input_def respond_def)
  show "trim_space (rq_header req ''If-Match'') = ''*'' \<or>
      (\<exists>inner v c. trim_space (rq_header req ''If-Match'') = dquote # inner @ [dquote] \<and>
         parse_int inner = Some v \<and> 1 \<le> v \<and> find_content (tables w) cid = Some c \<and>
         c_current_version c = v)"
  proof (cases wild)
    case True
    with im show ?thesis by (simp add: parse_if_match_Inr)
  next
    case False
    with im obtain inner where i: "trim_space (rq_header req ''If-Match'') = dquote # inner @ [dquote]"
      "parse_int inner = Some v" "1 \<le> v" by (auto simp: parse_if_match_Inr)
    from False im rq assms(2) have "update_with cid rq (actor_from req) v w = (r, w')"
      by (simp add: update_at_tag check_input_def)
    then obtain out w1 where su: "service_update (edit cid rq (actor_from req) v) w = (Inr out, w1)"
      using ch by (cases rule: update_with_cases) auto
    from update_matches [OF assms(1) su] i show ?thesis by auto
  qed
next
  assume h: "trim_space (rq_header req ''If-Match'') = [] \<and>
    (\<exists>rq. decode_json sv update_decoder zero_update req = Inr rq)"
  then have "parse_if_match (rq_header req ''If-Match'') = Inl ErrNoIfMatch"
    by (simp add: parse_if_match_def)
  with h assms(2) show "rs_status r = 428" and "w' = w"
    by (auto simp: handle_update_content_def check_input_def if_match_response_def respond_def
        write_error_def write_json_def)
qed

theorem update_needs_precondition_witness:
  "rs_status (fst (handle_update_content some_server ''d1'' (put_hello [] ''three'') (world_of edited_db 0))) = 428"
proof -
  let ?req = "put_hello [] ''three''"
  obtain r w' where run: "handle_update_content some_server ''d1'' ?req (world_of edited_db 0) = (r, w')" by fastforce
  have "db_ok (tables (world_of edited_db 0))"
    using reachable_db_ok [OF reachable_edited] by simp
  moreover have "trim_space (rq_header ?req ''If-Match'') = []"
    "decode_json some_server update_decoder zero_update ?req = Inr \<lparr>ur_title = ''three'', ur_body = [], ur_seo = zero_seo\<rparr>"
    by code_simp+
  ultimately have "rs_status r = 428" using update_needs_precondition [OF _ run] by blast
  then show ?thesis by (simp add: run)
qed

text \<open>
  C29. The entity tag round trip: the tag of a version is accepted by If-Match and read back as this
  version, different versions have different tags, and no weak tag and no list is ever accepted.
\<close>

theorem etag_round_trip:
  assumes "1 \<le> v" "in_int64 v"
  shows "parse_if_match (format_etag v) = Inr (v, False) \<and>
    (\<forall>v'. format_etag v' = format_etag v \<longrightarrow> v' = v) \<and>
    parse_if_match (''W/'' @ format_etag v) = Inl ErrWeakIfMatch \<and>
    parse_if_match (format_etag v @ '', '' @ format_etag v') = Inl ErrBadIfMatch"
proof -
  have "parse_if_match (''W/'' @ format_etag v) = Inl ErrWeakIfMatch"
    using trim_weak_tag [of True v] weak_tag_no_comma [of True v]
    by (simp add: parse_if_match_def Let_def has_prefix_def)
  moreover have "trim_space (format_etag v @ '', '' @ format_etag v') = format_etag v @ '', '' @ format_etag v'"
    by (rule trim_space_visible) (simp add: format_etag_def)
  then have "parse_if_match (format_etag v @ '', '' @ format_etag v') = Inl ErrBadIfMatch"
    by (simp add: parse_if_match_def Let_def format_etag_def dquote_def)
  ultimately show ?thesis using parse_if_match_format assms by auto
qed

theorem etag_round_trip_witness:
  "parse_if_match (dquote # ''42'' @ [dquote]) = Inr (42, False)"
proof -
  have eq: "format_etag 42 = dquote # ''42'' @ [dquote]" by code_simp
  have "in_int64 42" by (simp add: in_int64_def)
  then have "parse_if_match (format_etag 42) = Inr (42, False)"
    using etag_round_trip [of 42 0] by simp
  then show ?thesis unfolding eq .
qed

end
