(* ===== verification/Response_Laws.thy ===== *)
theory Response_Laws
  imports Edit_Laws
begin

text \<open>
  What the administrative handlers answer: the state of a document with its tag and status, the
  timestamps on the wire, publishing made visible, and schedules created as asked.
\<close>

section \<open>Publishing\<close>

lemma published_after:
  assumes ok: "db_ok (tables w)" and run: "service_publish cid ver actor w = (Inr c, w')"
  shows "\<exists>v \<in> set (history (tables w') cid). v_version v = ver \<and> find_content (tables w') cid = Some c \<and>
    c_published_version_id c = Some (v_id v)" and "db_ok (tables w')"
proof -
  show "db_ok (tables w')"
    using keeps_service(3) [of cid ver actor] ok run unfolding keeps_def by (metis snd_conv)
  from service_publish_effect [OF run] obtain w1 v now where
    w1: "tables w1 = tables w" and v: "v \<in> set (history (tables w) cid)" "v_version v = ver" and
    pub: "publish (manual_publish cid (v_id v) actor now) w1 = (Inr c, w')"
    unfolding manual_publish_def by blast
  note eff = publish_effect [OF pub, simplified, unfolded w1]
  then have c: "find_content (tables w') cid = Some c" by blast
  from eff obtain c0 where c0: "find_content (tables w) cid = Some c0" and
    st: "if c_published_version_id c0 = Some (v_id v) then c = c0 \<and> tables w' = tables w
       else tables w' = append_event (publish_event (manual_publish cid (v_id v) actor now))
          (set_pointer cid (Some (v_id v)) now (tables w))" by auto
  have "c_published_version_id c = Some (v_id v)"
  proof (cases "c_published_version_id c0 = Some (v_id v)")
    case False
    with st c c0 show ?thesis by (auto simp: find_content_set_pointer)
  qed (use st in simp)
  moreover from st have "history (tables w') cid = history (tables w) cid"
    by (auto simp: history_def split: if_splits)
  ultimately show "\<exists>v \<in> set (history (tables w') cid). v_version v = ver \<and>
      find_content (tables w') cid = Some c \<and> c_published_version_id c = Some (v_id v)"
    using v c by auto
qed

lemma unpublished_after:
  assumes ok: "db_ok (tables w)" and run: "service_unpublish cid actor w = (Inr c, w')"
  shows "find_content (tables w') cid = Some c \<and> c_published_version_id c = None" and "db_ok (tables w')"
proof -
  show "db_ok (tables w')"
    using keeps_service(4) [of cid actor] ok run unfolding keeps_def by (metis snd_conv)
  from run obtain w1 now where "tables w1 = tables w" "unpublish cid actor now w1 = (Inr c, w')"
    by (auto simp: service_unpublish_def io_bind_Inr dest!: now_millis_effect)
  note eff = unpublish_effect [OF this(2), unfolded this(1)]
  then obtain c0 where c0: "find_content (tables w) cid = Some c0" and
    st: "if c_published_version_id c0 = None then c = c0 \<and> tables w' = tables w
      else contents (tables w') = contents (set_pointer cid None now (tables w))"
    by (cases "c_published_version_id (the (find_content (tables w) cid)) = None") auto
  from eff have c: "find_content (tables w') cid = Some c" by blast
  moreover have "c_published_version_id c = None"
  proof (cases "c_published_version_id c0 = None")
    case False
    with st have "find_content (tables w') cid = find_content (set_pointer cid None now (tables w)) cid"
      by (simp add: find_content_def)
    with c c0 show ?thesis by (auto simp: find_content_set_pointer)
  qed (use st in simp)
  ultimately show "find_content (tables w') cid = Some c \<and> c_published_version_id c = None" by blast
qed

lemma public_after_pointer:
  assumes ok: "db_ok d" and c: "find_content d cid = Some c"
  shows "row_with c_slug (c_slug c) (contents d) = Some c"
proof -
  have "distinct (map c_slug (contents d))" using ok by (simp add: db_ok_def contents_ok_def)
  from row_with_Some_iff [OF this] show ?thesis using c ok by (auto simp: db_ok_find_content)
qed

lemma publish_status_200:
  assumes "handle_publish sv cid req w = (r, w1)" "rs_status r = 200"
  shows "\<exists>rq c wa. decode_json sv publish_decoder zero_publish req = Inr rq \<and> 1 \<le> pr_version rq \<and>
    service_publish cid (pr_version rq) (actor_from req) w = (Inr c, wa) \<and> tables w1 = tables wa"
proof -
  obtain rq where rq: "decode_json sv publish_decoder zero_publish req = Inr rq"
    using assms decode_json_status [of sv publish_decoder zero_publish req]
    by (cases "decode_json sv publish_decoder zero_publish req")
      (auto simp: handle_publish_def check_input_def respond_def)
  have pos: "1 \<le> pr_version rq"
    using assms rq by (auto simp: handle_publish_def check_input_def respond_def version_not_positive_def
        write_error_def write_json_def split: if_splits)
  obtain r1 wa where run: "service_publish cid (pr_version rq) (actor_from req) w = (r1, wa)" by fastforce
  show ?thesis
  proof (cases r1)
    case (Inl e)
    with assms rq pos run domain_error_status [of cid e wa] show ?thesis
      by (auto simp: handle_publish_def check_input_def check_def split: if_splits)
  next
    case (Inr c)
    with assms rq pos run have "write_content_state c wa = (r, w1)"
      by (simp add: handle_publish_def check_input_def check_def)
    then have "tables w1 = tables wa"
      using h_readonly_write_content_state [of c] unfolding h_readonly_def by (metis snd_conv)
    with Inr rq pos run show ?thesis by auto
  qed
qed

lemma unpublish_status_200:
  assumes "handle_unpublish cid req w = (r, w1)" "rs_status r = 200"
  shows "\<exists>c wa. service_unpublish cid (actor_from req) w = (Inr c, wa) \<and> tables w1 = tables wa"
proof -
  obtain r1 wa where run: "service_unpublish cid (actor_from req) w = (r1, wa)" by fastforce
  show ?thesis
  proof (cases r1)
    case (Inl e)
    with assms run domain_error_status [of cid e wa] show ?thesis
      by (auto simp: handle_unpublish_def check_def)
  next
    case (Inr c)
    with assms run have "write_content_state c wa = (r, w1)"
      by (simp add: handle_unpublish_def check_def)
    then have "tables w1 = tables wa"
      using h_readonly_write_content_state [of c] unfolding h_readonly_def by (metis snd_conv)
    with Inr run show ?thesis by auto
  qed
qed

text \<open>
  Publishing makes exactly the requested version public: after a publish answered 200 the public
  endpoint serves, under the document's slug, the version with the requested number; after an
  unpublish answered 200 it serves nothing under that slug.
\<close>

theorem publish_is_visible:
  assumes ok: "db_ok (tables w)" and nf: "faults w2 = []" and same: "tables w2 = tables w1"
  shows "(handle_publish sv cid req w = (r, w1) \<and> rs_status r = 200 \<longrightarrow>
      (\<exists>rq c v p. decode_json sv publish_decoder zero_publish req = Inr rq \<and>
         find_content (tables w1) cid = Some c \<and> v \<in> set (history (tables w1) cid) \<and>
         v_version v = pr_version rq \<and>
         service_get_public_by_slug (c_slug c) w2 = (Inr p, w2) \<and> p_fields p = v_fields v)) \<and>
    (handle_unpublish cid req w = (r, w1) \<and> rs_status r = 200 \<longrightarrow>
      (\<exists>c. find_content (tables w1) cid = Some c \<and>
         service_get_public_by_slug (c_slug c) w2 = (Inl ErrNotFound, w2)))"
proof (intro conjI impI)
  assume p: "handle_publish sv cid req w = (r, w1) \<and> rs_status r = 200"
  then obtain rq c wa where rq: "decode_json sv publish_decoder zero_publish req = Inr rq" and
    run: "service_publish cid (pr_version rq) (actor_from req) w = (Inr c, wa)" "tables w1 = tables wa"
    using publish_status_200 by blast
  from published_after(1) [OF ok run(1)] obtain v where
    v: "v \<in> set (history (tables w1) cid)" "v_version v = pr_version rq" and
    c: "find_content (tables w1) cid = Some c" "c_published_version_id c = Some (v_id v)"
    using run(2) by auto
  have ok1: "db_ok (tables w1)" using published_after(2) [OF ok run(1)] run(2) by simp
  have "find_version (tables w1) (v_id v) = Some v"
    using v(1) ok1 by (simp add: db_ok_find_version history_def)
  then have "service_get_public_by_slug (c_slug c) w2 = (Inr (public_of c v), w2)"
    using get_public_nofault [OF _ nf, of "c_slug c"] ok1 same c public_after_pointer [OF ok1 c(1)]
    by (simp add: service_get_public_by_slug_def)
  with rq v c show "\<exists>rq c v p. decode_json sv publish_decoder zero_publish req = Inr rq \<and>
         find_content (tables w1) cid = Some c \<and> v \<in> set (history (tables w1) cid) \<and>
         v_version v = pr_version rq \<and>
         service_get_public_by_slug (c_slug c) w2 = (Inr p, w2) \<and> p_fields p = v_fields v"
    by (fastforce simp: public_of_def)
next
  assume u: "handle_unpublish cid req w = (r, w1) \<and> rs_status r = 200"
  then obtain c wa where run: "service_unpublish cid (actor_from req) w = (Inr c, wa)" "tables w1 = tables wa"
    using unpublish_status_200 by blast
  have c: "find_content (tables w1) cid = Some c" "c_published_version_id c = None" and ok1: "db_ok (tables w1)"
    using unpublished_after [OF ok run(1)] run(2) by simp_all
  then have "service_get_public_by_slug (c_slug c) w2 = (Inl ErrNotFound, w2)"
    using get_public_nofault [OF _ nf, of "c_slug c"] same public_after_pointer [OF ok1 c(1)]
    by (simp add: service_get_public_by_slug_def)
  with c show "\<exists>c. find_content (tables w1) cid = Some c \<and>
      service_get_public_by_slug (c_slug c) w2 = (Inl ErrNotFound, w2)" by blast
qed

definition publish_2 :: http_request where
  "publish_2 = request ''POST'' ''/api/v1/contents/d1/publish'' [bearer]
     (Body (JObject [(''Version'', JNumber ''2'')]) False)"

theorem publish_is_visible_witness:
  "\<exists>p. fst (service_get_public_by_slug ''hello''
       (world_of (tables (snd (handle_publish some_server ''d1'' publish_2 (world_of edited_db 0)))) 0)) = Inr p \<and>
     f_title (p_fields p) = ''two''"
proof -
  let ?w = "world_of edited_db 0"
  obtain r w1 where run: "handle_publish some_server ''d1'' publish_2 ?w = (r, w1)" by fastforce
  have st: "rs_status (fst (handle_publish some_server ''d1'' publish_2 ?w)) = 200 \<and>
      tables (snd (handle_publish some_server ''d1'' publish_2 ?w)) =
        edited_db\<lparr>contents := [doc1 2 (Some 2) (Some 0) 0],
          events := events edited_db @ [event1\<lparr>e_id := 2, e_version_id := Some 2, e_actor := [], e_occurred_at := 0\<rparr>],
          event_seq := 2\<rparr>"
    unfolding edited_db_eq by code_simp
  with run have t: "rs_status r = 200" "contents (tables w1) = [doc1 2 (Some 2) (Some 0) 0]"
    "versions (tables w1) = versions edited_db" by simp_all
  have "decode_json some_server publish_decoder zero_publish publish_2 = Inr \<lparr>pr_version = 2\<rparr>" by code_simp
  moreover have "db_ok (tables ?w)" using reachable_db_ok [OF reachable_edited] by simp
  ultimately obtain c v p where "find_content (tables w1) ''d1'' = Some c" "v \<in> set (history (tables w1) ''d1'')"
    "v_version v = 2" "service_get_public_by_slug (c_slug c) (world_of (tables w1) 0) = (Inr p, world_of (tables w1) 0)"
    "p_fields p = v_fields v"
    using publish_is_visible [of ?w "world_of (tables w1) 0" w1 some_server "''d1''" publish_2 r] run t(1)
    by auto
  then show ?thesis
    using run t by (auto simp: find_content_def history_def doc1_def edited_db_eq versions1_def draft_def)
qed

section \<open>The state of a document\<close>

lemma published_version_number_nofault:
  assumes "faults w = []" "db_ok (tables w)" "c \<in> set (contents (tables w))"
  shows "published_version_number c w = (Inr (live_version (tables w) c), w)"
proof (cases "c_published_version_id c")
  case (Some vid)
  from published_pointer [OF assms(2,3) this] obtain v where "find_version (tables w) vid = Some v" by blast
  with Some assms(1) show ?thesis
    by (simp add: published_version_number_def live_version_def io_bind_def get_version_by_id_nofault io_return_def)
qed (simp add: published_version_number_def live_version_def io_return_def)

lemma get_content_run:
  assumes nf: "faults w = []" and ok: "db_ok (tables w)" and c: "find_content (tables w) cid = Some c"
  shows "handle_get_content cid w =
    (write_json (set_etag (c_current_version c) []) 200 (ContentBody (to_content_dto
       \<lparr>cv_content = c, cv_version = last (history (tables w) cid)\<rparr> (live_version (tables w) c))), w)"
  using service_get_nofault [OF nf ok, of cid] c
    published_version_number_nofault [OF nf ok find_content_in [OF c]]
  by (simp add: handle_get_content_def check_def write_content_def respond_def)

text \<open>
  What GET tells about a document: 404 when there is none; otherwise the latest version, its
  number as the entity tag that If-Match accepts, the number of the published version, and the
  status that follows from the two: \<open>draft\<close> without a published version, \<open>published\<close> when the
  latest version is the published one, \<open>published_with_draft\<close> when it is not.
\<close>

theorem get_content_state:
  assumes nf: "faults w = []" and ok: "db_ok (tables w)"
  shows "case find_content (tables w) cid of
      None \<Rightarrow> rs_status (fst (handle_get_content cid w)) = 404
    | Some c \<Rightarrow> \<exists>dto. handle_get_content cid w =
          (write_json (set_etag (c_current_version c) []) 200 (ContentBody dto), w) \<and>
        parse_if_match (get_header ''ETag'' (rs_header (fst (handle_get_content cid w)))) =
          Inr (c_current_version c, False) \<and>
        cd_draft dto = to_version_dto (last (history (tables w) cid)) \<and>
        vd_version (cd_draft dto) = cd_version dto \<and> cd_version dto = c_current_version c \<and>
        cd_published_version dto = live_version (tables w) c \<and>
        cd_status dto = (case live_version (tables w) c of None \<Rightarrow> ''draft''
          | Some n \<Rightarrow> if n = c_current_version c then ''published'' else ''published_with_draft'')"
proof (cases "find_content (tables w) cid")
  case None
  then show ?thesis
    using service_get_nofault [OF nf ok, of cid]
    by (simp add: handle_get_content_def check_def write_domain_error_def respond_def write_error_def write_json_def)
next
  case (Some c)
  then have c: "c \<in> set (contents (tables w))" by (rule find_content_in)
  let ?cwv = "\<lparr>cv_content = c, cv_version = last (history (tables w) cid)\<rparr>"
  let ?dto = "to_content_dto ?cwv (live_version (tables w) c)"
  have run: "handle_get_content cid w =
      (write_json (set_etag (c_current_version c) []) 200 (ContentBody ?dto), w)"
    by (rule get_content_run [OF nf ok Some])
  have "parse_if_match (get_header ''ETag'' (rs_header (fst (handle_get_content cid w)))) =
      Inr (c_current_version c, False)"
    using current_positive [OF ok Some]
    by (simp add: run write_json_def set_etag_def get_set_header parse_if_match_format)
  moreover have "vd_version (cd_draft ?dto) = cd_version ?dto"
    using history_last(2) [OF ok Some] by (simp add: to_content_dto_def to_version_dto_def Let_def)
  moreover have "cd_status ?dto = (case live_version (tables w) c of None \<Rightarrow> ''draft''
          | Some n \<Rightarrow> if n = c_current_version c then ''published'' else ''published_with_draft'')"
    using live_version_None [OF ok c]
    by (auto simp: to_content_dto_def Let_def content_status_def split: option.split)
  ultimately show ?thesis
    unfolding Some option.case
    by (intro exI [of _ ?dto]) (simp add: run to_content_dto_def Let_def)
qed

theorem get_content_state_witness:
  "\<exists>dto. rs_body (fst (handle_get_content ''d1'' (world_of edited_db 0))) = ContentBody dto \<and>
     cd_status dto = ''published_with_draft'' \<and> cd_published_version dto = Some 1"
proof -
  have "find_content (tables (world_of edited_db 0)) ''d1'' = Some (doc1 2 (Some 1) (Some 3) 3)"
    "live_version (tables (world_of edited_db 0)) (doc1 2 (Some 1) (Some 3) 3) = Some 1"
    unfolding edited_db_eq by code_simp+
  moreover have "db_ok (tables (world_of edited_db 0))"
    using reachable_db_ok [OF reachable_edited] by simp
  ultimately show ?thesis
    using get_content_state [of "world_of edited_db 0" "''d1''"] by (auto simp: write_json_def doc1_def)
qed

section \<open>Timestamps\<close>

text \<open>
  C33. Timestamps survive the wire: a time stored in milliseconds, printed by the API and read back
  by the API is the same time, for the years 0 to 9999; and the conversion between an instant and
  its milliseconds loses nothing but the fraction of a millisecond.
\<close>

theorem timestamps_round_trip:
  assumes "- 62167219200000 \<le> ms" "ms \<le> 253402300799999"
  shows "map_option to_millis (parse_rfc3339 (format_millis ms)) = Some ms \<and>
    to_millis (from_millis ms) = ms \<and>
    (from_millis (to_millis t) = t - t mod 1000000 \<or> \<not> in_int64 (t div 1000000))"
proof -
  have ms: "in_int64 ms" using assms by (simp add: in_int64_def)
  then have inv: "to_millis (from_millis ms) = ms"
    by (simp add: to_millis_eq from_millis_eq wrap64_id)
  have "from_millis ms mod 1000000 = 0" by (simp add: from_millis_eq)
  with parse_format_milli [of "from_millis ms"] from_millis_year [OF assms]
  have "parse_rfc3339 (format_millis ms) = Some (from_millis ms)"
    by (simp add: format_millis_def)
  moreover have "from_millis (to_millis t) = t - t mod 1000000" if "in_int64 (t div 1000000)"
    using that minus_mod_eq_div_mult [of t 1000000] by (simp add: to_millis_eq from_millis_eq wrap64_id)
  ultimately show ?thesis using inv by auto
qed

theorem timestamps_round_trip_witness:
  "map_option to_millis (parse_rfc3339 ''2026-01-15T12:00:00.123Z'') = Some 1768478400123"
proof -
  have eq: "format_millis 1768478400123 = ''2026-01-15T12:00:00.123Z''" by code_simp
  have "map_option to_millis (parse_rfc3339 (format_millis 1768478400123)) = Some 1768478400123"
    using timestamps_round_trip [of 1768478400123 0] by linarith
  then show ?thesis unfolding eq .
qed

section \<open>Schedules\<close>

lemma service_schedule_effect:
  assumes "service_schedule uuid i w = (Inr s, w')"
  shows "\<exists>now v. si_run_at_ms i > now \<and> v \<in> set (history (tables w) (si_content_id i)) \<and>
    v_version v = si_version i \<and> s = new_schedule uuid (si_content_id i) (v_id v) (si_run_at_ms i) now \<and>
    active_unique (schedules (tables w) @ [s]) \<and>
    tables w' = (tables w)\<lparr>schedules := schedules (tables w) @ [s]\<rparr>"
proof -
  from assms obtain now w1 v w2 where now: "now_millis w = (Inr now, w1)" "now < si_run_at_ms i"
    "get_version (si_content_id i) (si_version i) w1 = (Inr v, w2)"
    "create_schedule uuid (si_content_id i) (v_id v) (si_run_at_ms i) now w2 = (Inr s, w')"
    by (auto simp: service_schedule_def io_bind_Inr io_throw_eq split: if_splits)
  from now_millis_effect [OF now(1)] get_version_effect [OF now(3)] create_schedule_effect [OF now(4)] now(2)
  show ?thesis by auto
qed

lemma schedule_status_201:
  assumes "handle_create_schedule sv cid req w = (r, w')" "rs_status r = 201"
  shows "\<exists>rq t s wa. decode_json sv schedule_decoder zero_schedule req = Inr rq \<and> 1 \<le> sq_version rq \<and>
    parse_rfc3339 (sq_run_at rq) = Some t \<and>
    service_schedule (rq_uuid req)
      \<lparr>si_content_id = cid, si_version = sq_version rq, si_run_at_ms = to_millis t\<rparr> w = (Inr s, wa) \<and>
    check (to_schedule_dto s) internal_error
      (\<lambda>dto. respond (write_json (set_header ''Location'' (''/api/v1/schedules/'' @ s_id s) []) 201
        (ScheduleBody dto))) wa = (r, w')"
proof -
  obtain rq where rq: "decode_json sv schedule_decoder zero_schedule req = Inr rq"
    using assms decode_json_status [of sv schedule_decoder zero_schedule req]
    by (cases "decode_json sv schedule_decoder zero_schedule req")
      (auto simp: handle_create_schedule_def check_input_def respond_def)
  have pos: "1 \<le> sq_version rq"
    using assms rq by (auto simp: handle_create_schedule_def check_input_def respond_def
        version_not_positive_def write_error_def write_json_def split: if_splits)
  obtain t where t: "parse_rfc3339 (sq_run_at rq) = Some t"
    using assms rq pos by (cases "parse_rfc3339 (sq_run_at rq)")
      (auto simp: handle_create_schedule_def check_input_def respond_def run_at_malformed_def
        write_error_def write_json_def)
  let ?i = "\<lparr>si_content_id = cid, si_version = sq_version rq, si_run_at_ms = to_millis t\<rparr>"
  obtain r1 wa where run: "service_schedule (rq_uuid req) ?i w = (r1, wa)" by fastforce
  show ?thesis
  proof (cases r1)
    case (Inl e)
    with assms rq pos t run domain_error_status [of cid e wa] show ?thesis
      by (auto simp: handle_create_schedule_def check_input_def check_def)
  next
    case (Inr s)
    with assms rq pos t run show ?thesis
      by (auto simp: handle_create_schedule_def check_input_def check_def [of "service_schedule _ _"])
  qed
qed

lemma schedule_accepted:
  assumes "handle_create_schedule sv cid req w = (r, w')" "rs_status r = 201"
  shows "\<exists>rq t s v. decode_json sv schedule_decoder zero_schedule req = Inr rq \<and>
    parse_rfc3339 (sq_run_at rq) = Some t \<and>
    tables w' = (tables w)\<lparr>schedules := schedules (tables w) @ [s]\<rparr> \<and>
    s_id s = rq_uuid req \<and> s_content_id s = cid \<and> s_status s = SchedulePending \<and>
    s_run_at s = to_millis t \<and> s_created_at s < s_run_at s \<and>
    v \<in> set (history (tables w) cid) \<and> s_version_id s = v_id v \<and> v_version v = sq_version rq \<and>
    (\<forall>x \<in> set (schedules (tables w)). s_content_id x = cid \<longrightarrow> \<not> schedule_active x)"
proof -
  from schedule_status_201 [OF assms] obtain rq t s wa where
    rq: "decode_json sv schedule_decoder zero_schedule req = Inr rq" "parse_rfc3339 (sq_run_at rq) = Some t" and
    run: "service_schedule (rq_uuid req)
      \<lparr>si_content_id = cid, si_version = sq_version rq, si_run_at_ms = to_millis t\<rparr> w = (Inr s, wa)" and
    fin: "check (to_schedule_dto s) internal_error
      (\<lambda>dto. respond (write_json (set_header ''Location'' (''/api/v1/schedules/'' @ s_id s) []) 201
        (ScheduleBody dto))) wa = (r, w')" by blast
  have "h_readonly (check (to_schedule_dto s) internal_error
      (\<lambda>dto. respond (write_json (set_header ''Location'' (''/api/v1/schedules/'' @ s_id s) []) 201
        (ScheduleBody dto))))"
    by (intro h_intros readonly_intros)
  then have "tables w' = tables wa" using fin unfolding h_readonly_def by (metis snd_conv)
  moreover from service_schedule_effect [OF run] obtain now v where
    e: "now < to_millis t" "v \<in> set (history (tables w) cid)" "v_version v = sq_version rq"
      "s = new_schedule (rq_uuid req) cid (v_id v) (to_millis t) now"
      "active_unique (schedules (tables w) @ [s])"
      "tables wa = (tables w)\<lparr>schedules := schedules (tables w) @ [s]\<rparr>" by auto
  moreover have "\<not> schedule_active x" if "x \<in> set (schedules (tables w))" "s_content_id x = cid" for x
    using e(4,5) that by (auto simp: active_unique_def schedule_active_def new_schedule_def)
  ultimately show ?thesis using rq
    by (intro exI [of _ rq] exI [of _ t] exI [of _ s] exI [of _ v]) (simp add: new_schedule_def)
qed

text \<open>
  C24. A schedule is created as asked: a 201 means that exactly one row was added, pending, for the
  version with the requested number of this document, at the millisecond of the requested time,
  that this time lay ahead, and that the document had no other active schedule.
\<close>

theorem schedule_created_as_asked:
  assumes "handle_create_schedule sv cid req w = (r, w')" "rs_status r = 201"
  shows "\<exists>rq t s v. decode_json sv schedule_decoder zero_schedule req = Inr rq \<and>
    parse_rfc3339 (sq_run_at rq) = Some t \<and>
    tables w' = (tables w)\<lparr>schedules := schedules (tables w) @ [s]\<rparr> \<and>
    s_id s = rq_uuid req \<and> s_content_id s = cid \<and> s_status s = SchedulePending \<and>
    s_run_at s = to_millis t \<and> s_created_at s < s_run_at s \<and>
    v \<in> set (history (tables w) cid) \<and> s_version_id s = v_id v \<and> v_version v = sq_version rq \<and>
    (\<forall>x \<in> set (schedules (tables w)). s_content_id x = cid \<longrightarrow> \<not> schedule_active x)"
  by (rule schedule_accepted [OF assms])

definition schedule_1 :: http_request where
  "schedule_1 = request ''POST'' ''/api/v1/contents/d1/schedules'' [bearer]
     (Body (JObject [(''version'', JNumber ''1''), (''run_at'', JString ''2026-01-15T12:00:00Z'')]) False)"

definition asked_db :: db where
  "asked_db = ticked_db\<lparr>schedules := schedules ticked_db @ [new_schedule ''u1'' ''d1'' 1 1768478400000 0]\<rparr>"

lemma schedule_1_run:
  "rs_status (fst (handle_create_schedule some_server ''d1'' schedule_1 (world_of ticked_db 0))) = 201"
  "snd (handle_create_schedule some_server ''d1'' schedule_1 (world_of ticked_db 0)) = world_of asked_db 0"
  "decode_json some_server schedule_decoder zero_schedule schedule_1 =
     Inr \<lparr>sq_version = 1, sq_run_at = ''2026-01-15T12:00:00Z''\<rparr>"
proof -
  let ?s = "new_schedule ''u1'' ''d1'' 1 1768478400000 0"
  show dec: "decode_json some_server schedule_decoder zero_schedule schedule_1 =
      Inr \<lparr>sq_version = 1, sq_run_at = ''2026-01-15T12:00:00Z''\<rparr>" by code_simp
  have at: "parse_rfc3339 ''2026-01-15T12:00:00Z'' = Some 1768478400000000000"
    "to_millis 1768478400000000000 = 1768478400000" by code_simp+
  have "service_schedule ''u1'' \<lparr>si_content_id = ''d1'', si_version = 1, si_run_at_ms = 1768478400000\<rparr>
      (world_of ticked_db 0) = (Inr ?s, world_of asked_db 0)"
    unfolding ticked_db_eq asked_db_def by code_simp
  moreover have "find_version asked_db 1 = Some (versions1 ! 0)"
    unfolding ticked_db_eq asked_db_def by code_simp
  moreover have "rq_uuid schedule_1 = ''u1''" by code_simp
  ultimately show "rs_status (fst (handle_create_schedule some_server ''d1'' schedule_1 (world_of ticked_db 0))) = 201"
    "snd (handle_create_schedule some_server ''d1'' schedule_1 (world_of ticked_db 0)) = world_of asked_db 0"
    using dec at
    by (simp_all add: handle_create_schedule_def check_input_def check_def to_schedule_dto_def io_bind_def
        get_version_by_id_nofault io_return_def respond_def new_schedule_def write_json_def)
qed

theorem schedule_created_as_asked_witness:
  "\<exists>s. schedules (tables (snd (handle_create_schedule some_server ''d1'' schedule_1 (world_of ticked_db 0)))) =
      schedules ticked_db @ [s] \<and> s_run_at s = 1768478400000 \<and> s_status s = SchedulePending"
proof -
  have "parse_rfc3339 ''2026-01-15T12:00:00Z'' = Some 1768478400000000000"
    "to_millis 1768478400000000000 = 1768478400000" by code_simp+
  with schedule_created_as_asked [OF surjective_pairing schedule_1_run(1)] schedule_1_run(3)
  show ?thesis by auto
qed

end
