(* ===== verification/Contract_Laws.thy ===== *)
theory Contract_Laws
  imports Response_Laws
begin

text \<open>
  The contract of the whole API: bodies with unknown fields are refused, internal errors reveal
  nothing, and what a create returned is what a read returns.
\<close>

section \<open>Unknown fields\<close>

lemma find_field_folds:
  assumes "find_field fs k \<noteq> None"
  shows "fold_name k \<in> fold_name ` fst ` set fs"
proof (cases "map_of fs k")
  case None
  with assms obtain nd where "find (\<lambda>(name, d). fold_name name = fold_name k) fs = Some nd"
    by (auto simp: find_field_def)
  then show ?thesis by (auto simp: find_Some_iff rev_image_eqI) (metis fst_conv image_eqI nth_mem)
next
  case (Some d)
  then have "(k, d) \<in> set fs" by (rule map_of_SomeD)
  then show ?thesis by force
qed

lemma unknown_not_decoded:
  assumes "rq_body req = Body (JObject ms) trailing" "(k, v) \<in> set ms" "fold_name k \<notin> fold_name ` fst ` set fs"
  shows "\<exists>msg. decode_json sv (dec_struct fs) zero req = Inl (write_error [] 400 code_validation msg [])"
proof -
  obtain x e where d: "dec_struct fs (JObject ms) zero = (x, e)" by fastforce
  have "e \<noteq> None"
    using dec_struct_known [of fs ms zero x k v] d assms(2,3) find_field_folds [of fs k] by auto
  with d assms(1) show ?thesis by (auto simp: decode_json_def)
qed

text \<open>
  A misspelt field is an error, not a value silently ignored: a create or update whose body has a
  member that, up to letter case, is no field of the request is answered 400 and changes nothing.
\<close>

theorem unknown_field_rejected:
  assumes "rq_body req = Body (JObject ms) trailing" "(k, v) \<in> set ms"
  shows "(fold_name k \<notin> {''SLUG'', ''TITLE'', ''BODY'', ''SEO''} \<longrightarrow>
      rs_status (fst (handle_create_content sv req w)) = 400 \<and> snd (handle_create_content sv req w) = w) \<and>
    (fold_name k \<notin> {''TITLE'', ''BODY'', ''SEO''} \<longrightarrow>
      rs_status (fst (handle_update_content sv cid req w)) = 400 \<and> snd (handle_update_content sv cid req w) = w)"
proof -
  have names: "fold_name ''slug'' = ''SLUG''" "fold_name ''title'' = ''TITLE''" "fold_name ''body'' = ''BODY''"
    "fold_name ''seo'' = ''SEO''" by code_simp+
  have "\<exists>msg. decode_json sv create_decoder zero_create req = Inl (write_error [] 400 code_validation msg [])"
    if "fold_name k \<notin> {''SLUG'', ''TITLE'', ''BODY'', ''SEO''}"
    unfolding create_decoder_def by (rule unknown_not_decoded [OF assms]) (use that names in auto)
  moreover have "\<exists>msg. decode_json sv update_decoder zero_update req = Inl (write_error [] 400 code_validation msg [])"
    if "fold_name k \<notin> {''TITLE'', ''BODY'', ''SEO''}"
    unfolding update_decoder_def by (rule unknown_not_decoded [OF assms]) (use that names in auto)
  ultimately show ?thesis
    by (auto simp: handle_create_content_def handle_update_content_def check_input_def respond_def
        write_error_def write_json_def)
qed

theorem unknown_field_rejected_witness:
  "rs_status (fst (handle_create_content some_server
     (request ''POST'' ''/api/v1/contents'' [bearer]
       (Body (JObject [(''slug'', JString ''a''), (''titel'', JString ''A'')]) False)) (world_of empty_db 0))) = 400"
proof -
  let ?ms = "[(''slug'', JString ''a''), (''titel'', JString ''A'')]"
  let ?req = "request ''POST'' ''/api/v1/contents'' [bearer] (Body (JObject ?ms) False)"
  have "rq_body ?req = Body (JObject ?ms) False" by (simp add: request_def)
  moreover have "fold_name ''titel'' = ''TITEL''" by code_simp
  ultimately show ?thesis
    using unknown_field_rejected [of ?req ?ms False "''titel''" "JString ''A''"] by simp
qed

section \<open>Internal errors\<close>

definition internal_body :: "payload \<Rightarrow> bool" where
  "internal_body b \<longleftrightarrow> b = ErrorBody code_internal ''An internal error occurred.'' [] \<or>
     b = HtmlError ''500 - Something went wrong''"

definition opaque :: "handler \<Rightarrow> bool" where
  "opaque h \<longleftrightarrow> (\<forall>w. 500 \<le> rs_status (fst (h w)) \<longrightarrow>
     rs_status (fst (h w)) = 500 \<and> internal_body (rs_body (fst (h w))))"

named_theorems opaque_intros "handlers whose internal errors reveal nothing"

lemma opaque_respond [opaque_intros]: "rs_status r < 500 \<Longrightarrow> opaque (respond r)"
  by (simp add: opaque_def respond_def)

lemma opaque_internal [opaque_intros]: "opaque (respond (write_internal h))" "opaque (internal_error e)"
  by (simp_all add: opaque_def respond_def internal_error_def write_internal_def write_error_def
      write_json_def internal_body_def)

lemma opaque_check [opaque_intros]:
  assumes "\<And>e. opaque (bad e)" "\<And>x. opaque (k x)"
  shows "opaque (check m bad k)"
  unfolding opaque_def
proof
  fix w
  obtain r w1 where "m w = (r, w1)" by fastforce
  with assms show "500 \<le> rs_status (fst (check m bad k w)) \<longrightarrow>
      rs_status (fst (check m bad k w)) = 500 \<and> internal_body (rs_body (fst (check m bad k w)))"
    by (cases r) (simp_all add: check_def opaque_def)
qed

lemma opaque_decode [opaque_intros]:
  "(\<And>x. opaque (k x)) \<Longrightarrow> opaque (check_input (decode_json sv dec zero req) k)"
  using decode_json_status [of sv dec zero req]
  by (fastforce simp: check_input_def intro: opaque_respond split: sum.split)

lemma parse_pagination_status: "parse_pagination req = Inl resp \<Longrightarrow> rs_status resp = 400"
  by (auto simp: parse_pagination_def Let_def try_sum_def write_error_def write_json_def
      split: if_splits option.splits sum.splits)

lemma opaque_pagination [opaque_intros]:
  "(\<And>x. opaque (k x)) \<Longrightarrow> opaque (check_input (parse_pagination req) k)"
  using parse_pagination_status [of req]
  by (fastforce simp: check_input_def intro: opaque_respond split: sum.split)

lemmas response_defs = write_error_def write_json_def version_not_positive_def run_at_malformed_def
  if_match_response_def write_version_conflict_def not_modified_def unauthorized_response_def

lemma opaque_domain_error [opaque_intros]: "opaque (write_domain_error cid e)"
proof -
  have "opaque (\<lambda>w. case get_content cid w of (r, w1) \<Rightarrow> respond (write_version_conflict (f r)) w1)" for f
    by (simp add: opaque_def respond_def response_defs split: prod.split)
  then show ?thesis
    by (auto simp: write_domain_error_def intro!: opaque_intros split: option.split)
      (simp_all add: response_defs)
qed

lemma opaque_conditional [opaque_intros]: "opaque fresh \<Longrightarrow> opaque (serve_conditional req ms fresh)"
  by (auto simp: serve_conditional_def response_defs intro: opaque_respond)

lemma opaque_errors [opaque_intros]: "opaque (write_public_error e)" "opaque (write_html_error e)"
  by (simp_all add: write_public_error_def write_html_error_def opaque_def respond_def
      write_internal_def response_defs internal_body_def)

lemma opaque_write_content [opaque_intros]: "opaque (write_content cwv)" "opaque (write_content_state c)"
  by (auto simp: write_content_def write_content_state_def intro!: opaque_intros) (simp add: response_defs)+

lemma opaque_dispatch: "e \<noteq> EHealth \<Longrightarrow> opaque (dispatch sv e ps req)"
  by (cases e)
    (auto simp: handle_create_content_def handle_list_contents_def handle_get_content_def
      handle_update_content_def expected_version_def update_with_def handle_list_versions_def
      handle_get_version_def handle_publish_def handle_unpublish_def handle_create_schedule_def
      handle_list_schedules_def handle_cancel_schedule_def handle_public_list_def handle_public_get_def
      handle_sitemap_def handle_robots_def handle_html_page_def Let_def response_defs
      intro!: opaque_intros split: option.split sum.split prod.split)

text \<open>
  C37. Internal errors reveal nothing: whatever fails in the database or elsewhere, every answer with
  a server error, the health check apart, is a 500 with one of two constant bodies.
\<close>

theorem internal_errors_reveal_nothing:
  assumes "\<forall>req. rs_status (miss req) < 500"
    and "\<forall>rt ps. pick (rq_method req) (rq_path req) = Some (rt, ps) \<longrightarrow> rt_endpoint rt \<noteq> EHealth"
    and "serve pick miss sv req w = (r, w')" "500 \<le> rs_status r"
  shows "rs_status r = 500 \<and> (rs_body r = ErrorBody ''internal_error'' ''An internal error occurred.'' [] \<or>
    rs_body r = HtmlError ''500 - Something went wrong'')"
proof -
  have "opaque (serve pick miss sv req)"
  proof (cases "pick (rq_method req) (rq_path req)")
    case None
    with assms(1) show ?thesis by (simp add: serve_def opaque_respond)
  next
    case (Some x)
    obtain rt ps where x: "x = (rt, ps)" by fastforce
    with Some assms(2) have "opaque (dispatch sv (rt_endpoint rt) ps req)" by (simp add: opaque_dispatch)
    then show ?thesis
      by (auto simp: serve_def Some x Let_def require_bearer_token_def response_defs intro!: opaque_respond)
  qed
  with assms(3,4) show ?thesis
    by (auto simp: opaque_def internal_body_def code_internal_def dest: spec [of _ w])
qed

theorem internal_errors_reveal_nothing_witness:
  "rs_body (fst (serve first_route no_route some_server
      (request ''GET'' ''/public/v1/contents/hello'' [] no_body)
      ((world_of edited_db 0)\<lparr>faults := [Some ''disk I/O error'']\<rparr>))) =
    ErrorBody ''internal_error'' ''An internal error occurred.'' []"
proof -
  let ?req = "request ''GET'' ''/public/v1/contents/hello'' [] no_body"
  let ?w = "(world_of edited_db 0)\<lparr>faults := [Some ''disk I/O error'']\<rparr>"
  obtain r w' where run: "serve first_route no_route some_server ?req ?w = (r, w')" by fastforce
  have get: "fst (service_get_public_by_slug ''hello'' ?w) =
      Inl (Wrap ''read public content'' (DriverFault ''disk I/O error''))"
    unfolding edited_db_eq by code_simp
  have pick: "first_route ''GET'' ''/public/v1/contents/hello'' =
      Some (route False ''GET'' (public_path @ [Param ''slug'']) EPublicGet, [(''slug'', ''hello'')])"
    by code_simp
  have "fst (serve first_route no_route some_server ?req ?w) = write_internal []"
    using get pick by (cases "service_get_public_by_slug ''hello'' ?w")
      (simp add: serve_def request_def route_def url_param_def handle_public_get_def check_def
        write_public_error_def respond_def)
  with run have st: "rs_status r = 500" "\<And>s. rs_body r \<noteq> HtmlError s"
    by (simp_all add: write_internal_def write_error_def write_json_def)
  have "\<forall>rt ps. first_route (rq_method ?req) (rq_path ?req) = Some (rt, ps) \<longrightarrow> rt_endpoint rt \<noteq> EHealth"
    using pick by (simp add: request_def route_def)
  from internal_errors_reveal_nothing [OF _ this run] st show ?thesis
    by (simp add: run no_route_def)
qed

section \<open>Create and read back\<close>

definition create_input_of :: "create_content_request \<Rightarrow> string \<Rightarrow> create_input" where
  "create_input_of rq actor = \<lparr>ci_slug = cr_slug rq,
     ci_fields = seo_fields (cr_seo rq) (cr_title rq) (cr_body rq), ci_actor = actor\<rparr>"

lemma create_status_201:
  assumes "handle_create_content sv req w = (r, w1)" "rs_status r = 201"
  shows "\<exists>rq created. decode_json sv create_decoder zero_create req = Inr rq \<and>
    service_create (rq_uuid req) (create_input_of rq (actor_from req)) w = (Inr created, w1) \<and>
    r = write_json (set_header ''Location'' (''/api/v1/contents/'' @ c_id (cv_content created))
      (set_etag (c_current_version (cv_content created)) [])) 201 (ContentBody (to_content_dto created None))"
proof -
  obtain rq where rq: "decode_json sv create_decoder zero_create req = Inr rq"
    using assms decode_json_status [of sv create_decoder zero_create req]
    by (cases "decode_json sv create_decoder zero_create req")
      (auto simp: handle_create_content_def check_input_def respond_def)
  let ?i = "create_input_of rq (actor_from req)"
  obtain r1 wa where run: "service_create (rq_uuid req) ?i w = (r1, wa)" by fastforce
  show ?thesis
  proof (cases r1)
    case (Inl e)
    with assms rq run domain_error_status [of "[]" e wa] show ?thesis
      by (auto simp: handle_create_content_def check_input_def check_def create_input_of_def)
  next
    case (Inr created)
    with assms rq run show ?thesis
      by (intro exI [of _ rq] exI [of _ created])
        (simp add: handle_create_content_def check_input_def check_def respond_def create_input_of_def)
  qed
qed

text \<open>
  What was created can be read: after a 201 the \<open>Location\<close> names the new document, a GET of it
  returns the very body of the 201 with the same tag, its version is 1, its status \<open>draft\<close>, and the
  public side does not serve it.
\<close>

theorem create_then_get:
  assumes ok: "db_ok (tables w)" and run: "handle_create_content sv req w = (r, w1)" "rs_status r = 201"
    and later: "tables w2 = tables w1" "faults w2 = []"
  shows "\<exists>dto. rs_body r = ContentBody dto \<and>
    get_header ''Location'' (rs_header r) = ''/api/v1/contents/'' @ cd_id dto \<and>
    get_header ''ETag'' (rs_header r) = format_etag 1 \<and>
    handle_get_content (cd_id dto) w2 = (write_json (set_etag 1 []) 200 (ContentBody dto), w2) \<and>
    cd_version dto = 1 \<and> cd_status dto = ''draft'' \<and>
    service_get_public_by_slug (cd_slug dto) w2 = (Inl ErrNotFound, w2)"
proof -
  from create_status_201 [OF run] obtain i out where
    sc: "service_create (rq_uuid req) i w = (Inr out, w1)" and
    r: "r = write_json (set_header ''Location'' (''/api/v1/contents/'' @ c_id (cv_content out))
      (set_etag (c_current_version (cv_content out)) [])) 201 (ContentBody (to_content_dto out None))"
    by blast
  let ?cid = "rq_uuid req" and ?slug = "trim_space (ci_slug i)"
  from service_create_effect [OF sc] obtain wa now where
    wa: "tables wa = tables w" and
    cc: "create_content ?cid ?slug (trim_fields (ci_fields i)) (ci_actor i) now wa = (Inr out, w1)" by blast
  note eff = create_content_effect [OF cc, unfolded wa]
  have ok1: "db_ok (tables w1)"
    using keeps_service(1) [of ?cid i] ok sc unfolding keeps_def by (metis snd_conv)
  let ?c = "new_content ?cid ?slug now"
  let ?v = "new_version (version_seq (tables w) + 1) ?cid 1 (trim_fields (ci_fields i)) (ci_actor i) now"
  have out: "out = \<lparr>cv_content = ?c, cv_version = ?v\<rparr>" using eff by blast
  have c: "find_content (tables w1) ?cid = Some ?c"
  proof -
    have "?c \<in> set (contents (tables w1))" using eff by simp
    then show ?thesis using ok1 by (simp add: db_ok_find_content)
  qed
  have h: "history (tables w1) ?cid = [?v]"
    using eff history_unknown [OF ok, of ?cid] by (simp add: history_def)
  have get: "service_get ?cid w2 = (Inr out, w2)"
    using service_get_nofault [of w2 ?cid] later ok1 c h out by simp
  have "published_version_number ?c w2 = (Inr None, w2)"
    by (simp add: published_version_number_def io_return_def)
  then have "handle_get_content ?cid w2 = (write_json (set_etag 1 []) 200 (ContentBody (to_content_dto out None)), w2)"
    using get by (simp add: handle_get_content_def check_def write_content_def respond_def out)
  moreover have "service_get_public_by_slug ?slug w2 = (Inl ErrNotFound, w2)"
    using get_public_nofault [of w2 ?slug] later ok1 public_after_pointer [OF ok1 c]
    by (simp add: service_get_public_by_slug_def)
  moreover have "cd_id (to_content_dto out None) = ?cid" "cd_slug (to_content_dto out None) = ?slug"
    "cd_version (to_content_dto out None) = 1" "cd_status (to_content_dto out None) = ''draft''"
    by (simp_all add: to_content_dto_def Let_def out content_status_def)
  ultimately show ?thesis
    by (intro exI [of _ "to_content_dto out None"])
      (simp add: r write_json_def get_set_header set_etag_def out)
qed

definition post_world :: http_request where
  "post_world = request ''POST'' ''/api/v1/contents'' [bearer]
     (Body (JObject [(''slug'', JString '' world ''), (''title'', JString ''World'')]) False)"

theorem create_then_get_witness:
  "\<exists>dto. rs_body (fst (handle_create_content some_server post_world (world_of edited_db 0))) = ContentBody dto \<and>
     rs_status (fst (handle_get_content (cd_id dto)
       (world_of (tables (snd (handle_create_content some_server post_world (world_of edited_db 0)))) 0))) = 200"
proof -
  let ?w = "world_of edited_db 0"
  obtain r w1 where run: "handle_create_content some_server post_world ?w = (r, w1)" by fastforce
  let ?i = "\<lparr>ci_slug = '' world '', ci_fields = seo_fields zero_seo ''World'' [], ci_actor = []\<rparr>"
  have dec: "decode_json some_server create_decoder zero_create post_world =
      Inr \<lparr>cr_slug = '' world '', cr_title = ''World'', cr_body = [], cr_seo = zero_seo\<rparr>"
    "actor_from post_world = []" "rq_uuid post_world = ''u1''" by code_simp+
  have "case fst (service_create ''u1'' ?i ?w) of Inl e \<Rightarrow> False | Inr x \<Rightarrow> True"
    unfolding edited_db_eq by code_simp
  then obtain out wa where "service_create ''u1'' ?i ?w = (Inr out, wa)"
    by (cases "service_create ''u1'' ?i ?w") (auto split: sum.splits)
  then have "rs_status (fst (handle_create_content some_server post_world ?w)) = 201"
    using dec by (simp add: handle_create_content_def check_input_def check_def respond_def write_json_def)
  with run have "rs_status r = 201" by simp
  moreover have "db_ok (tables ?w)" using reachable_db_ok [OF reachable_edited] by simp
  ultimately show ?thesis
    using create_then_get [OF _ run, of "world_of (tables w1) 0"] run by (auto simp: write_json_def)
qed

end
