(* ===== verification/Wire_Laws.thy ===== *)
theory Wire_Laws
  imports Harness Contract_Laws
begin

text \<open>
  Properties of the wire: what a client that marshals and unmarshals with the field names of the API
  sends and gets back, and what the JSON of the public side contains.
\<close>

section \<open>Decoding what was encoded\<close>

definition valid_seo :: "seo_request \<Rightarrow> bool" where
  "valid_seo s \<longleftrightarrow> valid_utf8 (sr_meta_title s) \<and> valid_utf8 (sr_meta_description s) \<and>
     valid_utf8 (sr_canonical_url s) \<and> valid_utf8 (sr_og_image_url s)"

definition valid_fields :: "version_fields \<Rightarrow> bool" where
  "valid_fields f \<longleftrightarrow> valid_utf8 (f_title f) \<and> valid_utf8 (f_body f) \<and> valid_utf8 (f_meta_title f) \<and>
     valid_utf8 (f_meta_description f) \<and> valid_utf8 (f_canonical_url f) \<and> valid_utf8 (f_og_image_url f)"

definition seo_of :: "version_fields \<Rightarrow> seo_request" where
  "seo_of f = \<lparr>sr_meta_title = f_meta_title f, sr_meta_description = f_meta_description f,
     sr_canonical_url = f_canonical_url f, sr_og_image_url = f_og_image_url f, sr_noindex = f_noindex f\<rparr>"

lemma json_of_seo_body: "json_of_seo (to_seo f) = seo_body (seo_of f)"
  by (simp add: json_of_seo_def to_seo_def seo_body_def seo_of_def)

lemma find_field_simps [simp]:
  "find_field ((name, d) # fs) name = Some d"
  by (simp add: find_field_def)

lemma find_field_skip:
  "k \<noteq> name \<Longrightarrow> k \<in> fst ` set fs \<Longrightarrow> find_field ((name, d) # fs) k = find_field fs k"
  by (auto simp: find_field_def split: option.split dest: weak_map_of_SomeI)

lemma seo_decoder_body:
  "valid_seo s \<Longrightarrow> seo_decoder (seo_body s) x = (s, None)"
  by (simp add: seo_decoder_def seo_body_def find_field_skip on_field_def json_string_def valid_seo_def
      valid_utf8_def first_error_def)

lemma loose_seo_decoder_body:
  "valid_seo s \<Longrightarrow> loose_seo_decoder (seo_body s) x = (s, None)"
  by (simp add: loose_seo_decoder_def seo_body_def find_field_skip on_field_def json_string_def valid_seo_def
      valid_utf8_def first_error_def)

lemma create_decoder_body:
  "valid_utf8 (cr_slug b) \<Longrightarrow> valid_utf8 (cr_title b) \<Longrightarrow> valid_utf8 (cr_body b) \<Longrightarrow> valid_seo (cr_seo b) \<Longrightarrow>
   create_decoder (create_body b) x = (b, None)"
  by (simp add: create_decoder_def create_body_def find_field_skip on_field_def json_string_def
      valid_utf8_def first_error_def seo_decoder_body)

lemma update_decoder_body:
  "valid_utf8 (ur_title b) \<Longrightarrow> valid_utf8 (ur_body b) \<Longrightarrow> valid_seo (ur_seo b) \<Longrightarrow>
   update_decoder (update_body b) x = (b, None)"
  by (simp add: update_decoder_def update_body_def find_field_skip on_field_def json_string_def
      valid_utf8_def first_error_def seo_decoder_body)

text \<open>A reply of the API as the client's struct; members the struct does not have are skipped.\<close>

lemma find_field_none:
  "\<forall>name \<in> fst ` set fs. fold_name name \<noteq> fold_name k \<Longrightarrow> find_field fs k = None"
  by (force simp: find_field_def find_None_iff map_of_eq_None_iff split: option.split)

lemma fold_names:
  "fold_name ''id'' = ''ID''" "fold_name ''slug'' = ''SLUG''" "fold_name ''version'' = ''VERSION''"
  "fold_name ''status'' = ''STATUS''" "fold_name ''published_at'' = ''PUBLISHED_AT''"
  "fold_name ''published_version'' = ''PUBLISHED_VERSION''" "fold_name ''draft'' = ''DRAFT''"
  "fold_name ''created_at'' = ''CREATED_AT''" "fold_name ''updated_at'' = ''UPDATED_AT''"
  "fold_name ''created_by'' = ''CREATED_BY''" "fold_name ''title'' = ''TITLE''"
  "fold_name ''body'' = ''BODY''" "fold_name ''seo'' = ''SEO''"
  by code_simp+

definition reply_of :: "content_dto \<Rightarrow> version_fields \<Rightarrow> content_reply" where
  "reply_of d f =
     \<lparr>ct_id = cd_id d, ct_slug = cd_slug d, ct_version = cd_version d, ct_status = cd_status d,
      ct_published_at = cd_published_at d, ct_published_version = cd_published_version d,
      ct_draft = \<lparr>dr_version = vd_version (cd_draft d), dr_title = f_title f, dr_body = f_body f,
        dr_seo = seo_of f\<rparr>\<rparr>"

lemma valid_seo_of: "valid_fields f \<Longrightarrow> valid_seo (seo_of f)"
  by (simp add: valid_fields_def valid_seo_def seo_of_def)

lemma dec_int64_json: "in_int64 v \<Longrightarrow> dec_int64 (json_int v) x = (v, None)"
  by (simp add: json_int_def parse_int_show)

lemma dec_string_json: "valid_utf8 s \<Longrightarrow> dec_string (json_string s) x = (s, None)"
  by (simp add: json_string_def valid_utf8_def)

lemma dec_pointer_json:
  "\<forall>s. x = Some s \<longrightarrow> valid_utf8 s \<Longrightarrow>
   dec_pointer [] dec_string (json_pointer json_string x) None = (x, None)"
  "\<forall>n. y = Some n \<longrightarrow> in_int64 n \<Longrightarrow> dec_pointer 0 dec_int64 (json_pointer json_int y) None = (y, None)"
  by (cases x; simp add: json_pointer_def json_string_def valid_utf8_def)
    (cases y; simp add: json_pointer_def json_int_def parse_int_show)

lemma draft_reply_json:
  assumes "in_int64 (v_version v)" "valid_fields (v_fields v)"
  shows "draft_reply_decoder (json_of_version (to_version_dto v)) zero_draft =
    (\<lparr>dr_version = v_version v, dr_title = f_title (v_fields v), dr_body = f_body (v_fields v),
      dr_seo = seo_of (v_fields v)\<rparr>, None)"
proof -
  have "loose_seo_decoder (json_of_seo (to_seo (v_fields v))) z = (seo_of (v_fields v), None)" for z
    using assms(2) by (simp add: json_of_seo_body loose_seo_decoder_body valid_seo_of)
  moreover have "find_field [(''version'', d1), (''title'', d2), (''body'', d3), (''seo'', d4)] ''created_by'' = None"
    "find_field [(''version'', d1), (''title'', d2), (''body'', d3), (''seo'', d4)] ''created_at'' = None"
    for d1 d2 d3 d4 :: "draft_reply decoder"
    by (rule find_field_none, simp add: fold_names)+
  ultimately show ?thesis
    using assms
    by (simp add: draft_reply_decoder_def json_of_version_def to_version_dto_def find_field_skip on_field_def
        dec_int64_json dec_string_json valid_fields_def first_error_def omit_empty_def zero_draft_def)
qed

lemma content_reply_json:
  assumes "d = to_content_dto \<lparr>cv_content = c, cv_version = v\<rparr> pv"
    and "in_int64 (c_current_version c)" "in_int64 (v_version v)" "\<forall>n. pv = Some n \<longrightarrow> in_int64 n"
    and "valid_fields (v_fields v)" "valid_utf8 (c_id c)" "valid_utf8 (c_slug c)"
    and "\<forall>s. cd_published_at d = Some s \<longrightarrow> valid_utf8 s"
  shows "content_reply_decoder (json_of_content d) zero_content = (reply_of d (v_fields v), None)"
proof -
  have "valid_utf8 (cd_status d)"
    by (auto simp: assms(1) to_content_dto_def Let_def content_status_def byte_of_def
        intro!: valid_ascii split: option.split)
  moreover have "find_field [(''id'', d1), (''slug'', d2), (''version'', d3), (''status'', d4),
      (''published_at'', d5), (''published_version'', d6), (''draft'', d7)] ''created_at'' = None"
    "find_field [(''id'', d1), (''slug'', d2), (''version'', d3), (''status'', d4),
      (''published_at'', d5), (''published_version'', d6), (''draft'', d7)] ''updated_at'' = None"
    for d1 d2 d3 d4 d5 d6 d7 :: "content_reply decoder"
    by (rule find_field_none, simp add: fold_names)+
  moreover have dto: "cd_id d = c_id c" "cd_slug d = c_slug c" "cd_version d = c_current_version c"
    "cd_published_version d = pv" "cd_draft d = to_version_dto v"
    by (simp_all add: assms(1) to_content_dto_def Let_def)
  moreover have "vd_version (to_version_dto v) = v_version v" by (simp add: to_version_dto_def)
  ultimately show ?thesis
    using assms(2-) draft_reply_json [OF assms(3,5)]
    by (simp add: content_reply_decoder_def json_of_content_def find_field_skip on_field_def
        dec_int64_json dec_string_json dec_pointer_json first_error_def zero_content_def reply_of_def)
qed

lemma format_millis_utf8: "valid_utf8 (format_millis ms)"
proof -
  have "byte_of c < 0x80" if "c \<in> set (zero_pad k n)" for c k n
    using that show_digits_digits [of "\<bar>n\<bar>" c] by (auto simp: zero_pad_def Let_def is_digit_def between_def byte_of_def split: if_splits)
  then show ?thesis
    by (intro valid_ascii)
      (auto simp: format_millis_def format_rfc3339_milli_def format_date_def format_clock_def Let_def byte_of_def)
qed

section \<open>The routes of the client's calls\<close>

lemma path_api: "path_segments (''/api/v1/contents'') = [''api'', ''v1'', ''contents'']"
  by code_simp

lemma path_content:
  assumes "CHR ''/'' \<notin> set cid"
  shows "path_segments (''/api/v1/contents/'' @ cid) = [''api'', ''v1'', ''contents'', cid]"
proof -
  have "tl (''/api/v1/contents/'' @ cid) =
      ''api'' @ CHR ''/'' # ''v1'' @ CHR ''/'' # ''contents'' @ CHR ''/'' # cid" by simp
  then show ?thesis
    using assms by (simp only: path_segments_def) (simp add: split_at_append split_at_no_sep del: append.simps)
qed

lemma path_schedules:
  assumes "CHR ''/'' \<notin> set cid"
  shows "path_segments (''/api/v1/contents/'' @ cid @ ''/schedules'') = [''api'', ''v1'', ''contents'', cid, ''schedules'']"
proof -
  have "tl (''/api/v1/contents/'' @ cid @ ''/schedules'') =
      ''api'' @ CHR ''/'' # ''v1'' @ CHR ''/'' # ''contents'' @ CHR ''/'' # cid @ CHR ''/'' # ''schedules''" by simp
  then show ?thesis
    using assms by (simp only: path_segments_def) (simp add: split_at_append split_at_no_sep del: append.simps)
qed

lemma path_public:
  assumes "CHR ''/'' \<notin> set slug"
  shows "path_segments (''/public/v1/contents/'' @ slug) = [''public'', ''v1'', ''contents'', slug]"
proof -
  have "tl (''/public/v1/contents/'' @ slug) =
      ''public'' @ CHR ''/'' # ''v1'' @ CHR ''/'' # ''contents'' @ CHR ''/'' # slug" by simp
  then show ?thesis
    using assms by (simp only: path_segments_def) (simp add: split_at_append split_at_no_sep del: append.simps)
qed

lemmas route_table = routes_def admin_routes_def public_routes_def index_route_def route_def
  contents_path_def content_path_def public_path_def

context chi
begin

text \<open>A route that is the only match is taken.\<close>

lemma only_route:
  assumes "rt \<in> set routes" "route_params m path rt = Some ps" "[] \<notin> snd ` set ps"
    and "\<forall>rt' \<in> set routes. route_params m path rt' \<noteq> None \<longrightarrow> rt' = rt"
  shows "pick m path = Some (rt, ps)"
proof -
  obtain rt' ps' where p: "pick m path = Some (rt', ps')" using complete [OF assms(1-3)] by auto
  with sound assms(4) have "rt' = rt" by fastforce
  with sound [OF p] assms(2) p show ?thesis by simp
qed

lemma pick_create:
  "pick ''POST'' ''/api/v1/contents'' = Some (route True ''POST'' contents_path ECreateContent, [])"
  by (rule only_route)
    (simp_all add: route_params_def path_api route_table)

lemma pick_content:
  assumes "path_segments path = [''api'', ''v1'', ''contents'', cid]" "cid \<noteq> []"
  shows "pick ''GET'' path = Some (route True ''GET'' content_path EGetContent, [(''id'', cid)])"
    and "pick ''PUT'' path = Some (route True ''PUT'' content_path EUpdateContent, [(''id'', cid)])"
  by (rule only_route; simp add: route_params_def assms assms(2) [symmetric] route_table)+

lemma pick_schedule:
  assumes "path_segments path = [''api'', ''v1'', ''contents'', cid, ''schedules'']" "cid \<noteq> []"
  shows "pick ''POST'' path =
    Some (route True ''POST'' (content_path @ [Fixed ''schedules'']) ECreateSchedule, [(''id'', cid)])"
  by (rule only_route; simp add: route_params_def assms assms(2) [symmetric] route_table)

lemma pick_public:
  assumes "path_segments path = [''public'', ''v1'', ''contents'', slug]" "slug \<noteq> []"
  shows "pick ''GET'' path =
    Some (route False ''GET'' (public_path @ [Param ''slug'']) EPublicGet, [(''slug'', slug)])"
  by (rule only_route; simp add: route_params_def assms assms(2) [symmetric] route_table)

end

end
