(* ===== verification/Schedule_Laws.thy ===== *)
theory Schedule_Laws
  imports Examples
begin

text \<open>
  Properties of scheduling: what a tick publishes, what a claim picks, what a worker whose lease was
  taken over can still do, how a schedule ends, and what cancelling, failing and shutting down do.
\<close>

section \<open>A tick publishes what is due\<close>

lemma tick_db_one:
  fixes wk
  assumes ok: "db_ok d" and pl: "planner_ok pl" and x: "x \<in> set (schedules d)"
    and ok': "db_ok (tick_db pl wk now exp d)"
    and batch: "int (length (filter (schedule_due now) (schedules d))) \<le> wk_batch wk"
  defines "d' \<equiv> tick_db pl wk now exp d"
  shows "if schedule_due now x
    then (\<exists>y. find_schedule d' (s_id x) = Some y \<and> s_status y = ScheduleDone) \<and>
         (\<exists>c. find_content d' (s_content_id x) = Some c \<and>
              c_published_version_id c = Some (s_version_id x) \<and> c_published_at c = Some now) \<and>
         length (events_of_schedule d' (s_id x)) = 1
    else find_schedule d' (s_id x) = Some x"
proof (cases "schedule_due now x")
  case True
  have ids: "s_id x \<in> set (due_ids pl now (wk_batch wk) d)"
    by (rule due_ids_all [OF pl x True batch])
  have "owns d (s_version_id x) (s_content_id x)"
    using ok x by (simp add: db_ok_def schedules_ok_def)
  then obtain c where "find_content d (s_content_id x) = Some c"
    using owns_content [OF ok] find_content_None [of d] by fastforce
  note fin = tick_db_published [OF ok pl x ids this, where exp = exp]
  then have "unlock ScheduleDone now (claim_row (wk_id wk) exp now x) \<in> set (schedules d')"
    using ok' by (simp add: db_ok_find_schedule d'_def)
  then have "length (events_of_schedule d' (s_id x)) = 1"
    using ok' by (auto simp: db_ok_def done_ok_def d'_def)
  with fin True show ?thesis by (simp add: d'_def)
next
  case False
  then have "s_id x \<notin> set (due_ids pl now (wk_batch wk) d)"
    using due_row [OF ok pl x] by blast
  with tick_db_other [OF pl] ok x False show ?thesis
    by (simp add: db_ok_find_schedule d'_def)
qed

lemma tick_due:
  fixes wk
  assumes ok: "db_ok (tables w)" and pl: "planner_ok pl" and nf: "faults w = []"
    and still: "clock_later w = []" and now: "now = to_millis (clock_now w)"
    and batch: "int (length (filter (schedule_due now) (schedules (tables w)))) \<le> wk_batch wk"
    and room: "event_seq (tables w) + int (length (filter (schedule_due now) (schedules (tables w))))
      \<le> max_rowid"
  shows "\<exists>w'. tick drv pl wk w = (Inr (count_tick wk), w') \<and>
    (\<forall>x \<in> set (schedules (tables w)).
       if schedule_due now x
       then (\<exists>y. find_schedule (tables w') (s_id x) = Some y \<and> s_status y = ScheduleDone) \<and>
            (\<exists>c. find_content (tables w') (s_content_id x) = Some c \<and>
                 c_published_version_id c = Some (s_version_id x) \<and> c_published_at c = Some now) \<and>
            length (events_of_schedule (tables w') (s_id x)) = 1
       else find_schedule (tables w') (s_id x) = Some x)"
proof -
  let ?d = "tables w" and ?exp = "to_millis (time_add (clock_now w) (wk_lease wk))"
  let ?d' = "tick_db pl wk now ?exp ?d"
  have "event_seq ?d + int (length (claimed_jobs pl wk now ?d)) \<le> max_rowid"
    using room claimed_job_count [OF ok pl, of wk now] by linarith
  then have run: "tick drv pl wk w = (Inr (count_tick wk), w\<lparr>tables := ?d'\<rparr>)"
    using tick_nofault [OF ok pl nf still] now by simp
  have ok': "db_ok ?d'"
    using soundD [OF sound_tick [OF pl] run ok] by simp
  from run tick_db_one [OF ok pl _ ok' batch] show ?thesis by auto
qed

text \<open>
  A tick without driver failures publishes every due schedule, pending or left behind by a
  worker whose lease has run out, when the batch is large enough: afterwards it is done, its version
  is the published one, and it has its one event. Every other schedule is untouched.
\<close>

theorem tick_publishes_due:
  fixes wk
  assumes ok: "db_ok (tables w)" and pl: "planner_ok pl" and nf: "faults w = []"
    and still: "clock_later w = []" and now: "now = to_millis (clock_now w)"
    and batch: "int (length (filter (schedule_due now) (schedules (tables w)))) \<le> wk_batch wk"
    and room: "event_seq (tables w) + int (length (filter (schedule_due now) (schedules (tables w))))
      \<le> max_rowid"
  shows "\<exists>w'. tick drv pl wk w = (Inr (count_tick wk), w') \<and>
    (\<forall>x \<in> set (schedules (tables w)).
       if schedule_due now x
       then (\<exists>y. find_schedule (tables w') (s_id x) = Some y \<and> s_status y = ScheduleDone) \<and>
            (\<exists>c. find_content (tables w') (s_content_id x) = Some c \<and>
                 c_published_version_id c = Some (s_version_id x) \<and> c_published_at c = Some now) \<and>
            length (events_of_schedule (tables w') (s_id x)) = 1
       else find_schedule (tables w') (s_id x) = Some x)"
  using tick_due [OF assms] .

theorem tick_publishes_due_witness:
  "\<exists>c. find_content ticked_db ''d1'' = Some c \<and> c_published_version_id c = Some 2 \<and>
     length (events_of_schedule ticked_db ''s1'') = 1"
proof -
  let ?w = "world_of edited_db 100000000"
  have ok: "db_ok (tables ?w)" using reachable_db_ok [OF reachable_edited] by simp
  have "to_millis (clock_now ?w) = 100" by code_simp
  moreover have "schedule_due 100 schedule1" by code_simp
  moreover have "wk_batch some_worker = 10" by code_simp
  moreover have s1: "schedules (tables ?w) = [schedule1]" "event_seq (tables ?w) = 1"
    by (simp_all add: edited_db_eq)
  moreover have "s_content_id schedule1 = ''d1''" "s_version_id schedule1 = 2" "s_id schedule1 = ''s1''"
    by code_simp+
  ultimately show ?thesis
    using tick_publishes_due [OF ok table_order_ok, where now = 100 and wk = some_worker and drv = no_text]
    by (auto simp: ticked_db_def max_rowid_def)
qed

section \<open>Which schedules a claim takes\<close>

lemma claim_job_iff:
  assumes ok: "db_ok (tables w)" and pl: "planner_ok pl"
    and run: "claim_due_schedules pl worker now exp limit w = (Inr jobs, w')"
    and x: "x \<in> set (schedules (tables w))"
  shows "job_of x \<in> set jobs \<longleftrightarrow> s_id x \<in> set (due_ids pl now limit (tables w))"
proof -
  let ?ids = "set (due_ids pl now limit (tables w))"
  have "mset jobs = mset (map job_of (filter (\<lambda>s. s_id s \<in> ?ids) (schedules (tables w))))"
    using claim_effect [OF run] pl by (simp add: planner_ok_def)
  from mset_eq_setD [OF this] have
    jobs: "set jobs = job_of ` {s \<in> set (schedules (tables w)). s_id s \<in> ?ids}" by auto
  show ?thesis
  proof
    assume "job_of x \<in> set jobs"
    then obtain y where "y \<in> set (schedules (tables w))" "s_id y \<in> ?ids" "job_of x = job_of y"
      using jobs by auto
    then show "s_id x \<in> ?ids" by (simp add: job_of_def)
  qed (use jobs x in blast)
qed

text \<open>
  C20. A lease excludes: while the lease on a claimed schedule has not run out, no claim by any
  worker returns its job, and the row stays as it is.
\<close>

theorem lease_excludes:
  assumes "db_ok (tables w)" "planner_ok pl" "x \<in> set (schedules (tables w))"
    and "s_status x = ScheduleClaimed" "s_lock_expires_at x = Some until" "now < until"
    and "claim_due_schedules pl worker now exp limit w = (Inr jobs, w')"
  shows "job_of x \<notin> set jobs \<and> find_schedule (tables w') (s_id x) = Some x"
proof -
  have "\<not> schedule_due now x"
    using assms(4-6) by (simp add: schedule_due_def)
  then have "s_id x \<notin> set (due_ids pl now limit (tables w))"
    using due_row [OF assms(1-3)] by blast
  moreover have "find_schedule (tables w) (s_id x) = Some x"
    using assms(1,3) by (simp add: db_ok_find_schedule)
  ultimately show ?thesis
    using claim_effect [OF assms(7)] claim_job_iff [OF assms(1,2,7,3)]
    by (simp add: find_schedule_set_schedules)
qed

definition held_db :: db where
  "held_db = tables (snd (claim_due_schedules table_order ''w1'' 100 30100 10 (world_of edited_db 0)))"

lemma held_db_eq:
  "held_db = edited_db\<lparr>schedules := [claim_row ''w1'' 30100 100 schedule1]\<rparr>"
  unfolding held_db_def edited_db_eq by code_simp

lemma held_db_ok: "db_ok held_db"
  unfolding held_db_def
  by (rule claim_ok [OF _ table_order_ok]) (simp add: reachable_db_ok [OF reachable_edited, simplified])

theorem lease_excludes_witness:
  "claim_due_schedules table_order ''w2'' 200 30200 10 (world_of held_db 0) =
     (Inr [], world_of held_db 0) \<and>
   job_of (claim_row ''w1'' 30100 100 schedule1) \<notin> set []"
proof -
  have run: "claim_due_schedules table_order ''w2'' 200 30200 10 (world_of held_db 0) =
      (Inr [], world_of held_db 0)"
    unfolding held_db_eq edited_db_eq by code_simp
  have "job_of (claim_row ''w1'' 30100 100 schedule1) \<notin> set []"
    using lease_excludes [OF _ table_order_ok _ _ _ _ run, of "claim_row ''w1'' 30100 100 schedule1" 30100]
      held_db_ok by (simp add: held_db_eq)
  with run show ?thesis by blast
qed

lemma set_schedules_map:
  "set_schedules P f d = d\<lparr>schedules := map (\<lambda>s. if P s then f s else s) (schedules d)\<rparr>"
  by (simp add: set_schedules_def update_where_def)

text \<open>The jobs of a claim are the chosen rows, one for each.\<close>

lemma claimed_job_list:
  assumes ok: "db_ok (tables w)" and pl: "planner_ok pl" and lim: "0 \<le> limit"
    and run: "claim_due_schedules pl worker now exp limit w = (Inr jobs, w')"
  shows "length jobs = min (nat limit) (length (filter (schedule_due now) (schedules (tables w))))"
    and "distinct (map j_schedule_id jobs)"
    and "set jobs = job_of ` {s \<in> set (schedules (tables w)). s_id s \<in> set (due_ids pl now limit (tables w))}"
proof -
  let ?d = "tables w" and ?ids = "due_ids pl now limit (tables w)"
  let ?rows = "filter (\<lambda>s. s_id s \<in> set ?ids) (schedules ?d)"
  have jobs: "mset jobs = mset (map job_of ?rows)"
    using claim_effect [OF run] pl by (simp add: planner_ok_def)
  have sid: "distinct (map s_id (schedules ?d))"
    using ok by (simp add: db_ok_def schedules_ok_def)
  have "mset (map s_id (sort_key s_run_at (filter (schedule_due now) (scan_order pl (schedules ?d))))) =
      mset (map s_id (filter (schedule_due now) (schedules ?d)))"
    by (simp add: scan_order_perm [OF pl])
  moreover have "distinct (map s_id (filter (schedule_due now) (schedules ?d)))"
    using sid by (rule distinct_map_filter)
  ultimately have "distinct (map s_id (sort_key s_run_at
      (filter (schedule_due now) (scan_order pl (schedules ?d)))))"
    using mset_eq_imp_distinct_iff by blast
  then have dids: "distinct ?ids"
    using lim by (simp add: due_ids_def sql_limit_def take_map [symmetric])
  have "set ?ids \<subseteq> s_id ` set (schedules ?d)"
    using due_ids_active [OF pl] by blast
  then have "set (map s_id ?rows) = set ?ids" by auto
  moreover have drows: "distinct (map s_id ?rows)" using sid by (simp add: distinct_map_filter)
  ultimately have "length (map s_id ?rows) = length ?ids"
    using dids by (metis distinct_card)
  then show "length jobs = min (nat limit) (length (filter (schedule_due now) (schedules ?d)))"
    using mset_eq_length [OF jobs] lim
    by (simp add: due_ids_def sql_limit_def due_length [OF pl] min.commute)
  have "mset (map j_schedule_id jobs) = image_mset j_schedule_id (mset (map job_of ?rows))"
    by (simp only: mset_map jobs)
  also have "\<dots> = mset (map s_id ?rows)"
    by (simp add: multiset.map_comp comp_def job_of_def)
  finally show "distinct (map j_schedule_id jobs)"
    using drows mset_eq_imp_distinct_iff by blast
  show "set jobs = job_of ` {s \<in> set (schedules ?d). s_id s \<in> set ?ids}"
    using mset_eq_setD [OF jobs] by auto
qed

text \<open>
  C22. A claim takes as many due schedules as its limit allows, each once and none that is not due,
  and never passes over one that is due earlier. In the tables it marks exactly these: each gets
  the status claimed, this worker, the end of the lease, one more attempt and the time, and every
  other row of every table stays as it is.
\<close>

theorem claim_takes_earliest:
  assumes ok: "db_ok (tables w)" and pl: "planner_ok pl" and lim: "0 \<le> limit"
    and run: "claim_due_schedules pl worker now exp limit w = (Inr jobs, w')"
  shows "length jobs = min (nat limit) (length (filter (schedule_due now) (schedules (tables w)))) \<and>
    distinct (map j_schedule_id jobs) \<and>
    (\<forall>j \<in> set jobs. \<exists>x \<in> set (schedules (tables w)). schedule_due now x \<and> j = job_of x) \<and>
    (\<forall>x \<in> set (schedules (tables w)). \<forall>y \<in> set (schedules (tables w)).
       job_of x \<in> set jobs \<and> schedule_due now y \<and> job_of y \<notin> set jobs \<longrightarrow> s_run_at x \<le> s_run_at y) \<and>
    tables w' = (tables w)\<lparr>schedules := map (\<lambda>x. if job_of x \<in> set jobs
        then x\<lparr>s_status := ScheduleClaimed, s_locked_by := Some worker, s_lock_expires_at := Some exp,
               s_attempts := s_attempts x + 1, s_updated_at := now\<rparr>
        else x) (schedules (tables w))\<rparr>"
proof (intro conjI ballI impI)
  let ?ids = "set (due_ids pl now limit (tables w))"
  note jobs = claimed_job_list [OF ok pl lim run] and chosen = claim_job_iff [OF ok pl run]
  show "length jobs = min (nat limit) (length (filter (schedule_due now) (schedules (tables w))))"
    "distinct (map j_schedule_id jobs)" by (fact jobs)+
  show "\<exists>x \<in> set (schedules (tables w)). schedule_due now x \<and> j = job_of x" if "j \<in> set jobs" for j
    using that jobs(3) due_row [OF ok pl] by blast
  show "s_run_at x \<le> s_run_at y"
    if "x \<in> set (schedules (tables w))" "y \<in> set (schedules (tables w))"
      "job_of x \<in> set jobs \<and> schedule_due now y \<and> job_of y \<notin> set jobs" for x y
    using due_ids_earliest [OF ok pl] chosen that by blast
  have "tables w' = set_schedules (\<lambda>s. s_id s \<in> ?ids) (claim_row worker exp now) (tables w)"
    using claim_effect [OF run] by simp
  then show "tables w' = (tables w)\<lparr>schedules := map (\<lambda>x. if job_of x \<in> set jobs
        then x\<lparr>s_status := ScheduleClaimed, s_locked_by := Some worker, s_lock_expires_at := Some exp,
               s_attempts := s_attempts x + 1, s_updated_at := now\<rparr>
        else x) (schedules (tables w))\<rparr>"
    unfolding set_schedules_map claim_row_def using chosen by (simp cong: map_cong)
qed

theorem claim_takes_earliest_witness:
  "\<exists>jobs w'. claim_due_schedules table_order ''w1'' 100 30100 10 (world_of edited_db 0) = (Inr jobs, w') \<and>
     length jobs = 1 \<and> map s_status (schedules (tables w')) = [ScheduleClaimed] \<and>
     map s_locked_by (schedules (tables w')) = [Some ''w1'']"
proof -
  let ?w = "world_of edited_db 0"
  have ok: "db_ok (tables ?w)" using reachable_db_ok [OF reachable_edited] by simp
  obtain r w' where run: "claim_due_schedules table_order ''w1'' 100 30100 10 ?w = (r, w')" by fastforce
  have "\<not> isl (fst (claim_due_schedules table_order ''w1'' 100 30100 10 ?w))"
    unfolding edited_db_eq by code_simp
  then obtain jobs where jobs: "r = Inr jobs" using run by (cases r) simp_all
  have one: "schedules edited_db = [schedule1]" "schedule_due 100 schedule1"
    unfolding edited_db_eq by code_simp+
  have sch: "schedules (tables ?w) = [schedule1]" using one by simp
  note all = claim_takes_earliest [OF ok table_order_ok _ run [unfolded jobs], unfolded sch]
  have len: "length jobs = 1" using conjunct1 [OF all] one(2) by simp
  have jobs1: "\<forall>j \<in> set jobs. j = job_of schedule1"
    using conjunct1 [OF conjunct2 [OF conjunct2 [OF all]]] by simp
  have claimed: "job_of schedule1 \<in> set jobs"
    using len jobs1 by (cases jobs) simp_all
  have "schedules (tables w') = [claim_row ''w1'' 30100 100 schedule1]"
    using arg_cong [OF conjunct2 [OF conjunct2 [OF conjunct2 [OF conjunct2 [OF all]]]], of schedules] claimed
    by (simp add: claim_row_def)
  with run jobs len show ?thesis by simp
qed

section \<open>A lost lease\<close>

lemma set_schedules_none:
  "(\<And>x. x \<in> set (schedules d) \<Longrightarrow> \<not> P x) \<Longrightarrow> set_schedules P f d = d"
  unfolding set_schedules_def by (subst update_where_none) auto

text \<open>
  A worker that no longer holds the lease of a job, because it was taken over, finished,
  cancelled or given back, changes nothing by executing it, whatever fails or does not.
\<close>

theorem lost_lease_no_effect:
  assumes "\<And>x. x \<in> set (schedules (tables w)) \<Longrightarrow> \<not> held_by (wk_id wk) (j_schedule_id j) x"
    and "execute drv wk j w = (r, w')"
  shows "r = Inr () \<and> tables w' = tables w"
proof -
  obtain t w1 where now: "now_millis w = (Inr t, w1)" and w1: "tables w1 = tables w"
    by (rule now_millis_runs [of w])
  obtain res w2 where comp: "complete_scheduled_publish j (wk_id wk) t w1 = (res, w2)" by fastforce
  have "res \<noteq> Inr True"
    using complete_effect [of j "wk_id wk" t w1 w2] comp assms(1) w1 by auto
  then have w2: "tables w2 = tables w"
    using complete_tx_cases [OF comp] w1 by auto
  show ?thesis
  proof (cases res)
    case (Inr b)
    with assms(2) now comp w2 show ?thesis
      by (auto simp: execute_def io_bind_def io_attempt_def io_return_def)
  next
    case (Inl e)
    obtain res' w3 where rec:
      "fail_schedule (j_schedule_id j) (wk_id wk) (error_text drv e) t w2 = (res', w3)" by fastforce
    have "tables w3 = tables w"
    proof (cases res')
      case (Inl e')
      with rec w2 show ?thesis using atomicD [OF atomic_schedule_writes(4)] by metis
    next
      case (Inr u)
      from fail_effect [OF rec [unfolded this]] show ?thesis
        unfolding w2 using assms(1) by (subst (asm) set_schedules_none) simp_all
    qed
    with assms(2) now comp Inl rec show ?thesis
      by (auto simp: execute_def io_bind_def io_attempt_def io_return_def)
  qed
qed

theorem lost_lease_no_effect_witness:
  "tables (snd (execute no_text (some_worker\<lparr>wk_id := ''w2''\<rparr>) (job_of schedule1) (world_of held_db 0)))
     = held_db"
proof -
  let ?wk = "some_worker\<lparr>wk_id := ''w2''\<rparr>"
  obtain r w' where run: "execute no_text ?wk (job_of schedule1) (world_of held_db 0) = (r, w')"
    by fastforce
  have "\<not> held_by (wk_id ?wk) (j_schedule_id (job_of schedule1)) x"
    if "x \<in> set (schedules (tables (world_of held_db 0)))" for x
    using that by (simp add: held_db_eq held_by_def)
  from lost_lease_no_effect [OF this run] show ?thesis using run by simp
qed

section \<open>How a schedule ends\<close>

text \<open>
  C23. A schedule moves only along its state machine, keeps its job and its time, and a finished one
  never changes again: a cancelled schedule is never published, a done one has its one event for ever.
\<close>

theorem schedule_lifecycle:
  assumes "reachable ident s" "(sys_step ident)\<^sup>*\<^sup>* s t" "x \<in> set (schedules (sys_db s))"
  shows "\<exists>y \<in> set (schedules (sys_db t)).
    job_of y = job_of x \<and> s_run_at y = s_run_at x \<and> s_attempts x \<le> s_attempts y \<and>
    status_step\<^sup>*\<^sup>* (s_status x) (s_status y) \<and>
    (s_status x = ScheduleCancelled \<longrightarrow> y = x \<and> events_of_schedule (sys_db t) (s_id x) = []) \<and>
    (s_status x = ScheduleDone \<longrightarrow> y = x \<and> length (events_of_schedule (sys_db t) (s_id x)) = 1)"
proof -
  have ev: "evolves (sys_db s) (sys_db t)" and ok: "db_ok (sys_db t)"
    using steps_evolve [OF assms(1,2)] by simp_all
  then have "rows_evolve schedule_evolves (schedules (sys_db s)) (schedules (sys_db t))"
    by (simp add: evolves_def)
  from rows_evolve_in [OF this assms(3)] obtain y where
    y: "y \<in> set (schedules (sys_db t))" "schedule_evolves x y" by blast
  have n: "length (events_of_schedule (sys_db t) (s_id y)) = (if s_status y = ScheduleDone then 1 else 0)"
    using ok y(1) by (simp add: db_ok_def done_ok_def)
  have "y = x" if "s_status x = ScheduleCancelled \<or> s_status x = ScheduleDone"
    using y(2) that by (auto simp: schedule_evolves_def schedule_active_def)
  with y n show ?thesis
    by (intro bexI [of _ y]) (auto simp: schedule_evolves_def split: if_splits)
qed

theorem schedule_lifecycle_witness:
  "\<exists>y \<in> set (schedules ticked_db). s_run_at y = 100 \<and> status_step\<^sup>*\<^sup>* SchedulePending (s_status y)"
  using schedule_lifecycle [OF reachable_edited edited_steps_ticked, of schedule1]
  by (auto simp: edited_db_eq schedule1_def new_schedule_def)

text \<open>At any time a document has at most one schedule that can still run.\<close>

theorem one_active_schedule:
  assumes "reachable ident s" "x \<in> set (schedules (sys_db s))" "y \<in> set (schedules (sys_db s))"
    and "schedule_active x" "schedule_active y" "s_content_id x = s_content_id y"
  shows "x = y"
  using active_uniqueD [of "schedules (sys_db s)" x y] assms reachable_db_ok [OF assms(1)]
  by (simp add: db_ok_def schedules_ok_def)

theorem one_active_schedule_witness: "hd (schedules edited_db) = schedule1"
proof (rule one_active_schedule [OF reachable_edited])
  show "schedule_active (hd (schedules edited_db))" "schedule_active schedule1"
    by (simp_all add: edited_db_eq schedule1_def new_schedule_def schedule_active_def)
qed (simp_all add: edited_db_eq)

section \<open>Cancelling, failing, shutting down\<close>

lemma update_schedules_nofault:
  assumes nf: "faults w = []" and ok: "schedules_ok (tables w)"
    and keep: "\<And>s. s_content_id (f s) = s_content_id s \<and> (P s \<longrightarrow> schedule_active s)"
  shows "map_err g (sql_stmt (update_schedules P f)) w =
    (Inr (length (filter P (schedules (tables w)))), w\<lparr>tables := set_schedules P f (tables w)\<rparr>)"
proof -
  have "active_unique (update_where P f (schedules (tables w)))"
    using ok keep by (intro active_unique_update_where) (auto simp: schedules_ok_def)
  with nf show ?thesis
    by (simp add: map_err_def io_catch_def sql_stmt_nofault update_schedules_def set_schedules_def)
qed

lemma pending_rows:
  assumes "schedules_ok d"
  shows "filter (\<lambda>y. s_id y = sid \<and> s_status y = SchedulePending) (schedules d) =
    (case find_schedule d sid of None \<Rightarrow> []
     | Some x \<Rightarrow> if s_status x = SchedulePending then [x] else [])"
proof -
  have ids: "distinct (map s_id (schedules d))" using assms by (simp add: schedules_ok_def)
  have rows: "filter (\<lambda>y. s_id y = sid) (schedules d) =
      (case find_schedule d sid of None \<Rightarrow> [] | Some x \<Rightarrow> [x])"
    using filter_key_unique [OF ids] filter_key_none [of s_id sid "schedules d"]
    by (auto simp: find_schedule_def split: option.split)
  have "filter (\<lambda>y. s_id y = sid \<and> s_status y = SchedulePending) (schedules d) =
      filter (\<lambda>y. s_status y = SchedulePending) (filter (\<lambda>y. s_id y = sid) (schedules d))"
    by (simp add: conj_commute)
  then show ?thesis unfolding rows by (simp split: option.split)
qed

text \<open>
  Cancelling succeeds exactly on a pending schedule; an unknown one is not found, and one that
  was claimed, done or cancelled is refused, and then nothing changes.
\<close>

theorem cancel_outcome:
  assumes nf: "faults w = []" and ok: "db_ok (tables w)"
  shows "cancel_schedule sid now w =
    (case find_schedule (tables w) sid of
       None \<Rightarrow> (Inl ErrNotFound, w)
     | Some x \<Rightarrow>
         if s_status x = SchedulePending
         then (Inr (), w\<lparr>tables := set_schedules (\<lambda>y. s_id y = sid \<and> s_status y = SchedulePending)
                 (unlock ScheduleCancelled now) (tables w)\<rparr>)
         else (Inl ErrNotCancellable, w))"
proof -
  let ?P = "\<lambda>y. s_id y = sid \<and> s_status y = SchedulePending"
  have sok: "schedules_ok (tables w)" using ok by (simp add: db_ok_def)
  have upd: "map_err g (sql_stmt (update_schedules ?P (unlock ScheduleCancelled now))) w =
      (Inr (length (filter ?P (schedules (tables w)))),
       w\<lparr>tables := set_schedules ?P (unlock ScheduleCancelled now) (tables w)\<rparr>)" for g
    by (rule update_schedules_nofault [OF nf sok]) (simp add: schedule_active_def)
  have n: "filter ?P (schedules (tables w)) =
      (case find_schedule (tables w) sid of None \<Rightarrow> []
       | Some x \<Rightarrow> if s_status x = SchedulePending then [x] else [])"
    by (rule pending_rows [OF sok])
  have same: "set_schedules ?P (unlock ScheduleCancelled now) (tables w) = tables w"
    if "filter ?P (schedules (tables w)) = []"
    using that by (intro set_schedules_none) (auto simp: filter_empty_conv)
  show ?thesis
  proof (cases "\<exists>x. find_schedule (tables w) sid = Some x \<and> s_status x = SchedulePending")
    case True
    then obtain x where x: "find_schedule (tables w) sid = Some x" "s_status x = SchedulePending" by blast
    then have one: "length (filter ?P (schedules (tables w))) = 1" using n by simp
    show ?thesis
      using nf x by (simp add: cancel_schedule_def db_tx_def io_bind_def upd one map_err_driver_call
          io_return_def)
  next
    case False
    then have none: "filter ?P (schedules (tables w)) = []" using n by (auto split: option.splits)
    have status: "map_err (no_rows_to msg)
        (query_row (\<lambda>d. map_option s_status (find_schedule d sid))) w =
        (case find_schedule (tables w) sid of None \<Rightarrow> Inl ErrNotFound | Some x \<Rightarrow> Inr (s_status x), w)"
      for msg
      using nf by (cases "find_schedule (tables w) sid")
        (simp_all add: map_err_def io_catch_def query_row_nofault no_rows_to_def io_throw_def)
    show ?thesis
      using nf False none same [OF none] status
      by (cases "find_schedule (tables w) sid")
        (simp_all add: cancel_schedule_def db_tx_def io_bind_def upd map_err_driver_call io_throw_def)
  qed
qed

theorem cancel_outcome_witness:
  "fst (cancel_schedule ''s1'' 150 (world_of held_db 0)) = Inl ErrNotCancellable \<and>
   fst (cancel_schedule ''s2'' 150 (world_of held_db 0)) = Inl ErrNotFound"
  using cancel_outcome [of "world_of held_db 0" "''s1''" 150] held_db_ok
    cancel_outcome [of "world_of held_db 0" "''s2''" 150]
  by (simp add: held_db_eq find_schedule_def schedule1_def new_schedule_def)

definition released :: "string \<Rightarrow> int64 \<Rightarrow> db \<Rightarrow> db" where
  "released worker now = set_schedules
     (\<lambda>s. s_status s = ScheduleClaimed \<and> s_locked_by s = Some worker) (unlock SchedulePending now)"

lemma shutdown_nofault:
  assumes nf: "faults w = []" and ok: "db_ok (tables w)"
  shows "\<exists>w'. shutdown wk w = (Inr (), w') \<and>
    tables w' = released (wk_id wk) (to_millis (clock_now w)) (tables w)"
proof -
  let ?P = "\<lambda>s. s_status s = ScheduleClaimed \<and> s_locked_by s = Some (wk_id wk)"
  let ?t = "to_millis (clock_now w)"
  obtain w1 where now: "now_millis w = (Inr ?t, w1)" and w1: "tables w1 = tables w" "faults w1 = []"
    using nf by (metis now_millis_runs)
  have sok: "schedules_ok (tables w1)" using ok w1 by (simp add: db_ok_def)
  have upd: "map_err g (sql_stmt (update_schedules ?P (unlock SchedulePending ?t))) w1 =
      (Inr (length (filter ?P (schedules (tables w1)))),
       w1\<lparr>tables := set_schedules ?P (unlock SchedulePending ?t) (tables w1)\<rparr>)" for g
    by (rule update_schedules_nofault [OF w1(2) sok]) (simp add: schedule_active_def)
  show ?thesis
    using now w1 upd
    by (auto simp: shutdown_def release_claims_def io_bind_def io_attempt_def db_tx_def
        map_err_driver_call io_return_def released_def)
qed

text \<open>
  On shutdown a worker gives back exactly the schedules it holds, as pending and due as before,
  and touches no other.
\<close>

theorem shutdown_gives_back:
  assumes nf: "faults w = []" and ok: "db_ok (tables w)" and run: "shutdown wk w = (r, w')"
    and x: "x \<in> set (schedules (tables w))"
  shows "r = Inr () \<and>
    find_schedule (tables w') (s_id x) =
      Some (if s_status x = ScheduleClaimed \<and> s_locked_by x = Some (wk_id wk)
            then unlock SchedulePending (to_millis (clock_now w)) x else x)"
proof -
  have "find_schedule (tables w) (s_id x) = Some x"
    using ok x by (simp add: db_ok_find_schedule)
  then show ?thesis
    using shutdown_nofault [OF nf ok, of wk] run by (auto simp: released_def find_schedule_set_schedules)
qed

theorem shutdown_gives_back_witness:
  "map_option s_status (find_schedule (tables (snd (shutdown some_worker (world_of held_db 0)))) ''s1'')
     = Some SchedulePending"
proof -
  let ?x = "claim_row ''w1'' 30100 100 schedule1"
  obtain r w' where run: "shutdown some_worker (world_of held_db 0) = (r, w')" by fastforce
  have "wk_id some_worker = ''w1''" "s_id ?x = ''s1''" by code_simp+
  then show ?thesis
    using shutdown_gives_back [OF _ _ run, of ?x] held_db_ok run
    by (simp add: held_db_eq)
qed

text \<open>
  C25. Executing a job whose transaction fails puts it back, when the failure can be recorded: the
  schedule is pending, without a worker and without a lease, with the reason on it and its attempts
  kept, so that it is due again at once; it has no event, no pointer moved, and no other row of any
  table changed.
\<close>

theorem failed_job_retried:
  assumes ok: "db_ok (tables w)" and x: "x \<in> set (schedules (tables w))" "held_by (wk_id wk) (s_id x) x"
    and now: "now_millis w = (Inr now, w0)"
    and failed: "complete_scheduled_publish (job_of x) (wk_id wk) now w0 = (Inl e, w1)" "faults w1 = []"
    and run: "execute drv wk (job_of x) w = (r, w2)"
  shows "r = Inr () \<and>
    tables w2 = (tables w)\<lparr>schedules := map (\<lambda>s. if s_id s = s_id x
        then s\<lparr>s_status := SchedulePending, s_locked_by := None, s_lock_expires_at := None,
               s_last_error := error_text drv e, s_updated_at := now\<rparr>
        else s) (schedules (tables w))\<rparr> \<and>
    events_of_schedule (tables w2) (s_id x) = [] \<and>
    (\<forall>later \<ge> s_run_at x. \<exists>y. find_schedule (tables w2) (s_id x) = Some y \<and> schedule_due later y)"
proof -
  let ?P = "held_by (wk_id wk) (s_id x)"
  let ?f = "\<lambda>s. (unlock SchedulePending now s)\<lparr>s_last_error := error_text drv e\<rparr>"
  have "tables w0 = tables w" using now_millis_effect [OF now] by simp
  with atomicD [OF atomic_complete failed(1)] have w1: "tables w1 = tables w" by simp
  have sok: "schedules_ok (tables w1)" using ok w1 by (simp add: db_ok_def)
  have upd: "map_err g (sql_stmt (update_schedules ?P ?f)) w1 =
      (Inr (length (filter ?P (schedules (tables w1)))), w1\<lparr>tables := set_schedules ?P ?f (tables w1)\<rparr>)"
    for g
    by (rule update_schedules_nofault [OF failed(2) sok]) (simp add: schedule_active_def held_by_def)
  have r: "r = Inr ()" "tables w2 = set_schedules ?P ?f (tables w)"
    using run now failed upd w1
    by (auto simp: execute_def io_bind_def io_attempt_def fail_schedule_def db_tx_def map_err_driver_call
        io_return_def job_of_def)
  have this_row: "?P s \<longleftrightarrow> s_id s = s_id x" if "s \<in> set (schedules (tables w))" for s
    using ok x that by (auto simp: db_ok_def schedules_ok_def held_by_def dest: distinct_key_eq)
  have "tables w2 = (tables w)\<lparr>schedules := map (\<lambda>s. if s_id s = s_id x
        then s\<lparr>s_status := SchedulePending, s_locked_by := None, s_lock_expires_at := None,
               s_last_error := error_text drv e, s_updated_at := now\<rparr>
        else s) (schedules (tables w))\<rparr>"
    unfolding r(2) set_schedules_map using this_row by (simp add: unlock_def cong: map_cong)
  moreover have "find_schedule (tables w) (s_id x) = Some x"
    using ok x by (simp add: db_ok_find_schedule)
  with x have "find_schedule (tables w2) (s_id x) = Some (?f x)"
    unfolding r(2) by (subst find_schedule_set_schedules) simp_all
  then have "\<forall>later \<ge> s_run_at x. \<exists>y. find_schedule (tables w2) (s_id x) = Some y \<and> schedule_due later y"
    by (simp add: schedule_due_def unlock_def)
  moreover have "events_of_schedule (tables w2) (s_id x) = []"
    using ok x by (auto simp: r(2) db_ok_def done_ok_def held_by_def)
  ultimately show ?thesis using r(1) by blast
qed

theorem failed_job_retried_witness:
  "\<exists>w2 y. execute no_text some_worker (job_of schedule1)
        ((world_of held_db 120000000)\<lparr>faults := [None, Some ''disk I/O error'']\<rparr>) = (Inr (), w2) \<and>
      find_schedule (tables w2) ''s1'' = Some y \<and> schedule_due 100 y \<and>
      map s_locked_by (schedules (tables w2)) = [None] \<and>
      map s_last_error (schedules (tables w2)) = [''set published version: disk I/O error'']"
proof -
  let ?x = "claim_row ''w1'' 30100 100 schedule1"
  let ?w = "(world_of held_db 120000000)\<lparr>faults := [None, Some ''disk I/O error'']\<rparr>"
  let ?e = "Wrap ''set published version'' (DriverFault ''disk I/O error'')"
  have now: "now_millis ?w = (Inr 120, ?w)" by code_simp
  have failed: "complete_scheduled_publish (job_of ?x) (wk_id some_worker) 120 ?w =
      (Inl ?e, world_of held_db 120000000)"
    unfolding held_db_eq edited_db_eq by code_simp
  have ids: "s_id ?x = ''s1''" "wk_id some_worker = ''w1''" "s_run_at ?x = 100"
    "job_of ?x = job_of schedule1" "error_text no_text ?e = ''set published version: disk I/O error''"
    by code_simp+
  have rows: "schedules (tables ?w) = [?x]" by (simp add: held_db_eq)
  obtain r w2 where run: "execute no_text some_worker (job_of ?x) ?w = (r, w2)" by fastforce
  have "?x \<in> set (schedules (tables ?w))" "held_by (wk_id some_worker) (s_id ?x) ?x"
    by (simp_all add: held_db_eq held_by_def ids)
  from failed_job_retried [OF _ this now failed _ run] held_db_ok ids rows run
  show ?thesis by auto
qed

end
