(* ===== verification/Races.thy ===== *)
theory Races
  imports Contract_Laws Schedule_Laws
begin

text \<open>
  Clients that want the same thing: any number of them calls one handler, while the rest of the
  system, requests and workers, goes on between the calls. What makes at most one of them win is the
  same in each case and is proved once.
\<close>

section \<open>Contention\<close>

text \<open>The log holds the contenders' calls with their answers, in the order in which they were made.\<close>

inductive race ::
    "(nat \<Rightarrow> string) \<Rightarrow> ('q \<Rightarrow> handler) \<Rightarrow> system \<Rightarrow> ('q \<times> http_response) list \<Rightarrow> system \<Rightarrow> bool"
  for ident act where
  Over: "race ident act s [] s"
| Others: "sys_step ident s t \<Longrightarrow> race ident act t log u \<Longrightarrow> race ident act s log u"
| Call: "tables w = sys_db s \<Longrightarrow> act q w = (r, w') \<Longrightarrow>
    race ident act (s\<lparr>sys_db := tables w'\<rparr>) log u \<Longrightarrow> race ident act s ((q, r) # log) u"

definition won :: "int \<Rightarrow> ('q \<times> http_response) list \<Rightarrow> nat" where
  "won status log = length (filter (\<lambda>(q, r). rs_status r = status) log)"

lemma won_simps [simp]:
  "won st [] = 0"
  "won st ((q, r) # log) = (if rs_status r = st then Suc (won st log) else won st log)"
  by (simp_all add: won_def)

lemma steps_inv: "(sys_step ident)\<^sup>*\<^sup>* s t \<Longrightarrow> sys_inv s \<Longrightarrow> sys_inv t \<and> evolves (sys_db s) (sys_db t)"
  using sys.steps_inv_grow by (simp add: sys_grow_def)

lemma h_run_evolves:
  assumes "h_run h" "db_ok (tables w)" "h w = (r, w')"
  shows "db_ok (tables w') \<and> evolves (tables w) (tables w')"
proof -
  have "(sys_step one_id)\<^sup>*\<^sup>* (sys_of (tables w)) ((sys_of (tables w))\<lparr>sys_db := tables w'\<rparr>)"
    by (rule h_runD [OF assms(1,3)]) simp
  moreover have "sys_inv (sys_of (tables w))" using assms(2) by (simp add: sys_inv_def)
  ultimately have "sys_inv ((sys_of (tables w))\<lparr>sys_db := tables w'\<rparr>) \<and>
      evolves (sys_db (sys_of (tables w))) (sys_db ((sys_of (tables w))\<lparr>sys_db := tables w'\<rparr>))"
    by (rule steps_inv)
  then show ?thesis by (simp add: sys_inv_def)
qed

locale contended =
  fixes act :: "'q \<Rightarrow> handler"
    and contender :: "'q \<Rightarrow> bool"
    and status :: int
    and spent :: "db \<Rightarrow> bool"
  assumes runs: "h_run (act q)"
    and win: "contender q \<Longrightarrow> db_ok (tables w) \<Longrightarrow> act q w = (r, w') \<Longrightarrow> rs_status r = status \<Longrightarrow>
      db_ok (tables w') \<Longrightarrow> \<not> spent (tables w) \<and> spent (tables w')"
    and stays: "spent d \<Longrightarrow> evolves d d' \<Longrightarrow> db_ok d' \<Longrightarrow> spent d'"
begin

lemma race_steps: "race ident act s log u \<Longrightarrow> (sys_step ident)\<^sup>*\<^sup>* s u"
proof (induction rule: race.induct)
  case (Call w s q r w' log u)
  from h_runD [OF runs Call(2,1)] Call.IH show ?case by (rule rtranclp_trans)
qed (auto intro: converse_rtranclp_into_rtranclp)

lemma at_most_one:
  assumes "race ident act s log u" "sys_inv s" "\<forall>(q, r) \<in> set log. contender q"
  shows "won status log \<le> (if spent (sys_db s) then 0 else 1) \<and> (0 < won status log \<longrightarrow> spent (sys_db u))"
  using assms
proof (induction rule: race.induct)
  case (Others s t log u)
  have t: "sys_inv t" "evolves (sys_db s) (sys_db t)"
    using steps_inv [OF r_into_rtranclp [where r = "sys_step ident", OF Others(1)] Others.prems(1)] by simp_all
  then have "spent (sys_db s) \<longrightarrow> spent (sys_db t)" using stays by (auto simp: sys_inv_def)
  with Others.IH [OF t(1) Others.prems(2)] show ?case by (auto split: if_splits)
next
  case (Call w s q r w' log u)
  let ?t = "s\<lparr>sys_db := tables w'\<rparr>"
  have t: "sys_inv ?t" "evolves (sys_db s) (tables w')"
    using steps_inv [OF h_runD [OF runs Call(2,1)] Call.prems(1)] by simp_all
  have u: "sys_inv u" "evolves (tables w') (sys_db u)"
    using steps_inv [OF race_steps [OF Call(3)] t(1)] by simp_all
  note dbs = Call.prems(1) t(1) u(1)
  have "won status log \<le> (if spent (tables w') then 0 else 1) \<and> (0 < won status log \<longrightarrow> spent (sys_db u))"
    using Call.IH t(1) Call.prems(2) by simp
  moreover have "spent (sys_db s) \<longrightarrow> spent (tables w')"
    using stays t(2) dbs by (auto simp: sys_inv_def)
  moreover have "\<not> spent (sys_db s) \<and> spent (tables w') \<and> spent (sys_db u)" if "rs_status r = status"
    using win [OF _ _ Call(2) that] stays [OF _ u(2)] Call(1) Call.prems(2) dbs by (auto simp: sys_inv_def)
  ultimately show ?case by (auto split: if_splits)
qed simp

end

section \<open>One tag\<close>

lemma put_200:
  assumes "handle_update_content sv cid req w = (r, w')" "rs_status r = 200"
    and tag: "parse_if_match (rq_header req ''If-Match'') = Inr (v, False)"
  shows "\<exists>rq out wa. decode_json sv update_decoder zero_update req = Inr rq \<and>
    service_update (edit cid rq (actor_from req) v) w = (Inr out, wa) \<and> tables w' = tables wa"
proof -
  obtain rq where rq: "decode_json sv update_decoder zero_update req = Inr rq"
    using assms(1,2) decode_json_status [of sv update_decoder zero_update req]
    by (cases "decode_json sv update_decoder zero_update req")
      (auto simp: update_at_tag [OF tag] check_input_def respond_def)
  with assms(1) have "update_with cid rq (actor_from req) v w = (r, w')"
    by (simp add: update_at_tag [OF tag] check_input_def)
  from this assms(2) rq show ?thesis by (cases rule: update_with_cases) auto
qed

definition token_gone :: "string \<Rightarrow> int64 \<Rightarrow> db \<Rightarrow> bool" where
  "token_gone cid v d \<longleftrightarrow> (\<exists>c. find_content d cid = Some c \<and> v < c_current_version c)"

lemma update_token_gone:
  assumes "db_ok (tables w)" "service_update i w = (Inr out, w')"
  shows "token_gone (ui_id i) (ui_expected_version i) (tables w')"
proof -
  from service_update_effect [OF assms(2)] obtain w0 now where
    w0: "tables w0 = tables w" and
    upd: "update_content (ui_id i) (ui_expected_version i) (trim_fields (ui_fields i)) (ui_actor i) now w0 = (Inr out, w')"
    by blast
  from update_content_token [OF _ upd] update_content_effect [OF upd] w0 assms(1) show ?thesis
    by (auto simp: token_gone_def)
qed

interpretation edits: contended "handle_update_content sv cid"
    "\<lambda>req. parse_if_match (rq_header req ''If-Match'') = Inr (v, False)" 200 "token_gone cid v"
  for sv cid v
proof
  show "h_run (handle_update_content sv cid req)" for req
    by (rule h_run_admin)
next
  fix req w r w'
  assume "parse_if_match (rq_header req ''If-Match'') = Inr (v, False)" "db_ok (tables w)"
    "handle_update_content sv cid req w = (r, w')" "rs_status r = 200"
  from put_200 [OF this(3,4,1)] obtain rq out wa where su:
    "service_update (edit cid rq (actor_from req) v) w = (Inr out, wa)" "tables w' = tables wa" by blast
  show "\<not> token_gone cid v (tables w) \<and> token_gone cid v (tables w')"
    using update_matches [OF \<open>db_ok (tables w)\<close> su(1)] update_token_gone [OF \<open>db_ok (tables w)\<close> su(1)] su(2)
    by (auto simp: token_gone_def)
next
  fix d d'
  assume "token_gone cid v d" "evolves d d'" "db_ok d'"
  then show "token_gone cid v d'"
    by (auto simp: token_gone_def content_evolves_def dest!: evolves_find_content)
qed

section \<open>One slug\<close>

text \<open>What a create asks for: the slug of its body without the white space around it.\<close>

definition asks_slug :: "server \<Rightarrow> string \<Rightarrow> http_request \<Rightarrow> bool" where
  "asks_slug sv slug req \<longleftrightarrow>
     (\<forall>rq. decode_json sv create_decoder zero_create req = Inr rq \<longrightarrow> trim_space (cr_slug rq) = slug)"

definition slug_taken :: "string \<Rightarrow> db \<Rightarrow> bool" where
  "slug_taken slug d \<longleftrightarrow> slug \<in> c_slug ` set (contents d)"

lemma create_201_slug:
  assumes "asks_slug sv slug req" "handle_create_content sv req w = (r, w')" "rs_status r = 201"
  shows "\<not> slug_taken slug (tables w) \<and> slug_taken slug (tables w')"
proof -
  from create_status_201 [OF assms(2,3)] obtain rq out where
    rq: "decode_json sv create_decoder zero_create req = Inr rq" and
    sc: "service_create (rq_uuid req) (create_input_of rq (actor_from req)) w = (Inr out, w')"
    by blast
  let ?i = "create_input_of rq (actor_from req)"
  from service_create_effect [OF sc] obtain wa now where
    wa: "tables wa = tables w" and
    cc: "create_content (rq_uuid req) (trim_space (ci_slug ?i)) (trim_fields (ci_fields ?i)) (ci_actor ?i) now wa =
      (Inr out, w')" by blast
  have "trim_space (ci_slug ?i) = slug" using rq assms(1) by (simp add: asks_slug_def create_input_of_def)
  with create_content_effect [OF cc] wa show ?thesis by (auto simp: slug_taken_def)
qed

interpretation creates: contended "handle_create_content sv" "asks_slug sv slug" 201 "slug_taken slug"
  for sv slug
proof
  show "h_run (handle_create_content sv req)" for req
    by (rule h_run_admin)
next
  fix req w r w'
  assume "asks_slug sv slug req" "handle_create_content sv req w = (r, w')" "rs_status r = 201"
  then show "\<not> slug_taken slug (tables w) \<and> slug_taken slug (tables w')"
    by (rule create_201_slug)
next
  fix d d'
  assume s: "slug_taken slug d" and ev: "evolves d d'" and "db_ok d'"
  from s obtain c where c: "c \<in> set (contents d)" "c_slug c = slug" by (auto simp: slug_taken_def)
  with ev obtain c' where "c' \<in> set (contents d')" "content_evolves c c'"
    by (auto simp: evolves_def dest: rows_evolve_in)
  with c(2) show "slug_taken slug d'" unfolding slug_taken_def content_evolves_def by (metis imageI)
qed

lemma one_row: "distinct (map f xs) \<Longrightarrow> length (filter (\<lambda>x. f x = y) xs) \<le> 1"
proof (induction xs)
  case (Cons x xs)
  have "filter (\<lambda>x. f x = y) xs = []" if "f x = y"
    using Cons.prems that by (simp add: filter_empty_conv image_iff) metis
  with Cons show ?case by simp
qed simp

lemma race_world:
  assumes "act q (world_of d t) = (r, w')" "race ident act (sys_of (tables w')) log u"
  shows "race ident act (sys_of d) ((q, r) # log) u"
  by (rule race.Call [where act = act, OF _ assms(1)]) (use assms(2) in \<open>simp_all add: sys_of_def\<close>)

text \<open>
  C7. A slug goes to one document: of any number of creates that ask for the same slug, with any
  requests and workers and failures in between, at most one is answered 201, none if the slug was
  taken before; the slug then stays taken, and never by two documents.
\<close>

theorem one_winner_per_slug:
  assumes "reachable ident s" "race ident (handle_create_content sv) s log u"
    and "\<forall>(req, r) \<in> set log. asks_slug sv slug req"
  shows "won 201 log \<le> (if slug_taken slug (sys_db s) then 0 else 1) \<and>
    (0 < won 201 log \<longrightarrow> slug_taken slug (sys_db u)) \<and>
    length (filter (\<lambda>c. c_slug c = slug) (contents (sys_db u))) \<le> 1"
proof -
  have s: "sys_inv s" using assms(1) by (rule reachable_sys_inv)
  have "db_ok (sys_db u)" using steps_inv [OF creates.race_steps [OF assms(2)] s] by (simp add: sys_inv_def)
  then have "distinct (map c_slug (contents (sys_db u)))" by (simp add: db_ok_def contents_ok_def)
  then have "length (filter (\<lambda>c. c_slug c = slug) (contents (sys_db u))) \<le> 1"
    by (rule one_row)
  with creates.at_most_one [OF assms(2) s assms(3)] show ?thesis by simp
qed

theorem one_winner_per_slug_witness:
  "\<exists>log u. race one_id (handle_create_content some_server) (sys_of edited_db) log u \<and>
     map fst log = [post_world, post_world] \<and> won 201 log \<le> 1"
proof -
  let ?act = "handle_create_content some_server"
  obtain r1 w1 where r1: "?act post_world (world_of edited_db 0) = (r1, w1)" by fastforce
  obtain r2 w2 where r2: "?act post_world (world_of (tables w1) 0) = (r2, w2)" by fastforce
  let ?log = "[(post_world, r1), (post_world, r2)]"
  have run: "race one_id ?act (sys_of edited_db) ?log (sys_of (tables w2))"
    by (rule race_world [where act = ?act, OF r1 race_world [where act = ?act, OF r2 race.Over]])
  have "decode_json some_server create_decoder zero_create post_world =
      Inr \<lparr>cr_slug = '' world '', cr_title = ''World'', cr_body = [], cr_seo = zero_seo\<rparr>"
    "trim_space '' world '' = ''world''" by code_simp+
  then have "asks_slug some_server ''world'' post_world" by (simp add: asks_slug_def)
  then have "won 201 ?log \<le> 1"
    using one_winner_per_slug [OF reachable_edited run, of "''world''"] by (auto split: if_splits)
  with run show ?thesis by (intro exI [of _ ?log] exI) (auto simp del: won_simps)
qed

section \<open>Cancelling against publishing\<close>

definition cancelled :: "string \<Rightarrow> db \<Rightarrow> bool" where
  "cancelled sid d \<longleftrightarrow> (\<exists>x. find_schedule d sid = Some x \<and> s_status x = ScheduleCancelled)"

lemma cancel_204:
  assumes "db_ok (tables w)" "handle_cancel_schedule sid w = (r, w')" "rs_status r = 204"
  shows "\<not> cancelled sid (tables w) \<and> cancelled sid (tables w')"
proof -
  obtain r1 w1 where run: "service_cancel_schedule sid w = (r1, w1)" by fastforce
  have r1: "r1 = Inr ()"
  proof (cases r1)
    case (Inl e)
    with assms(2,3) run domain_error_status [of "[]" e w1] show ?thesis
      by (simp add: handle_cancel_schedule_def check_def)
  qed simp
  with assms(2) run have w1: "w1 = w'" by (simp add: handle_cancel_schedule_def check_def respond_def)
  from run r1 obtain w0 now where w0: "tables w0 = tables w" "cancel_schedule sid now w0 = (Inr (), w1)"
    by (auto simp: service_cancel_schedule_def io_simps dest: now_millis_effect)
  let ?P = "\<lambda>x. s_id x = sid \<and> s_status x = SchedulePending"
  from cancel_schedule_effect [OF w0(2)] w0(1) have
    one: "length (filter ?P (schedules (tables w))) = 1" and
    eff: "tables w' = set_schedules ?P (unlock ScheduleCancelled now) (tables w)"
    by (simp_all add: w1)
  then obtain x where "x \<in> set (filter ?P (schedules (tables w)))"
    by (metis length_greater_0_conv less_one list.set_sel(1))
  then have x: "find_schedule (tables w) sid = Some x" "s_status x = SchedulePending" "s_id x = sid"
    using assms(1) by (auto simp: db_ok_find_schedule)
  then show ?thesis
    by (simp add: cancelled_def eff find_schedule_set_schedules unlock_def)
qed

interpretation cancels: contended "\<lambda>req :: http_request. handle_cancel_schedule sid" "\<lambda>req. True" 204 "cancelled sid"
  for sid
proof
  show "h_run (handle_cancel_schedule sid)" by (rule h_run_admin)
next
  fix w r w'
  assume "db_ok (tables w)" "handle_cancel_schedule sid w = (r, w')" "rs_status r = 204"
  then show "\<not> cancelled sid (tables w) \<and> cancelled sid (tables w')" by (rule cancel_204)
next
  fix d d'
  assume "cancelled sid d" "evolves d d'" "db_ok d'"
  then show "cancelled sid d'"
    by (auto simp: cancelled_def schedule_evolves_def schedule_active_def dest!: evolves_find_schedule)
qed

text \<open>
  C8. Cancelled or published, never both: of any number of cancellations of a schedule, with any
  workers, requests and failures in between, at most one is answered 204; none is when the schedule
  has been published before, and after a 204 the schedule is cancelled for good and has published
  nothing.
\<close>

theorem cancel_or_publish:
  assumes "reachable ident s" "race ident (\<lambda>req :: http_request. handle_cancel_schedule sid) s log u"
  shows "won 204 log \<le> 1 \<and>
    (events_of_schedule (sys_db s) sid \<noteq> [] \<longrightarrow> won 204 log = 0) \<and>
    (0 < won 204 log \<longrightarrow> cancelled sid (sys_db u) \<and> events_of_schedule (sys_db u) sid = [])"
proof -
  have s: "sys_inv s" using assms(1) by (rule reachable_sys_inv)
  have u: "db_ok (sys_db u)" "evolves (sys_db s) (sys_db u)"
    using steps_inv [OF cancels.race_steps [OF assms(2)] s] by (simp_all add: sys_inv_def)
  have most: "won 204 log \<le> 1" "0 < won 204 log \<longrightarrow> cancelled sid (sys_db u)"
    using cancels.at_most_one [OF assms(2) s] by (auto split: if_splits)
  have none: "events_of_schedule (sys_db u) sid = []" if "cancelled sid (sys_db u)"
  proof -
    from that obtain x where x: "find_schedule (sys_db u) sid = Some x" "s_status x = ScheduleCancelled"
      by (auto simp: cancelled_def)
    then have "x \<in> set (schedules (sys_db u))" "s_id x = sid"
      by (auto simp: find_schedule_def dest: row_with_SomeD)
    with x(2) u(1) show ?thesis by (force simp: db_ok_def done_ok_def)
  qed
  from evolves_events [OF u(2)] have "events_of_schedule (sys_db s) sid \<noteq> [] \<Longrightarrow> events_of_schedule (sys_db u) sid \<noteq> []"
    by (auto simp: events_of_schedule_def)
  with most none show ?thesis by auto
qed

theorem cancel_or_publish_witness:
  "\<exists>r u. race one_id (\<lambda>req :: http_request. handle_cancel_schedule ''s1'') (sys_of ticked_db) [(post_world, r)] u \<and>
     won 204 [(post_world, r)] = 0"
proof -
  obtain r w where r: "handle_cancel_schedule ''s1'' (world_of ticked_db 0) = (r, w)" by fastforce
  then have run: "race one_id (\<lambda>req :: http_request. handle_cancel_schedule ''s1'') (sys_of ticked_db)
      [(post_world, r)] (sys_of (tables w))"
    by (rule race_world [where act = "\<lambda>req. handle_cancel_schedule ''s1''"]) (rule race.Over)
  have "events_of_schedule (sys_db (sys_of ticked_db)) ''s1'' \<noteq> []"
    by (simp add: ticked_db_eq events_of_schedule_def event1_def event2_def)
  with cancel_or_publish [OF reachable_ticked run] run show ?thesis by blast
qed

section \<open>Nobody else\<close>

text \<open>
  The same contention when nothing disturbs it: the first contender wins, everyone after it is told
  so. What the losers see and leave behind is the same for all of them.
\<close>

locale serialized =
  fixes act :: "'q \<Rightarrow> handler"
    and contender :: "'q \<Rightarrow> bool"
    and free :: "nat \<Rightarrow> world \<Rightarrow> bool"
    and gone :: "nat \<Rightarrow> world \<Rightarrow> bool"
    and view :: "world \<Rightarrow> 'v"
    and good bad :: int
  assumes first: "contender q \<Longrightarrow> free (Suc n) w \<Longrightarrow> act q w = (r, w') \<Longrightarrow> rs_status r = good \<and> gone n w'"
    and later: "contender q \<Longrightarrow> gone (Suc n) w \<Longrightarrow> act q w = (r, w') \<Longrightarrow>
      rs_status r = bad \<and> gone n w' \<and> view w' = view w"
begin

lemma all_late:
  "trace act qs w = (rs, w') \<Longrightarrow> \<forall>q \<in> set qs. contender q \<Longrightarrow> gone (length qs) w \<Longrightarrow>
   map rs_status rs = replicate (length qs) bad \<and> view w' = view w"
proof (induction qs arbitrary: w rs w')
  case (Cons q qs)
  obtain r w1 where r: "act q w = (r, w1)" by fastforce
  obtain rs1 w2 where rs: "trace act qs w1 = (rs1, w2)" by fastforce
  have "rs_status r = bad \<and> gone (length qs) w1 \<and> view w1 = view w"
    using later [OF _ _ r] Cons.prems by simp
  with Cons.IH [OF rs] Cons.prems r rs show ?case by auto
qed simp

lemma first_wins:
  assumes "trace act (q # qs) w = (rs, w')" "\<forall>q \<in> set (q # qs). contender q" "free (length (q # qs)) w"
  shows "map rs_status rs = good # replicate (length qs) bad \<and> view w' = view (snd (act q w))"
proof -
  obtain r w1 where r: "act q w = (r, w1)" by fastforce
  obtain rs1 w2 where rs: "trace act qs w1 = (rs1, w2)" by fastforce
  have "rs_status r = good \<and> gone (length qs) w1"
    using first [OF _ _ r] assms by simp
  with all_late [OF rs] assms r rs show ?thesis by auto
qed

end

text \<open>An update whose body is in order and that carries the tag of version \<open>v\<close>.\<close>

definition valid_edit :: "server \<Rightarrow> int64 \<Rightarrow> http_request \<Rightarrow> bool" where
  "valid_edit sv v req \<longleftrightarrow> parse_if_match (rq_header req ''If-Match'') = Inr (v, False) \<and>
     (\<exists>rq f. decode_json sv update_decoder zero_update req = Inr rq \<and>
        normalize_fields (seo_fields (ur_seo rq) (ur_title rq) (ur_body rq)) = Inr f)"

definition edit_of :: "server \<Rightarrow> string \<Rightarrow> int64 \<Rightarrow> http_request \<Rightarrow> update_input" where
  "edit_of sv cid v req =
     (case decode_json sv update_decoder zero_update req of
        Inl e \<Rightarrow> edit cid zero_update (actor_from req) v
      | Inr rq \<Rightarrow> edit cid rq (actor_from req) v)"

lemma doc_versions:
  assumes "db_ok d" "find_content d cid = Some c"
  shows "\<exists>x. docs_by_id (docs_of d) cid = Some x \<and> int (length (doc_history x)) = c_current_version c"
  using assms history_length [OF assms] find_content_id [OF assms(2)] by (simp add: docs_of_def doc_of_def)

lemma put_effect:
  assumes "valid_edit sv v req" "ready (Suc n) w" "handle_update_content sv cid req w = (r, w')"
  shows "docs_of (tables w') = snd (spec_update (edit_of sv cid v req) (docs_of (tables w))) \<and> ready n w' \<and>
    (fst (spec_update (edit_of sv cid v req) (docs_of (tables w))) = None \<longrightarrow> rs_status r = 200)"
proof -
  obtain rq f where rq: "decode_json sv update_decoder zero_update req = Inr rq"
      "normalize_fields (seo_fields (ur_seo rq) (ur_title rq) (ur_body rq)) = Inr f"
    and tag: "parse_if_match (rq_header req ''If-Match'') = Inr (v, False)"
    using assms(1) by (auto simp: valid_edit_def)
  let ?i = "edit cid rq (actor_from req) v"
  have i: "edit_of sv cid v req = ?i" by (simp add: edit_of_def rq)
  obtain r1 w1 where su: "service_update ?i w = (r1, w1)" by fastforce
  obtain e where out: "run_op (UpdateOp ?i) w = (e, w1)" "e = (case r1 of Inl x \<Rightarrow> Some x | Inr y \<Rightarrow> None)"
    using su by (cases r1) (simp_all add: outcome_def)
  note sim = sim_update [OF assms(2) out(1)]
  have uw: "check (service_update ?i) (write_domain_error cid) write_content w = (r, w')"
    using assms(3) rq by (simp add: update_at_tag [OF tag] check_input_def update_with_def)
  show ?thesis
  proof (cases r1)
    case (Inl err)
    then have "write_domain_error cid err w1 = (r, w')" using uw su by (simp add: check_def)
    moreover have "faults w1 = []" "db_ok (tables w1)" using sim by (simp_all add: ready_def)
    ultimately have "w' = w1"
      by (auto simp: write_domain_error_def respond_def get_content_nofault split: option.splits if_splits)
    with sim out Inl i show ?thesis by simp
  next
    case (Inr y)
    then have wc: "write_content y w1 = (r, w')" using uw su by (simp add: check_def)
    have ok: "faults w1 = []" "db_ok (tables w1)" using sim by (simp_all add: ready_def)
    from service_update_effect [OF su [unfolded Inr]] obtain w0 now where
      "update_content cid v (trim_fields (ui_fields ?i)) (ui_actor ?i) now w0 = (Inr y, w1)" by auto
    from update_content_effect [OF this] have "find_content (tables w1) cid = Some (cv_content y)" by blast
    then have "cv_content y \<in> set (contents (tables w1))" by (rule find_content_in)
    from published_version_number_nofault [OF ok this] wc have "rs_status r = 200 \<and> w' = w1"
      by (auto simp: write_content_def check_def respond_def write_json_def)
    with sim out Inr i show ?thesis by simp
  qed
qed

text \<open>A contender whose tag has passed.\<close>

lemma late_put:
  assumes "valid_edit sv v req" "ready (Suc n) w" "token_gone cid v (tables w)" "cid \<noteq> []"
    and run: "handle_update_content sv cid req w = (r, w')"
  shows "rs_status r = 412 \<and> docs_of (tables w') = docs_of (tables w) \<and> token_gone cid v (tables w')"
proof -
  obtain c where c: "find_content (tables w) cid = Some c" "v < c_current_version c"
    using assms(3) by (auto simp: token_gone_def)
  have ok: "faults w = []" "db_ok (tables w)" using assms(2) by (simp_all add: ready_def)
  obtain x where x: "docs_by_id (docs_of (tables w)) cid = Some x" "int (length (doc_history x)) \<noteq> v"
    using doc_versions [OF ok(2) c(1)] c(2) by auto
  obtain rq f where rq: "decode_json sv update_decoder zero_update req = Inr rq"
      "normalize_fields (seo_fields (ur_seo rq) (ur_title rq) (ur_body rq)) = Inr f"
    and tag: "parse_if_match (rq_header req ''If-Match'') = Inr (v, False)"
    using assms(1) by (auto simp: valid_edit_def)
  have "update_with cid rq (actor_from req) v w = (r, w')"
    using run rq by (simp add: update_at_tag [OF tag] check_input_def)
  from stale_put_conflict [OF this ok(1) assms(4) ok(2) c rq(2)] have "rs_status r = 412"
    by (simp add: write_version_conflict_def write_error_def write_json_def)
  moreover have "docs_of (tables w') = docs_of (tables w)"
    using put_effect [OF assms(1,2) run] x rq by (simp add: spec_update_def edit_of_def)
  moreover have "token_gone cid v (tables w')"
    using edits.stays [OF assms(3)] h_run_evolves [OF h_run_admin(2) ok(2) run] by blast
  ultimately show ?thesis by blast
qed

definition current_tag :: "string \<Rightarrow> int64 \<Rightarrow> db \<Rightarrow> bool" where
  "current_tag cid v d \<longleftrightarrow> (\<exists>c. find_content d cid = Some c \<and> c_current_version c = v)"

lemma timely_put:
  assumes "valid_edit sv v req" "ready (Suc n) w" "current_tag cid v (tables w)"
    and run: "handle_update_content sv cid req w = (r, w')"
  shows "rs_status r = 200 \<and> token_gone cid v (tables w') \<and>
    docs_of (tables w') = snd (spec_update (edit_of sv cid v req) (docs_of (tables w)))"
proof -
  have ok: "db_ok (tables w)" using assms(2) by (simp add: ready_def)
  obtain c where c: "find_content (tables w) cid = Some c" "c_current_version c = v"
    using assms(3) by (auto simp: current_tag_def)
  obtain x where x: "docs_by_id (docs_of (tables w)) cid = Some x" "int (length (doc_history x)) = v"
    using doc_versions [OF ok c(1)] c(2) by auto
  obtain rq f where rq: "decode_json sv update_decoder zero_update req = Inr rq"
      "normalize_fields (seo_fields (ur_seo rq) (ur_title rq) (ur_body rq)) = Inr f"
    and tag: "parse_if_match (rq_header req ''If-Match'') = Inr (v, False)"
    using assms(1) by (auto simp: valid_edit_def)
  have st: "rs_status r = 200"
    using put_effect [OF assms(1,2) run] x rq by (simp add: spec_update_def edit_of_def)
  from put_200 [OF run st tag] update_token_gone [OF ok] have "token_gone cid v (tables w')" by fastforce
  with st put_effect [OF assms(1,2) run] show ?thesis by simp
qed

interpretation undisturbed: serialized "handle_update_content sv cid" "\<lambda>req. cid \<noteq> [] \<and> valid_edit sv v req"
    "\<lambda>n w. ready n w \<and> current_tag cid v (tables w)" "\<lambda>n w. ready n w \<and> token_gone cid v (tables w)"
    "\<lambda>w. docs_of (tables w)" 200 412
  for sv cid v
proof
  fix q n w r w'
  assume q: "cid \<noteq> [] \<and> valid_edit sv v q" and run: "handle_update_content sv cid q w = (r, w')"
  { assume "ready (Suc n) w \<and> current_tag cid v (tables w)"
    then show "rs_status r = 200 \<and> ready n w' \<and> token_gone cid v (tables w')"
      using q timely_put [OF _ _ _ run] put_effect [OF _ _ run] by blast }
  { assume "ready (Suc n) w \<and> token_gone cid v (tables w)"
    then show "rs_status r = 412 \<and> (ready n w' \<and> token_gone cid v (tables w')) \<and>
        docs_of (tables w') = docs_of (tables w)"
      using q late_put [OF _ _ _ _ run] put_effect [OF _ _ run] by blast }
qed

text \<open>
  The first editor wins and nobody else: when any number of editors that read the same version
  send their PUTs one after the other, nothing failing, the first is answered 200 and all the others
  412, and the documents are as if only the first had been sent.
\<close>

theorem first_edit_wins:
  assumes "ready (length (req # reqs)) w" "cid \<noteq> []"
    and c: "find_content (tables w) cid = Some c"
    and valid: "\<forall>q \<in> set (req # reqs). valid_edit sv (c_current_version c) q"
    and run: "trace (handle_update_content sv cid) (req # reqs) w = (rs, w')"
  shows "map rs_status rs = 200 # replicate (length reqs) 412 \<and>
    docs_of (tables w') = snd (spec_update (edit_of sv cid (c_current_version c) req) (docs_of (tables w)))"
proof -
  let ?v = "c_current_version c"
  obtain r w1 where r: "handle_update_content sv cid req w = (r, w1)" by fastforce
  have open_: "ready (length (req # reqs)) w \<and> current_tag cid ?v (tables w)"
    using assms(1) c by (simp add: current_tag_def)
  from undisturbed.first_wins [OF run _ open_] r
    timely_put [of sv ?v req "length reqs" w cid r w1] valid open_ assms(2)
  show ?thesis by simp
qed

theorem first_edit_wins_witness:
  "map rs_status (fst (trace (handle_update_content some_server ''d1'')
     [put_hello (format_etag 2) ''three'', put_hello (format_etag 2) ''four'', put_hello (format_etag 2) ''five'']
     (world_of edited_db 0))) = [200, 412, 412]"
proof -
  let ?q = "\<lambda>t. put_hello (format_etag 2) t"
  let ?reqs = "[?q ''four'', ?q ''five'']" and ?w = "world_of edited_db 0"
  obtain rs w' where run: "trace (handle_update_content some_server ''d1'') (?q ''three'' # ?reqs) ?w = (rs, w')"
    by fastforce
  have "db_ok (tables ?w)" using reachable_db_ok [OF reachable_edited] by simp
  then have "ready (length (?q ''three'' # ?reqs)) ?w"
    by (simp add: ready_def edited_db_eq doc1_def max_rowid_def)
  moreover have c: "find_content (tables ?w) ''d1'' = Some (doc1 2 (Some 1) (Some 3) 3)"
    by (simp add: find_content_def edited_db_eq doc1_def)
  moreover have "valid_edit some_server 2 (?q t)" if "t \<in> {''three'', ''four'', ''five''}" for t
  proof -
    have "parse_if_match (rq_header (?q t) ''If-Match'') = Inr (2, False)"
      "decode_json some_server update_decoder zero_update (?q t) = Inr \<lparr>ur_title = t, ur_body = [], ur_seo = zero_seo\<rparr>"
      "normalize_fields (seo_fields zero_seo t []) = Inr ((draft t)\<lparr>f_body := []\<rparr>)"
      using that by (elim insertE emptyE; simp only:; code_simp)+
    then show ?thesis by (simp add: valid_edit_def)
  qed
  ultimately have "map rs_status rs = [200, 412, 412]"
    using first_edit_wins [OF _ _ c _ run] by (simp add: doc1_def numeral_2_eq_2)
  with run show ?thesis by simp
qed

section \<open>The wildcard\<close>

lemma service_get_row:
  assumes ok: "db_ok (tables w)" and run: "service_get cid w = (Inr cur, w1)"
  shows "find_content (tables w) cid = Some (cv_content cur)"
  using run ok
  by (auto simp: service_get_def get_content_with_current_version_def scan_content_with_version_def
      current_version_join_def io_simps db_ok_find_content dest!: next_fault_tables first_row_SomeD)

lemma history_at_same_version:
  assumes "db_ok d" "db_ok d'" "evolves d d'" "find_content d cid = Some c" "find_content d' cid = Some c'"
    and "c_current_version c' = c_current_version c"
  shows "history d' cid = history d cid"
proof -
  from evolves_versions [OF assms(3)] obtain vs where "versions d' = versions d @ vs" by blast
  then have h: "history d' cid = history d cid @ filter (\<lambda>v. v_content_id v = cid) vs" by (simp add: history_def)
  have "length (history d' cid) = length (history d cid)"
    using history_length [OF assms(1,4)] history_length [OF assms(2,5)] assms(6) by simp
  with h show ?thesis by simp
qed

lemma update_at_wildcard:
  assumes "trim_space (rq_header req ''If-Match'') = ''*''"
  shows "handle_update_content sv cid req =
    check_input (decode_json sv update_decoder zero_update req)
      (\<lambda>rq. check (service_get cid) (write_domain_error cid)
        (\<lambda>cur. update_with cid rq (actor_from req) (c_current_version (cv_content cur))))"
proof -
  from assms have "parse_if_match (rq_header req ''If-Match'') = Inr (0, True)"
    by (simp add: parse_if_match_def Let_def)
  then show ?thesis by (simp add: handle_update_content_def expected_version_def)
qed

text \<open>
  C5. A wildcard PUT is not a blind write. The handler reads the current version and then swaps at it; if
  anybody saved the document in between, whatever else the system did, the swap changes nothing and
  is not answered 200. A 200 means that the new version directly follows the one that was read.
\<close>

theorem wildcard_loses_the_race:
  assumes "reachable ident s" "tables w = sys_db s"
    and star: "trim_space (rq_header req ''If-Match'') = ''*''"
    and read: "service_get cid w = (Inr cur, w1)"
    and between: "(sys_step ident)\<^sup>*\<^sup>* s u" "tables w2 = sys_db u"
    and swap: "update_with cid rq actor (c_current_version (cv_content cur)) w2 = (r, w3)"
  shows "handle_update_content sv cid req =
      check_input (decode_json sv update_decoder zero_update req)
        (\<lambda>rq. check (service_get cid) (write_domain_error cid)
          (\<lambda>cur. update_with cid rq (actor_from req) (c_current_version (cv_content cur)))) \<and>
    (history (sys_db u) cid \<noteq> history (sys_db s) cid \<longrightarrow> rs_status r \<noteq> 200 \<and> tables w3 = sys_db u) \<and>
    (rs_status r = 200 \<longrightarrow> (\<exists>v. history (tables w3) cid = history (sys_db s) cid @ [v] \<and>
       v_version v = c_current_version (cv_content cur) + 1))"
proof -
  let ?v = "c_current_version (cv_content cur)"
  have ok: "db_ok (tables w)" using reachable_db_ok [OF assms(1)] assms(2) by simp
  have ev: "db_ok (tables w2)" "evolves (tables w) (tables w2)"
    using steps_evolve [OF assms(1) between(1)] assms(2) between(2) by simp_all
  have kept: "history (tables w2) cid = history (tables w) cid \<and> (\<exists>v. tables w3 = tables wx \<and>
      history (tables wx) cid = history (tables w2) cid @ [v] \<and> v_version v = ?v + 1)"
    if su: "service_update (edit cid rq actor ?v) w2 = (Inr out, wx)" "tables w3 = tables wx" for out wx
  proof -
    from update_matches [OF ev(1) su(1)] obtain c' where
      c': "find_content (tables w2) cid = Some c'" "c_current_version c' = ?v" by auto
    from service_update_effect [OF su(1)] obtain w0 now where
      w0: "tables w0 = tables w2" and
      upd: "update_content cid ?v (trim_fields (ui_fields (edit cid rq actor ?v))) actor now w0 = (Inr out, wx)"
      by auto
    from update_content_effect [OF upd] w0 have "history (tables wx) cid = history (tables w2) cid @
        [new_version (version_seq (tables w2) + 1) cid (wrap64 (?v + 1)) (trim_fields (ui_fields (edit cid rq actor ?v))) actor now]"
      by (simp add: history_cong [of "bump_version cid ?v now (tables w2)" "tables w2"])
    moreover have "wrap64 (?v + 1) = ?v + 1" using update_content_token [OF _ upd] ev(1) w0 by simp
    moreover have "history (tables w2) cid = history (tables w) cid"
      by (rule history_at_same_version [OF ok ev service_get_row [OF ok read] c'])
    ultimately show ?thesis using su(2) by (auto simp: new_version_def)
  qed
  from swap show ?thesis
  proof (cases rule: update_with_cases)
    case refused
    with between(2) update_at_wildcard [OF star] show ?thesis by simp
  next
    case (accepted out wx)
    with kept [OF accepted(1,3)] update_at_wildcard [OF star] assms(2) between(2) show ?thesis by auto
  qed
qed

definition interfered_db :: db where
  "interfered_db = after (UpdateRequest ''d1'' 2 (draft ''other'') ''cy'' 5) edited_db"

lemma interfered_db_eq:
  "interfered_db = edited_db\<lparr>contents := [doc1 3 (Some 1) (Some 3) 5], versions := versions1 @
     [\<lparr>v_id = 3, v_content_id = ''d1'', v_version = 3, v_created_by = ''cy'', v_created_at = 5,
       v_fields = draft ''other''\<rparr>], version_seq := 3\<rparr>"
  by code_simp

theorem wildcard_loses_the_race_witness:
  "rs_status (fst (update_with ''d1'' \<lparr>ur_title = ''mine'', ur_body = [], ur_seo = zero_seo\<rparr> ''bo'' 2
     (world_of interfered_db 0))) \<noteq> 200"
proof -
  let ?rq = "\<lparr>ur_title = ''mine'', ur_body = [], ur_seo = zero_seo\<rparr>"
  obtain r w3 where run: "update_with ''d1'' ?rq ''bo'' 2 (world_of interfered_db 0) = (r, w3)" by fastforce
  have star: "trim_space (rq_header (put_hello ''*'' ''mine'') ''If-Match'') = ''*''" by code_simp
  obtain cur where cur: "service_get ''d1'' (world_of edited_db 0) = (Inr cur, world_of edited_db 0)"
    "c_current_version (cv_content cur) = 2"
    using service_get_nofault [of "world_of edited_db 0" "''d1''"] reachable_db_ok [OF reachable_edited]
    by (simp add: edited_db_eq find_content_def row_with_def doc1_def)
  have step: "(sys_step one_id)\<^sup>*\<^sup>* (sys_of edited_db) (sys_of interfered_db)"
    unfolding interfered_db_def using after_step by (rule r_into_rtranclp)
  have "history interfered_db ''d1'' \<noteq> history edited_db ''d1''"
    unfolding interfered_db_eq edited_db_eq by (simp add: history_def versions1_def)
  then show ?thesis
    using wildcard_loses_the_race [OF reachable_edited _ star cur(1) step, of "world_of interfered_db 0" ?rq "''bo''" r w3]
      run cur(2) by simp
qed

end
