(* ===== verification/Client_Laws.thy ===== *)
theory Client_Laws
  imports Wire_Laws Races
begin

text \<open>
  What a client written as the repository's test harness sees: its requests go over the router and
  the access check to a handler, and it reads the bodies it gets back into its own structs.
\<close>

section \<open>A call over the wire\<close>

lemma token_accepted: "authorized admin_token (''Bearer '' @ admin_token)"
  by code_simp

lemma harness_do_admin:
  assumes "wi_url wi (cq_path cq) = (path, q)" "wi_pick wi (cq_method cq) path = Some (rt, ps)" "rt_admin rt"
    and "\<not> cq_no_auth cq" "map_of (cq_headers cq) ''Authorization'' = None"
    and "cfg_admin_api_token (sv_cfg sv) = admin_token"
    and "dispatch sv (rt_endpoint rt) ps (http_request_of wi uuid cq) w = (r, w1)"
  shows "harness_do wi sv uuid cq w =
    (\<lparr>cs_status = rs_status r, cs_header = rs_header r, cs_body = json_of_payload (rs_body r)\<rparr>, w1)"
proof -
  have "rq_header (http_request_of wi uuid cq) ''Authorization'' = ''Bearer '' @ admin_token"
    using assms(4,5) by (simp add: http_request_of_def client_headers_def map_add_def)
  moreover have "rq_method (http_request_of wi uuid cq) = cq_method cq" "rq_path (http_request_of wi uuid cq) = path"
    using assms(1) by (simp_all add: http_request_of_def)
  ultimately show ?thesis
    using assms token_accepted by (simp add: harness_do_def serve_def Let_def require_bearer_token_def)
qed

lemma harness_do_open:
  assumes "wi_url wi (cq_path cq) = (path, q)" "wi_pick wi (cq_method cq) path = Some (rt, ps)" "\<not> rt_admin rt"
    and "dispatch sv (rt_endpoint rt) ps (http_request_of wi uuid cq) w = (r, w1)"
  shows "harness_do wi sv uuid cq w =
    (\<lparr>cs_status = rs_status r, cs_header = rs_header r, cs_body = json_of_payload (rs_body r)\<rparr>, w1)"
proof -
  have "rq_method (http_request_of wi uuid cq) = cq_method cq" "rq_path (http_request_of wi uuid cq) = path"
    using assms(1) by (simp_all add: http_request_of_def)
  then show ?thesis using assms by (simp add: harness_do_def serve_def Let_def)
qed

abbreviation reply_to :: "http_response \<Rightarrow> client_response" where
  "reply_to r \<equiv> \<lparr>cs_status = rs_status r, cs_header = rs_header r, cs_body = json_of_payload (rs_body r)\<rparr>"

definition put_request :: "string \<Rightarrow> json \<Rightarrow> (string \<times> string) list \<Rightarrow> client_request" where
  "put_request path body hs = (plain_request ''PUT'' path)\<lparr>cq_body := Some body, cq_headers := hs\<rparr>"

lemma harness_runs:
  assumes "wi_url wi path = (path, q)" "cfg_admin_api_token (sv_cfg sv) = admin_token"
  shows "wi_pick wi ''GET'' path = Some (route True ''GET'' p e, ps) \<Longrightarrow>
      dispatch sv e ps (http_request_of wi uuid (plain_request ''GET'' path)) w = (r, w1) \<Longrightarrow>
      harness_get wi sv uuid path w = (reply_to r, w1)"
    and "wi_pick wi ''PUT'' path = Some (route True ''PUT'' p e, ps) \<Longrightarrow> map_of hs ''Authorization'' = None \<Longrightarrow>
      dispatch sv e ps (http_request_of wi uuid (put_request path body hs)) w = (r, w1) \<Longrightarrow>
      harness_put wi sv uuid path body hs w = (reply_to r, w1)"
    and "wi_pick wi ''POST'' path = Some (route True ''POST'' p e, ps) \<Longrightarrow>
      dispatch sv e ps (http_request_of wi uuid ((plain_request ''POST'' path)\<lparr>cq_body := Some body\<rparr>)) w = (r, w1) \<Longrightarrow>
      harness_post wi sv uuid path body w = (reply_to r, w1)"
proof -
  note simps = plain_request_def put_request_def route_def assms
  show "harness_get wi sv uuid path w = (reply_to r, w1)"
    if "wi_pick wi ''GET'' path = Some (route True ''GET'' p e, ps)"
      "dispatch sv e ps (http_request_of wi uuid (plain_request ''GET'' path)) w = (r, w1)"
    unfolding harness_get_def
    by (rule harness_do_admin [where q = q and path = path and rt = "route True ''GET'' p e" and ps = ps])
      (use that in \<open>simp_all add: simps\<close>)
  show "harness_put wi sv uuid path body hs w = (reply_to r, w1)"
    if "wi_pick wi ''PUT'' path = Some (route True ''PUT'' p e, ps)" "map_of hs ''Authorization'' = None"
      "dispatch sv e ps (http_request_of wi uuid (put_request path body hs)) w = (r, w1)"
    unfolding harness_put_def
    by (rule harness_do_admin [where q = q and path = path and rt = "route True ''PUT'' p e" and ps = ps])
      (use that in \<open>simp_all add: simps\<close>)
  show "harness_post wi sv uuid path body w = (reply_to r, w1)"
    if "wi_pick wi ''POST'' path = Some (route True ''POST'' p e, ps)"
      "dispatch sv e ps (http_request_of wi uuid ((plain_request ''POST'' path)\<lparr>cq_body := Some body\<rparr>)) w = (r, w1)"
    unfolding harness_post_def
    by (rule harness_do_admin [where q = q and path = path and rt = "route True ''POST'' p e" and ps = ps])
      (use that in \<open>simp_all add: simps\<close>)
qed

section \<open>Read, edit, save\<close>

definition content_url :: "string \<Rightarrow> string" where
  "content_url cid = ''/api/v1/contents/'' @ cid"

definition request_fields :: "update_content_request \<Rightarrow> version_fields" where
  "request_fields rq = seo_fields (ur_seo rq) (ur_title rq) (ur_body rq)"

text \<open>The request behind a PUT of \<open>rq\<close> with the tag of version \<open>v\<close>.\<close>

definition edit_request :: "wire \<Rightarrow> string \<Rightarrow> string \<Rightarrow> int64 \<Rightarrow> update_content_request \<Rightarrow> http_request" where
  "edit_request wi uuid cid v rq = http_request_of wi uuid
     (put_request (content_url cid) (update_body rq) [(''If-Match'', format_etag v)])"

lemma edit_request_valid:
  assumes "valid_fields (request_fields rq)" "normalize_fields (request_fields rq) = Inr f" "in_int64 v" "1 \<le> v"
  shows "valid_edit sv v (edit_request wi uuid cid v rq)"
    and "ui_fields (edit_of sv cid v (edit_request wi uuid cid v rq)) = request_fields rq"
    and "ui_id (edit_of sv cid v (edit_request wi uuid cid v rq)) = cid"
    and "ui_expected_version (edit_of sv cid v (edit_request wi uuid cid v rq)) = v"
proof -
  have "update_decoder (update_body rq) zero_update = (rq, None)"
    using assms(1) by (intro update_decoder_body)
      (simp_all add: valid_fields_def valid_seo_def request_fields_def seo_fields_def)
  then have dec: "decode_json sv update_decoder zero_update (edit_request wi uuid cid v rq) = Inr rq"
    by (simp add: decode_json_def edit_request_def http_request_of_def put_request_def)
  have "rq_header (edit_request wi uuid cid v rq) ''If-Match'' = format_etag v"
    by (simp add: edit_request_def http_request_of_def client_headers_def put_request_def)
  then have "parse_if_match (rq_header (edit_request wi uuid cid v rq) ''If-Match'') = Inr (v, False)"
    using assms(3,4) by (simp add: parse_if_match_format)
  with assms(2) dec show "valid_edit sv v (edit_request wi uuid cid v rq)"
    by (auto simp: valid_edit_def request_fields_def)
  show "ui_fields (edit_of sv cid v (edit_request wi uuid cid v rq)) = request_fields rq"
    "ui_id (edit_of sv cid v (edit_request wi uuid cid v rq)) = cid"
    "ui_expected_version (edit_of sv cid v (edit_request wi uuid cid v rq)) = v"
    by (simp_all add: edit_of_def dec request_fields_def)
qed

text \<open>What such an edit adds to the document.\<close>

definition saved :: "db \<Rightarrow> content_row \<Rightarrow> version_fields \<Rightarrow> docs" where
  "saved d c f = put_doc (c_id c)
     ((doc_of d c)\<lparr>doc_history := map v_fields (history d (c_id c)) @ [f]\<rparr>) (docs_of d)"

lemma edit_spec:
  assumes "db_ok d" "find_content d cid = Some c" "normalize_fields (ui_fields i) = Inr f"
    and "ui_id i = cid" "ui_expected_version i = c_current_version c"
  shows "snd (spec_update i (docs_of d)) = saved d c f"
proof -
  have "docs_by_id (docs_of d) cid = Some (doc_of d c)" "doc_history (doc_of d c) = map v_fields (history d cid)"
    using assms(2) find_content_id [OF assms(2)] by (simp_all add: docs_of_def doc_of_def)
  then show ?thesis
    using assms history_length [OF assms(1,2)] find_content_id [OF assms(2)]
    by (simp add: spec_update_def saved_def)
qed

lemma content_picks:
  assumes "chi pick" "cid \<noteq> []" "CHR ''/'' \<notin> set cid"
  shows "pick ''GET'' (content_url cid) = Some (route True ''GET'' content_path EGetContent, [(''id'', cid)])"
    and "pick ''PUT'' (content_url cid) = Some (route True ''PUT'' content_path EUpdateContent, [(''id'', cid)])"
  using chi.pick_content [OF assms(1) _ assms(2)] path_content [OF assms(3)] by (simp_all add: content_url_def)

lemma put_call:
  assumes "chi (wi_pick wi)" "cfg_admin_api_token (sv_cfg sv) = admin_token"
    and "wi_url wi (content_url cid) = (content_url cid, q)" "cid \<noteq> []" "CHR ''/'' \<notin> set cid"
    and "handle_update_content sv cid (edit_request wi uuid cid v rq) w = (r, w1)"
  shows "harness_put wi sv uuid (content_url cid) (update_body rq) [(''If-Match'', format_etag v)] w = (reply_to r, w1)"
  by (rule harness_runs(2) [OF assms(3,2) content_picks(2) [OF assms(1,4,5)]])
    (simp_all add: url_param_def assms(6) [unfolded edit_request_def])





definition test_wire :: wire where
  "test_wire = \<lparr>wi_pick = first_route, wi_miss = no_route, wi_scan = Malformed, wi_url = (\<lambda>u. (u, \<lambda>k. []))\<rparr>"

definition test_server :: server where
  "test_server = \<lparr>sv_cfg = default_config ''/tmp/test.db'', sv_json_text = (\<lambda>e. ''bad value''), sv_render_ok = (\<lambda>p. True)\<rparr>"

lemma test_wire_sel [simp]:
  "wi_pick test_wire = first_route" "wi_url test_wire u = (u, \<lambda>k. [])"
  "cfg_admin_api_token (sv_cfg test_server) = admin_token"
  by (simp_all add: test_wire_def test_server_def default_config_def)

lemma ready_edited: "n < 1000 \<Longrightarrow> ready n (world_of edited_db t)"
  using reachable_db_ok [OF reachable_edited] by (simp add: ready_def edited_db_eq doc1_def max_rowid_def)


section \<open>Create\<close>

lemma slug_facts:
  assumes "validate_slug slug = None"
  shows "slug \<noteq> []" "trim_space slug = slug" "CHR ''/'' \<notin> set slug" "valid_utf8 slug"
proof -
  have s: "slug \<noteq> []" "slug_scan True slug" using assms by (simp_all add: validate_slug_None)
  then have ch: "\<And>c. c \<in> set slug \<Longrightarrow> slug_char c \<or> c = hyphen" using slug_scan_chars by blast
  have vis: "ascii_visible c \<and> c \<noteq> CHR ''/''" if "c \<in> set slug" for c
    using ch [OF that] by (auto simp: slug_char_def hyphen_def ascii_visible_def between_def byte_of_def)
  show "slug \<noteq> []" by fact
  show "trim_space slug = slug" using s(1) vis by (intro trim_space_visible) simp
  show "CHR ''/'' \<notin> set slug" using vis by blast
  show "valid_utf8 slug" using vis by (intro valid_ascii) (force simp: ascii_visible_def between_def)
qed

lemma valid_utf8_Cons: "byte_of c < 0x80 \<Longrightarrow> valid_utf8 (c # s) \<longleftrightarrow> valid_utf8 s"
  by (simp add: valid_utf8_def rune_width_ascii)

text \<open>The body that \<open>CreateContent\<close> sends.\<close>

definition first_request :: "string \<Rightarrow> string \<Rightarrow> create_content_request" where
  "first_request slug title = \<lparr>cr_slug = slug, cr_title = title, cr_body = ''body of '' @ title, cr_seo = zero_seo\<rparr>"

definition first_fields :: "string \<Rightarrow> version_fields" where
  "first_fields title = seo_fields zero_seo title (''body of '' @ title)"

lemma first_fields_utf8: "valid_utf8 title \<Longrightarrow> valid_fields (first_fields title)"
proof -
  assume title: "valid_utf8 title"
  then have "valid_utf8 (''body of '' @ title)" by (simp add: valid_utf8_Cons byte_of_def)
  with title show ?thesis
    by (simp add: valid_fields_def first_fields_def seo_fields_def zero_seo_def valid_utf8_def)
qed

lemma first_fields_facts:
  assumes "valid_utf8 title" "trim_space title = title"
  shows "valid_fields (first_fields title)" "trim_fields (first_fields title) = first_fields title"
    "valid_utf8 slug \<Longrightarrow> create_decoder (create_body (first_request slug title)) zero_create = (first_request slug title, None)"
proof -
  have body: "valid_utf8 (''body of '' @ title)" using assms(1) by (simp add: valid_utf8_Cons byte_of_def)
  have [simp]: "valid_utf8 []" "trim_space [] = []" by (simp add: valid_utf8_def, rule trim_space_visible, simp)
  show "valid_fields (first_fields title)"
    using assms body by (simp add: valid_fields_def first_fields_def seo_fields_def zero_seo_def)
  show "trim_fields (first_fields title) = first_fields title"
    using assms by (simp add: trim_fields_def first_fields_def seo_fields_def zero_seo_def)
  have "valid_seo zero_seo" by (simp add: valid_seo_def zero_seo_def)
  then show "valid_utf8 slug \<Longrightarrow> create_decoder (create_body (first_request slug title)) zero_create = (first_request slug title, None)"
    using assms(1) body by (simp add: create_decoder_body first_request_def)
qed

text \<open>A create of good values, when nothing fails: it goes through unless the identifier or the slug is taken.\<close>

lemma create_spec:
  assumes rdy: "ready (Suc n) w" and run: "service_create cid i w = (r, w1)"
    and slug: "validate_slug (trim_space (ci_slug i)) = None" and norm: "normalize_fields (ci_fields i) = Inr f"
  shows "ready n w1"
    and "r = Inl x \<Longrightarrow> x = ErrSlugTaken"
    and "trim_space (ci_slug i) \<in> c_slug ` set (contents (tables w)) \<Longrightarrow> r = Inl ErrSlugTaken"
    and "cid \<notin> c_id ` set (contents (tables w)) \<Longrightarrow> trim_space (ci_slug i) \<notin> c_slug ` set (contents (tables w)) \<Longrightarrow>
      \<exists>created. r = Inr created"
proof -
  let ?e = "case r of Inl x \<Rightarrow> Some x | Inr y \<Rightarrow> None" and ?d = "docs_of (tables w)"
  have out: "run_op (CreateOp cid i) w = (?e, w1)"
    using run by (cases r) (simp_all add: outcome_def)
  note sim = sim_create [OF rdy out]
  show "ready n w1" using sim by simp
  have spec: "?e = (if docs_by_id ?d cid \<noteq> None \<or> docs_by_slug ?d (trim_space (ci_slug i)) \<noteq> None
      then Some ErrSlugTaken else None)"
    using sim slug norm by (auto simp: spec_create_def Let_def split: if_splits)
  show "r = Inl x \<Longrightarrow> x = ErrSlugTaken" using spec by (simp split: if_splits)
  show "trim_space (ci_slug i) \<in> c_slug ` set (contents (tables w)) \<Longrightarrow> r = Inl ErrSlugTaken"
    using spec taken_docs by (cases r) auto
  show "cid \<notin> c_id ` set (contents (tables w)) \<Longrightarrow> trim_space (ci_slug i) \<notin> c_slug ` set (contents (tables w)) \<Longrightarrow>
      \<exists>created. r = Inr created"
    using spec taken_docs by (cases r) auto
qed

text \<open>The create handler on such a request, when nothing fails.\<close>

lemma create_runs:
  assumes rdy: "ready (Suc n) w" and dec: "decode_json sv create_decoder zero_create req = Inr rq"
    and slug: "validate_slug (trim_space (cr_slug rq)) = None"
    and norm: "normalize_fields (seo_fields (cr_seo rq) (cr_title rq) (cr_body rq)) = Inr f"
    and run: "handle_create_content sv req w = (r, w1)"
  shows "ready n w1"
    and "rq_uuid req \<notin> c_id ` set (contents (tables w)) \<Longrightarrow>
      trim_space (cr_slug rq) \<notin> c_slug ` set (contents (tables w)) \<Longrightarrow>
      \<exists>now. find_content (tables w1) (rq_uuid req) = Some (new_content (rq_uuid req) (trim_space (cr_slug rq)) now) \<and>
        r = write_json (set_header ''Location'' (content_url (rq_uuid req)) (set_etag 1 [])) 201
          (ContentBody (to_content_dto
            \<lparr>cv_content = new_content (rq_uuid req) (trim_space (cr_slug rq)) now,
             cv_version = new_version (version_seq (tables w) + 1) (rq_uuid req) 1 f (actor_from req) now\<rparr> None))"
    and "trim_space (cr_slug rq) \<in> c_slug ` set (contents (tables w)) \<Longrightarrow>
      r = write_error [] 409 code_slug_conflict ''That slug is already in use.'' []"
proof -
  let ?i = "create_input_of rq (actor_from req)" and ?slug = "trim_space (cr_slug rq)" and ?cid = "rq_uuid req"
  obtain r1 wa where sc: "service_create ?cid ?i w = (r1, wa)" by fastforce
  have i: "ci_slug ?i = cr_slug rq" "ci_fields ?i = seo_fields (cr_seo rq) (cr_title rq) (cr_body rq)"
    "ci_actor ?i = actor_from req" by (simp_all add: create_input_of_def)
  note spec = create_spec [OF rdy sc, unfolded i, OF slug norm]
  have h: "check (service_create ?cid ?i) (write_domain_error [])
     (\<lambda>created. respond (write_json
          (set_header ''Location'' (''/api/v1/contents/'' @ c_id (cv_content created))
            (set_etag (c_current_version (cv_content created)) []))
          201 (ContentBody (to_content_dto created None)))) w = (r, w1)"
    using run dec by (simp add: handle_create_content_def check_input_def create_input_of_def)
  have conflict: "r = write_error [] 409 code_slug_conflict ''That slug is already in use.'' [] \<and> w1 = wa"
    if "r1 = Inl ErrSlugTaken"
    using h sc that by (simp add: check_def write_domain_error_def respond_def)
  have created: "w1 = wa \<and> r = write_json (set_header ''Location'' (content_url (c_id (cv_content created)))
      (set_etag (c_current_version (cv_content created)) [])) 201 (ContentBody (to_content_dto created None))"
    if "r1 = Inr created" for created
    using h sc that by (simp add: check_def respond_def content_url_def)
  show rdy1: "ready n w1" using spec(1,2) conflict created by (cases r1) auto
  show "?slug \<in> c_slug ` set (contents (tables w)) \<Longrightarrow>
      r = write_error [] 409 code_slug_conflict ''That slug is already in use.'' []"
    using spec(3) conflict by blast
  show "\<exists>now. find_content (tables w1) ?cid = Some (new_content ?cid ?slug now) \<and>
      r = write_json (set_header ''Location'' (content_url ?cid) (set_etag 1 [])) 201
          (ContentBody (to_content_dto \<lparr>cv_content = new_content ?cid ?slug now,
             cv_version = new_version (version_seq (tables w) + 1) ?cid 1 f (actor_from req) now\<rparr> None))"
    if free: "?cid \<notin> c_id ` set (contents (tables w))" "?slug \<notin> c_slug ` set (contents (tables w))"
  proof -
    from spec(4) [OF free] obtain x where x: "r1 = Inr x" by blast
    from service_create_effect [OF sc [unfolded x]] obtain w0 now where
      w0: "tables w0 = tables w" and cc: "create_content ?cid ?slug f (actor_from req) now w0 = (Inr x, wa)"
      using norm by (auto simp: i)
    note eff = create_content_effect [OF cc, unfolded w0]
    have "find_content (tables w1) ?cid = Some (new_content ?cid ?slug now)"
      using eff created [OF x] rdy1 by (auto simp: db_ok_find_content ready_def)
    then show ?thesis using eff created [OF x] by auto
  qed
qed

definition public_page :: "string \<Rightarrow> string" where
  "public_page slug = ''/public/v1/contents/'' @ slug"

text \<open>A look at the public endpoint, without the token.\<close>

lemma public_call_runs:
  assumes slug: "slug \<noteq> []" "CHR ''/'' \<notin> set slug"
    and wire: "chi (wi_pick wi)" "wi_url wi (public_page slug) = (public_page slug, q)"
    and run: "\<And>req. rq_header req ''If-None-Match'' = [] \<Longrightarrow> handle_public_get slug req w = (r, w)"
  shows "public_status_call wi sv uuid slug w = (rs_status r, w)"
proof -
  let ?cq = "(plain_request ''GET'' (public_page slug))\<lparr>cq_no_auth := True\<rparr>"
  have path: "path_segments (public_page slug) = [''public'', ''v1'', ''contents'', slug]"
    using path_public [OF slug(2)] by (simp add: public_page_def)
  have "rq_header (http_request_of wi uuid ?cq) ''If-None-Match'' = []"
    by (simp add: http_request_of_def client_headers_def plain_request_def)
  note h = run [OF this]
  have "harness_do wi sv uuid ?cq w = (reply_to r, w)"
    by (rule harness_do_open [where rt = "route False ''GET'' (public_path @ [Param ''slug'']) EPublicGet"
          and ps = "[(''slug'', slug)]" and path = "public_page slug" and q = q])
      (use h in \<open>simp_all add: plain_request_def wire(2) chi.pick_public [OF wire(1) path slug(1)] route_def
        url_param_def\<close>)
  then show ?thesis by (simp add: public_status_call_def public_page_def)
qed

lemma unpublished_404:
  assumes ok: "db_ok (tables w)" "faults w = []"
    and c: "find_content (tables w) cid = Some c" "c_published_version_id c = None" "c_slug c = slug"
    and "slug \<noteq> []" "CHR ''/'' \<notin> set slug"
    and "chi (wi_pick wi)" "wi_url wi (public_page slug) = (public_page slug, q)"
  shows "public_status_call wi sv uuid slug w = (404, w)"
proof -
  have "service_get_public_by_slug slug w = (Inl ErrNotFound, w)"
    using get_public_nofault [of w slug] ok public_after_pointer [OF ok(1) c(1)] c(2,3)
    by (simp add: service_get_public_by_slug_def)
  then have "handle_public_get slug req w = (write_error [] 404 code_not_found ''Not found.'' [], w)" for req
    by (simp add: handle_public_get_def check_def write_public_error_def respond_def)
  from public_call_runs [OF assms(6-9) this] show ?thesis by (simp add: write_error_def write_json_def)
qed

lemma public_draft_404:
  assumes "ready n w" "find_content (tables w) cid = Some (new_content cid slug now)" "slug \<noteq> []" "CHR ''/'' \<notin> set slug"
    and "chi (wi_pick wi)" "wi_url wi (public_page slug) = (public_page slug, q)"
  shows "public_status_call wi sv uuid slug w = (404, w)"
  using unpublished_404 [OF _ _ assms(2) _ _ assms(3-6)] assms(1) by (simp add: ready_def)

definition contents_url :: string where
  "contents_url = ''/api/v1/contents''"

lemma create_call_runs:
  assumes "chi (wi_pick wi)" "cfg_admin_api_token (sv_cfg sv) = admin_token"
    and "wi_url wi contents_url = (contents_url, q)"
    and "handle_create_content sv (http_request_of wi uuid
        ((plain_request ''POST'' contents_url)\<lparr>cq_body := Some (create_body (first_request slug title))\<rparr>)) w = (r, w1)"
  shows "create_content_call wi sv uuid slug title w =
    (if rs_status r = 201 then response_json content_reply_decoder zero_content (reply_to r) else None, w1)"
proof -
  have "harness_post wi sv uuid contents_url (create_body (first_request slug title)) w = (reply_to r, w1)"
    using assms(4) by (intro harness_runs(3) [OF assms(3,2) chi.pick_create [OF assms(1), folded contents_url_def]]) simp
  then show ?thesis by (simp add: create_content_call_def contents_url_def first_request_def)
qed

text \<open>The answer to a create, as a client reads it.\<close>

lemma new_reply:
  fixes now n a
  assumes title: "valid_utf8 title" "trim_space title = title" and ids: "valid_utf8 slug" "valid_utf8 uuid"
  defines "dto \<equiv> to_content_dto \<lparr>cv_content = new_content uuid slug now,
      cv_version = new_version n uuid 1 (first_fields title) a now\<rparr> None"
  shows "content_reply_decoder (json_of_content dto) zero_content = (reply_of dto (first_fields title), None)"
    and "ct_id (reply_of dto (first_fields title)) = uuid" "ct_slug (reply_of dto (first_fields title)) = slug"
    "ct_version (reply_of dto (first_fields title)) = 1" "ct_status (reply_of dto (first_fields title)) = ''draft''"
    "ct_published_at (reply_of dto (first_fields title)) = None"
    "ct_published_version (reply_of dto (first_fields title)) = None"
    "dr_title (ct_draft (reply_of dto (first_fields title))) = title"
    "dr_body (ct_draft (reply_of dto (first_fields title))) = ''body of '' @ title"
proof -
  show "content_reply_decoder (json_of_content dto) zero_content = (reply_of dto (first_fields title), None)"
    using first_fields_facts(1) [OF title] ids
    by (subst content_reply_json [OF dto_def [THEN meta_eq_to_obj_eq]])
      (simp_all add: dto_def to_content_dto_def Let_def format_millis_ptr_def in_int64_def new_version_def)
qed (simp_all add: reply_of_def dto_def to_content_dto_def Let_def content_status_def format_millis_ptr_def
    first_fields_def seo_fields_def)

text \<open>
  C18. What the client creates it gets, and as a draft: the create of a valid slug that is free, sent
  over the router and read back from JSON, reports the id, the slug, version 1, the status
  \<open>draft\<close> without a publication, and the title and body that were sent; the public API does not show
  the document, and creating the slug a second time is refused.
\<close>

theorem client_creates:
  assumes "chi (wi_pick wi)" "cfg_admin_api_token (sv_cfg sv) = admin_token"
    and urls: "wi_url wi contents_url = (contents_url, q)" "wi_url wi (public_page slug) = (public_page slug, q)"
    and rdy: "ready 2 w"
    and slug: "validate_slug slug = None" "slug \<notin> c_slug ` set (contents (tables w))"
    and title: "valid_utf8 title" "trim_space title = title" "normalize_fields (first_fields title) = Inr f"
    and id: "uuid \<notin> c_id ` set (contents (tables w))" "valid_utf8 uuid"
    and run: "create_content_call wi sv uuid slug title w = (res, w1)"
  shows "\<exists>reply. res = Some reply \<and> ct_id reply = uuid \<and> ct_slug reply = slug \<and> ct_version reply = 1 \<and>
      ct_status reply = ''draft'' \<and> ct_published_at reply = None \<and> ct_published_version reply = None \<and>
      dr_title (ct_draft reply) = title \<and> dr_body (ct_draft reply) = ''body of '' @ title \<and>
    fst (public_status_call wi sv uuid' slug w1) = 404 \<and>
    fst (create_content_call wi sv uuid' slug title w1) = None"
proof -
  let ?cq = "(plain_request ''POST'' contents_url)\<lparr>cq_body := Some (create_body (first_request slug title))\<rparr>"
  have f: "f = first_fields title"
    using title first_fields_facts(2) [OF title(1,2)] by (simp add: normalize_fields_Inr)
  note sf = slug_facts [OF slug(1)]
  have dec: "decode_json sv create_decoder zero_create (http_request_of wi u ?cq) = Inr (first_request slug title)" for u
    using first_fields_facts(3) [OF title(1,2) sf(4)] by (simp add: decode_json_def http_request_of_def)
  have rq: "trim_space (cr_slug (first_request slug title)) = slug"
      "seo_fields (cr_seo (first_request slug title)) (cr_title (first_request slug title)) (cr_body (first_request slug title)) =
        first_fields title"
    using sf(2) by (simp_all add: first_request_def first_fields_def)
  note runs = create_runs [OF _ dec, unfolded rq, OF _ slug(1) title(3)]
  obtain r wr where r: "handle_create_content sv (http_request_of wi uuid ?cq) w = (r, wr)" by fastforce
  have w: "ready (Suc 1) w" using rdy by (simp add: numeral_2_eq_2)
  have uuid: "rq_uuid (http_request_of wi u ?cq) = u" for u by (simp add: http_request_of_def)
  from runs(2) [OF w r] slug(2) id(1) obtain now dto where
    c: "find_content (tables wr) uuid = Some (new_content uuid slug now)" and
    dto: "dto = to_content_dto \<lparr>cv_content = new_content uuid slug now,
       cv_version = new_version (version_seq (tables w) + 1) uuid 1 f (actor_from (http_request_of wi uuid ?cq)) now\<rparr> None" and
    r201: "rs_status r = 201" "rs_body r = ContentBody dto"
    by (auto simp: uuid write_json_def)
  have wr: "ready 1 wr" using runs(1) [OF w r] .
  have res: "res = response_json content_reply_decoder zero_content (reply_to r)" "w1 = wr"
    using run create_call_runs [OF assms(1,2) urls(1) r] r201 by simp_all
  note reply = new_reply [OF title(1,2) sf(4) id(2), where now = now and n = "version_seq (tables w) + 1"
      and a = "actor_from (http_request_of wi uuid ?cq)", folded f, folded dto]
  have "res = Some (reply_of dto f)" using res(1) r201(2) reply(1) by (simp add: response_json_def f)
  moreover have "public_status_call wi sv uuid' slug wr = (404, wr)"
    by (rule public_draft_404 [OF wr c sf(1,3) assms(1) urls(2)])
  moreover have "fst (create_content_call wi sv uuid' slug title wr) = None"
  proof -
    obtain r2 w2 where r2: "handle_create_content sv (http_request_of wi uuid' ?cq) wr = (r2, w2)" by fastforce
    have "slug \<in> c_slug ` set (contents (tables wr))" using find_content_in [OF c] by force
    with runs(3) [of 0, OF _ r2] wr have "rs_status r2 = 409" by (simp add: write_error_def write_json_def)
    then show ?thesis by (simp add: create_call_runs [OF assms(1,2) urls(1) r2])
  qed
  ultimately show ?thesis using res(2) reply(2-9) by simp
qed

theorem client_creates_witness:
  "\<exists>reply. fst (create_content_call test_wire test_server ''u1'' ''news'' ''News'' (world_of edited_db 0)) = Some reply \<and>
     ct_slug reply = ''news'' \<and> ct_status reply = ''draft''"
proof -
  let ?w = "world_of edited_db 0"
  obtain res w1 where run: "create_content_call test_wire test_server ''u1'' ''news'' ''News'' ?w = (res, w1)" by fastforce
  have "validate_slug ''news'' = None" "trim_space ''News'' = ''News''"
    "normalize_fields (first_fields ''News'') = Inr (first_fields ''News'')" by code_simp+
  moreover have "chi (wi_pick test_wire)" by (simp add: first.chi_axioms)
  moreover have "''news'' \<notin> c_slug ` set (contents (tables ?w))" "''u1'' \<notin> c_id ` set (contents (tables ?w))"
    by (simp_all add: edited_db_eq doc1_def)
  moreover have "valid_utf8 ''News''" "valid_utf8 ''u1''" by (simp_all add: valid_ascii byte_of_def)
  ultimately show ?thesis
    using client_creates [OF _ _ _ _ _ _ _ _ _ _ _ _ run, of "\<lambda>k. []" "first_fields ''News''" "''u2''"] ready_edited [of 2 0] run
    by auto
qed

section \<open>Editors at the same time\<close>

definition title_update :: "string \<Rightarrow> update_content_request" where
  "title_update title = \<lparr>ur_title = title, ur_body = ''body of '' @ title, ur_seo = zero_seo\<rparr>"

abbreviation title_request :: "wire \<Rightarrow> string \<Rightarrow> string \<Rightarrow> int64 \<Rightarrow> string \<Rightarrow> http_request" where
  "title_request wi uuid cid v title \<equiv> edit_request wi uuid cid v (title_update title)"

definition valid_title :: "string \<Rightarrow> bool" where
  "valid_title title \<longleftrightarrow> valid_utf8 title \<and> (\<exists>f. normalize_fields (first_fields title) = Inr f)"

lemma title_fields: "request_fields (title_update title) = first_fields title"
  by (simp add: request_fields_def title_update_def first_fields_def)

lemma concurrent_calls:
  assumes "chi (wi_pick wi)" "cfg_admin_api_token (sv_cfg sv) = admin_token"
    and url: "wi_url wi (content_url cid) = (content_url cid, q)" "cid \<noteq> []" "CHR ''/'' \<notin> set cid"
  shows "concurrently order (\<lambda>i. update_content_call wi sv (uuid i) cid v (title i)) w = (rs, w') \<Longrightarrow>
    \<exists>hs. trace (handle_update_content sv cid) (map (\<lambda>i. title_request wi (uuid i) cid v (title i)) order) w = (hs, w') \<and>
      map rs_status hs = map cs_status rs"
proof (induction order arbitrary: w rs)
  case (Cons i order)
  obtain h w1 where h: "handle_update_content sv cid (title_request wi (uuid i) cid v (title i)) w = (h, w1)"
    by fastforce
  have "harness_etag v = format_etag v" by (simp add: harness_etag_def format_etag_def)
  with put_call [OF assms h] have call: "update_content_call wi sv (uuid i) cid v (title i) w = (reply_to h, w1)"
    by (simp add: update_content_call_def content_url_def title_update_def)
  obtain rs1 where rs: "concurrently order (\<lambda>i. update_content_call wi sv (uuid i) cid v (title i)) w1 = (rs1, w')"
    "rs = reply_to h # rs1"
    using Cons.prems call by (auto split: prod.splits)
  from Cons.IH [OF rs(1)] h rs(2) show ?case by auto
qed simp

text \<open>
  C6. Editors at the same time: of \<open>n\<close> clients that read the same version and save at the same moment,
  in whatever order their calls take effect, exactly one gets a 200 and the others a 412, and the
  document has one version more, the one of the client that came first.
\<close>

theorem one_of_many_editors:
  assumes "chi (wi_pick wi)" "cfg_admin_api_token (sv_cfg sv) = admin_token"
    and url: "wi_url wi (content_url cid) = (content_url cid, q)" "cid \<noteq> []" "CHR ''/'' \<notin> set cid"
    and rdy: "ready n w" and c: "find_content (tables w) cid = Some c"
    and order: "mset order = mset [0..<n]" "0 < n"
    and titles: "\<forall>i < n. valid_title (title i)"
    and run: "concurrently order
      (\<lambda>i. update_content_call wi sv (uuid i) cid (c_current_version c) (title i)) w = (rs, w')"
  shows "length (filter (\<lambda>r. cs_status r = 200) rs) = 1 \<and>
    length (filter (\<lambda>r. cs_status r = 412) rs) = n - 1 \<and>
    docs_of (tables w') = saved (tables w) c (trim_fields (first_fields (title (hd order))))"
proof -
  let ?v = "c_current_version c" and ?d = "tables w"
  let ?req = "\<lambda>i. title_request wi (uuid i) cid ?v (title i)"
  have len: "length order = n" using order(1) by (metis mset_eq_length length_upt minus_nat.diff_0)
  with order(2) obtain i js where i: "order = i # js" by (cases order) auto
  have "set order = {0..<n}" using order(1) by (metis mset_eq_setD atLeastLessThan_upt)
  then have ok_titles: "\<forall>j \<in> set order. valid_title (title j)" using titles by simp
  have ok: "db_ok ?d" using rdy by (simp add: ready_def)
  note v = current_positive [OF ok c]
  have fields: "valid_fields (first_fields t)" if "valid_title t" for t
    using that first_fields_utf8 by (simp add: valid_title_def)
  have one: "valid_edit sv ?v (?req j)" if j: "valid_title (title j)" for j
  proof -
    obtain f where "normalize_fields (first_fields (title j)) = Inr f"
      using j by (auto simp: valid_title_def)
    from edit_request_valid(1) [of "title_update (title j)", unfolded title_fields, OF fields [OF j] this] v
    show ?thesis by simp
  qed
  then have valid: "\<forall>q \<in> set (?req i # map ?req js). valid_edit sv ?v q"
    using ok_titles i by auto
  obtain hs where hs: "trace (handle_update_content sv cid) (?req i # map ?req js) w = (hs, w')"
      "map rs_status hs = map cs_status rs"
    using concurrent_calls [OF assms(1,2) url run] i by auto
  have rdy': "ready (length (?req i # map ?req js)) w" using rdy len i by simp
  note first = first_edit_wins [OF rdy' url(2) c valid hs(1)]
  then have st: "map cs_status rs = 200 # replicate (n - 1) 412" using hs(2) len i by auto
  have count: "length (filter (\<lambda>r. cs_status r = k) rs) = length (filter (\<lambda>s. s = k) (map cs_status rs))" for k
    by (simp add: filter_map comp_def)
  obtain f where f: "valid_title (title i)" "normalize_fields (first_fields (title i)) = Inr f"
    using ok_titles i by (auto simp: valid_title_def)
  note e = edit_request_valid [of "title_update (title i)", unfolded title_fields, OF fields [OF f(1)] f(2)]
  have "docs_of (tables w') = saved ?d c f"
    using first edit_spec [OF ok c, of "edit_of sv cid ?v (?req i)" f] e(2-4) v f(2) by simp
  with st i f(2) show ?thesis by (simp only: count) (simp add: normalize_fields_Inr)
qed

theorem one_of_many_editors_witness:
  "length (filter (\<lambda>r. cs_status r = 200) (fst (concurrently [1, 2, 0]
     (\<lambda>i. update_content_call test_wire test_server ''u'' ''d1'' 2 ([''one'', ''two'', ''three''] ! i)) (world_of edited_db 0)))) = 1"
proof -
  let ?w = "world_of edited_db 0" and ?title = "\<lambda>i. [''one'', ''two'', ''three''] ! i"
  obtain rs w' where run: "concurrently [1, 2, 0]
      (\<lambda>i. update_content_call test_wire test_server ''u'' ''d1'' 2 (?title i)) ?w = (rs, w')" by fastforce
  have c: "find_content (tables ?w) ''d1'' = Some (doc1 2 (Some 1) (Some 3) 3)"
    by (simp add: find_content_def edited_db_eq doc1_def)
  have "valid_title t" if "t \<in> {''one'', ''two'', ''three''}" for t
  proof -
    have "valid_utf8 t" "normalize_fields (first_fields t) = Inr (first_fields t)"
      using that by (elim insertE emptyE; simp only:; code_simp)+
    then show ?thesis by (auto simp: valid_title_def)
  qed
  then have titles: "\<forall>i < 3. valid_title (?title i)" by (auto simp: less_Suc_eq numeral_3_eq_3 numeral_2_eq_2)
  have "mset [1, 2, 0] = mset [0..<3]" by (simp add: numeral_3_eq_3 numeral_2_eq_2)
  from one_of_many_editors [where wi = test_wire and sv = test_server and n = 3 and w = ?w and title = ?title
      and uuid = "\<lambda>i. ''u''" and q = "\<lambda>k. []", OF _ _ _ _ _ _ c this] first.chi_axioms ready_edited [of 3 0] titles run
  show ?thesis by (simp add: doc1_def)
qed

end
