(* ===== verification/Public_Laws.thy ===== *)
theory Public_Laws
  imports Http_Laws Reads
begin

text \<open>
  Properties of the public side: what readers and crawlers see and what they cannot tell apart,
  conditional requests, and pages of the list.
\<close>

section \<open>Reading one document\<close>

lemma public_get_run:
  assumes nf: "faults w = []" and ok: "db_ok (tables w)"
  shows "service_get_public_by_slug slug w = (Inl ErrNotFound, w) \<or>
    (\<exists>p. service_get_public_by_slug slug w = (Inr p, w))"
  using public_read_spec [OF nf ok, of slug] by (auto split: option.splits)

text \<open>
  C17. Readers see what the specification says: for every slug the public endpoint serves the fields
  of the version the document's specification has as live, and 404 where the specification has
  none; an unpublished document and an unknown slug get the very same answer, in JSON and in HTML.
\<close>

theorem public_shows_live_version:
  assumes "faults w = []" "db_ok (tables w)" "rq_header req ''If-None-Match'' = []"
  shows "case spec_public slug (docs_of (tables w)) of
      None \<Rightarrow> handle_public_get slug req w = (write_error [] 404 code_not_found ''Not found.'' [], w) \<and>
        handle_html_page sv slug req w =
          (\<lparr>rs_status = 404, rs_header = html_type [], rs_body = HtmlError ''404 - Not found''\<rparr>, w)
    | Some f \<Rightarrow> \<exists>dto. rs_status (fst (handle_public_get slug req w)) = 200 \<and>
        rs_body (fst (handle_public_get slug req w)) = PublicBody dto \<and> pd_slug dto = slug \<and>
        pd_title dto = f_title f \<and> pd_body dto = f_body f \<and> pd_seo dto = to_seo f"
proof -
  have nm: "\<not> if_none_match_matches (rq_header req ''If-None-Match'') tag" for tag
    using assms(3) by (simp add: if_none_match_matches_def)
  show ?thesis
  proof (cases "spec_public slug (docs_of (tables w))")
    case None
    with public_read_spec [OF assms(1,2), of slug] show ?thesis
      by (simp add: handle_public_get_def handle_html_page_def check_def write_public_error_def
          write_html_error_def respond_def)
  next
    case (Some f)
    with public_read_spec [OF assms(1,2), of slug] obtain p where
      "service_get_public_by_slug slug w = (Inr p, w)" "p_slug p = slug" "p_fields p = f"
      "p_title p = f_title f" "p_body p = f_body f" by auto
    with Some nm show ?thesis
      by (simp add: handle_public_get_def check_def serve_conditional_def respond_def write_json_def
          to_public_dto_def)
  qed
qed

definition get_hello :: "(string \<times> string) list \<Rightarrow> http_request" where
  "get_hello hs = request ''GET'' ''/public/v1/contents/hello'' hs no_body"

theorem public_shows_live_version_witness:
  "(\<exists>dto. rs_body (fst (handle_public_get ''hello'' (get_hello []) (world_of edited_db 0))) = PublicBody dto \<and>
      pd_title dto = ''one'') \<and>
   rs_status (fst (handle_html_page some_server ''hell'' (get_hello []) (world_of edited_db 0))) = 404"
proof -
  let ?w = "world_of edited_db 0"
  have pre: "faults ?w = []" "db_ok (tables ?w)" "rq_header (get_hello []) ''If-None-Match'' = []"
    using reachable_db_ok [OF reachable_edited] by (simp_all add: get_hello_def request_def)
  have "spec_public ''hello'' (docs_of (tables ?w)) = Some (draft ''one'')"
    "spec_public ''hell'' (docs_of (tables ?w)) = None"
    unfolding edited_db_eq by code_simp+
  with public_shows_live_version [OF pre, of "''hello''" some_server]
    public_shows_live_version [OF pre, of "''hell''" some_server]
  show ?thesis by (auto simp: draft_def)
qed

section \<open>Conditional requests\<close>

text \<open>
  C30. Conditional GET: a client that sends the tags it holds, strong or weak, in one list gets a 304
  exactly when the tag of the current representation is among them, and a 200 otherwise; either
  answer carries the current tag.
\<close>

theorem conditional_get:
  assumes "service_get_public_by_slug slug w = (Inr p, w1)"
    and "rq_header req ''If-None-Match'' = tag_list ts" "ts \<noteq> []"
  shows "rs_status (fst (handle_public_get slug req w)) = (if p_updated_at p \<in> snd ` set ts then 304 else 200) \<and>
    get_header ''ETag'' (rs_header (fst (handle_public_get slug req w))) = format_etag (p_updated_at p) \<and>
    (rs_body (fst (handle_public_get slug req w)) = NoContent \<longleftrightarrow> p_updated_at p \<in> snd ` set ts)"
proof -
  have tag: "content_etag ms = format_etag ms" for ms
    by (simp add: content_etag_def format_etag_def)
  have "if_none_match_matches (rq_header req ''If-None-Match'') (content_etag (p_updated_at p)) \<longleftrightarrow>
      p_updated_at p \<in> snd ` set ts"
    unfolding tag assms(2) by (rule if_none_match_tag_list [OF assms(3)])
  with assms(1) show ?thesis
    by (simp add: handle_public_get_def check_def serve_conditional_def respond_def not_modified_def
        write_json_def set_public_cache_headers_def set_cache_control_def get_set_header tag)
qed

theorem conditional_get_witness:
  "rs_status (fst (handle_public_get ''hello''
     (get_hello [(''If-None-Match'', tag_list [(False, 7), (True, 3)])]) (world_of edited_db 0))) = 304"
proof -
  let ?req = "get_hello [(''If-None-Match'', tag_list [(False, 7), (True, 3)])]"
  have "service_get_public_by_slug ''hello'' (world_of edited_db 0) =
      (Inr (public_of (doc1 2 (Some 1) (Some 3) 3) (versions1 ! 0)), world_of edited_db 0)"
    unfolding edited_db_eq by code_simp
  from conditional_get [OF this, of ?req "[(False, 7), (True, 3)]"] show ?thesis
    by (simp add: get_hello_def request_def public_of_def doc1_def)
qed

section \<open>Lists\<close>

lemma distinct_published_ids:
  assumes "db_ok d"
  shows "distinct (map (\<lambda>(c, v). c_id c) (published_join d))"
proof -
  have "map c_id (map fst (published_join d)) = map c_id (filter is_published (contents d))"
    by (simp add: map_fst_published_join [OF assms] published_contents_def)
  then have "distinct (map (\<lambda>x. c_id (fst x)) (published_join d))"
    using assms by (simp add: db_ok_def contents_ok_def distinct_map_filter comp_def)
  then show ?thesis by (simp add: case_prod_unfold)
qed

lemma mset_published_pairs: "mset (published_pairs d) = mset (published_join d)"
  by (simp add: published_pairs_def order_desc_def)

lemma published_pairs_sorted: "sorted (rev (map public_order (published_pairs d)))"
  by (simp add: published_pairs_def order_desc_def rev_map)

text \<open>
  C32. Pages of the public list: an accepted request gets the documents at positions \<open>offset\<close> to
  \<open>offset + limit\<close> of the published documents ordered by publication, newest first, at most 100 of
  them, and as the total the number of published documents; each document is there once.
\<close>

theorem public_list_page:
  assumes nf: "faults w = []" and ok: "db_ok (tables w)"
    and page: "parse_pagination req = Inr (limit, offset)" "rq_header req ''If-None-Match'' = []"
  shows "\<exists>items. rs_body (fst (handle_public_list req w)) = PublicList
      \<lparr>lr_items = items, lr_total = int (length (published_contents (tables w))), lr_limit = limit,
       lr_offset = offset\<rparr> \<and>
    items = map (\<lambda>(c, v). to_public_dto (public_of c v))
      (take (nat limit) (drop (nat offset) (published_pairs (tables w)))) \<and>
    length items \<le> 100 \<and> mset (map fst (published_pairs (tables w))) = mset (published_contents (tables w)) \<and>
    sorted (rev (map public_order (published_pairs (tables w))))"
proof -
  have b: "1 \<le> limit" "limit \<le> 100" "0 \<le> offset" using parse_pagination_bounds [OF page(1)] by auto
  have nm: "\<not> if_none_match_matches (rq_header req ''If-None-Match'') tag" for tag
    using page(2) by (simp add: if_none_match_matches_def)
  obtain latest where "latest_published_at w = (Inr latest, w)"
    using nf by (simp add: latest_published_at_def io_bind_def map_err_def io_catch_def sql_query_nofault
        io_return_def)
  then have "rs_body (fst (handle_public_list req w)) = PublicList
      \<lparr>lr_items = map to_public_dto (map (\<lambda>(c, v). public_of c v)
          (sql_limit limit (sql_offset offset (published_pairs (tables w))))),
       lr_total = int (length (published_join (tables w))), lr_limit = limit, lr_offset = offset\<rparr>"
    using service_list_public_nofault [OF nf, of limit offset] nm
    by (simp add: handle_public_list_def check_input_def page(1) check_def serve_conditional_def respond_def
        write_json_def)
  moreover have "length (published_join (tables w)) = length (published_contents (tables w))"
    by (simp add: map_fst_published_join [OF ok, symmetric])
  moreover have "mset (map fst (published_pairs (tables w))) = mset (published_contents (tables w))"
    by (simp add: mset_published_pairs map_fst_published_join [OF ok, symmetric])
  moreover have "nat limit \<le> 100" using b by simp
  ultimately show ?thesis
    using b published_pairs_sorted
    by (auto simp: sql_limit_def sql_offset_def comp_def case_prod_unfold)
qed

theorem public_list_page_witness:
  "\<exists>items. rs_body (fst (handle_public_list (get_hello []) (world_of edited_db 0))) = PublicList
      \<lparr>lr_items = items, lr_total = 1, lr_limit = 20, lr_offset = 0\<rparr> \<and> length items \<le> 100"
proof -
  let ?w = "world_of edited_db 0"
  have "parse_pagination (get_hello []) = Inr (20, 0)" by code_simp
  moreover have "rq_header (get_hello []) ''If-None-Match'' = []" by code_simp
  moreover have "db_ok (tables ?w)" using reachable_db_ok [OF reachable_edited] by simp
  moreover have "length (published_contents (tables ?w)) = 1" unfolding edited_db_eq by code_simp
  ultimately show ?thesis using public_list_page [of ?w "get_hello []" 20 0] by auto
qed

end
