(* ===== verification/Journey_Laws.thy ===== *)
theory Journey_Laws
  imports Response_Laws Public_Laws Schedule_Laws
begin

text \<open>
  Properties of a request, the worker and a reader together: what was scheduled over HTTP is what
  the public endpoint serves once a tick has run at its time.
\<close>

lemma history_content:
  assumes "db_ok d" "v \<in> set (history d cid)"
  shows "\<exists>c. find_content d cid = Some c"
  using history_unknown [OF assms(1), of cid] assms(2) find_content_None [of d cid]
  by (cases "find_content d cid") auto

section \<open>From a published pointer to the public answer\<close>

lemma pointer_is_served:
  assumes nf: "faults w = []" and ok: "db_ok (tables w)" and c: "find_content (tables w) cid = Some c"
    and ptr: "c_published_version_id c = Some (v_id v)" "v \<in> set (versions (tables w))"
    and req: "rq_header req ''If-None-Match'' = []"
  shows "handle_public_get (c_slug c) req w =
    (write_json (set_public_cache_headers (c_updated_at c) []) 200
       (PublicBody (to_public_dto (public_of c v))), w)"
proof -
  have "find_version (tables w) (v_id v) = Some v" using ok ptr(2) by (simp add: db_ok_find_version)
  then have "service_get_public_by_slug (c_slug c) w = (Inr (public_of c v), w)"
    using get_public_nofault [OF ok nf, of "c_slug c"] public_after_pointer [OF ok c] ptr(1)
    by (simp add: service_get_public_by_slug_def)
  with req show ?thesis
    by (simp add: handle_public_get_def check_def serve_conditional_def respond_def
        if_none_match_matches_def public_of_def)
qed

text \<open>
  C12. A scheduled version goes public: after a schedule request was answered 201, however many
  requests and workers have run in between, when the schedule is still due at the next undisturbed
  tick that has room for it, then after this tick the public endpoint serves, under the slug of the
  document and to everyone without a cached copy, title and body of the version the request named.
\<close>

theorem schedule_goes_public:
  fixes wk
  assumes "reachable ident s" "tables w = sys_db s"
    and asked: "handle_create_schedule sv cid req w = (r, w1)" "rs_status r = 201"
    and between: "(sys_step ident)\<^sup>*\<^sup>* (s\<lparr>sys_db := tables w1\<rparr>) u" "tables wt = sys_db u"
    and due: "find_schedule (sys_db u) (rq_uuid req) = Some x" "schedule_due now x"
    and pl: "planner_ok pl" and nf: "faults wt = []" and still: "clock_later wt = []"
    and now: "now = to_millis (clock_now wt)"
    and batch: "int (length (filter (schedule_due now) (schedules (tables wt)))) \<le> wk_batch wk"
    and room: "event_seq (tables wt) + int (length (filter (schedule_due now) (schedules (tables wt))))
      \<le> max_rowid"
  shows "\<exists>w' rq c v. tick drv pl wk wt = (Inr (count_tick wk), w') \<and>
    decode_json sv schedule_decoder zero_schedule req = Inr rq \<and>
    find_content (tables w) cid = Some c \<and> v \<in> set (history (tables w) cid) \<and>
    v_version v = sq_version rq \<and>
    (\<forall>wr req'. tables wr = tables w' \<and> faults wr = [] \<and> rq_header req' ''If-None-Match'' = [] \<longrightarrow>
       (\<exists>dto. rs_body (fst (handle_public_get (c_slug c) req' wr)) = PublicBody dto \<and>
          pd_title dto = f_title (v_fields v) \<and> pd_body dto = f_body (v_fields v)))"
proof -
  from schedule_accepted [OF asked] obtain rq y v where
    rq: "decode_json sv schedule_decoder zero_schedule req = Inr rq" "v_version v = sq_version rq" and
    t1: "tables w1 = (tables w)\<lparr>schedules := schedules (tables w) @ [y]\<rparr>" and
    y: "s_id y = rq_uuid req" "s_content_id y = cid" "s_version_id y = v_id v" and
    v: "v \<in> set (history (tables w) cid)" by blast
  let ?s1 = "s\<lparr>sys_db := tables w1\<rparr>"
  have "(sys_step ident)\<^sup>*\<^sup>* s ?s1" using h_runD [OF h_run_admin(5) asked(1) assms(2)] .
  with assms(1) have s1: "reachable ident ?s1" by (rule reachable_steps)
  have ok0: "db_ok (tables w)" using reachable_db_ok assms(1,2) by simp
  have ok: "db_ok (tables wt)" and ev: "evolves (tables w1) (tables wt)"
    using steps_evolve [OF s1 between(1)] between(2) by simp_all
  have "find_schedule (tables w1) (rq_uuid req) = Some y"
    using reachable_db_ok [OF s1] t1 y(1) by (simp add: db_ok_find_schedule)
  from evolves_find_schedule [OF ev ok this] due(1) between(2) y
  have x: "s_content_id x = cid" "s_version_id x = v_id v"
    by (auto simp: schedule_evolves_def job_of_def)
  have "x \<in> set (schedules (tables wt))"
    using due(1) between(2) by (auto simp: find_schedule_def dest: row_with_SomeD)
  with tick_due [OF ok pl nf still now batch room] due(2) x obtain w' c where
    run: "tick drv pl wk wt = (Inr (count_tick wk), w')" and
    c: "find_content (tables w') cid = Some c" "c_published_version_id c = Some (v_id v)" by fastforce
  have ok': "db_ok (tables w')" and ev': "evolves (tables wt) (tables w')"
    using soundD [OF sound_tick [OF pl] run ok] by simp_all
  have "v \<in> set (versions (tables w1))" using v t1 by (simp add: history_def)
  with evolves_versions [OF ev] evolves_versions [OF ev'] have v': "v \<in> set (versions (tables w'))" by auto
  obtain c0 where c0: "find_content (tables w) cid = Some c0" using history_content [OF ok0 v] by blast
  then have "find_content (tables w1) cid = Some c0" by (simp add: t1 find_content_def)
  from evolves_find_content [OF evolves_trans [OF ev ev'] ok' this] c(1)
  have slug: "c_slug c = c_slug c0" by (auto simp: content_evolves_def)
  have "rs_body (fst (handle_public_get (c_slug c0) req' wr)) = PublicBody (to_public_dto (public_of c v))"
    if "tables wr = tables w'" "faults wr = []" "rq_header req' ''If-None-Match'' = []" for wr req'
    using pointer_is_served [of wr cid c v req'] that ok' c v' slug by (simp add: write_json_def)
  with run rq c0 v show ?thesis
    by (intro exI [of _ w'] exI [of _ rq] exI [of _ c0] exI [of _ v])
      (auto simp: to_public_dto_def public_of_def)
qed

theorem schedule_goes_public_witness:
  "\<exists>dto. rs_body (fst (handle_public_get ''hello'' (get_hello []) (world_of (tables (snd
       (tick no_text table_order some_worker (world_of asked_db 1768478400000000000)))) 0))) = PublicBody dto \<and>
     pd_title dto = ''one''"
proof -
  let ?t = "world_of asked_db 1768478400000000000" and ?x = "new_schedule ''u1'' ''d1'' 1 1768478400000 0"
  have run: "handle_create_schedule some_server ''d1'' schedule_1 (world_of ticked_db 0) =
      (fst (handle_create_schedule some_server ''d1'' schedule_1 (world_of ticked_db 0)), world_of asked_db 0)"
    using schedule_1_run(2) by (metis prod.collapse)
  have x: "find_schedule (sys_db (sys_of asked_db)) (rq_uuid schedule_1) = Some ?x" "schedule_due 1768478400000 ?x"
    unfolding asked_db_def ticked_db_eq by code_simp+
  have now: "1768478400000 = to_millis (clock_now ?t)" by code_simp
  have room: "int (length (filter (schedule_due 1768478400000) (schedules (tables ?t)))) \<le> wk_batch some_worker"
    "event_seq (tables ?t) + int (length (filter (schedule_due 1768478400000) (schedules (tables ?t)))) \<le> max_rowid"
    unfolding asked_db_def ticked_db_eq by code_simp+
  have steps: "(sys_step one_id)\<^sup>*\<^sup>* (sys_of ticked_db\<lparr>sys_db := tables (world_of asked_db 0)\<rparr>) (sys_of asked_db)"
    by (simp add: sys_of_def)
  have d: "find_content (tables (world_of ticked_db 0)) ''d1'' = Some (doc1 2 (Some 2) (Some 100) 100)"
    "history (tables (world_of ticked_db 0)) ''d1'' = versions1"
    unfolding ticked_db_eq by code_simp+
  from schedule_goes_public [OF reachable_ticked _ run schedule_1_run(1) steps _ x table_order_ok _ _ now room,
      of no_text] schedule_1_run(3) d
  obtain w' v where
    tick: "tick no_text table_order some_worker ?t = (Inr (count_tick some_worker), w')" and
    v: "v \<in> set versions1" "v_version v = 1" and
    served: "\<And>wr req'. tables wr = tables w' \<Longrightarrow> faults wr = [] \<Longrightarrow>
      rq_header req' ''If-None-Match'' = [] \<Longrightarrow>
      \<exists>dto. rs_body (fst (handle_public_get ''hello'' req' wr)) = PublicBody dto \<and>
        pd_title dto = f_title (v_fields v) \<and> pd_body dto = f_body (v_fields v)"
    by (force simp: doc1_def)
  have "f_title (v_fields v) = ''one''" using v by (auto simp: versions1_def draft_def)
  moreover have "rq_header (get_hello []) ''If-None-Match'' = []" by code_simp
  ultimately show ?thesis using served [of "world_of (tables w') 0" "get_hello []"] tick by auto
qed

end
