(* ===== verification/Scenario_Laws.thy ===== *)
theory Scenario_Laws
  imports Client_Laws Journey_Laws
begin

text \<open>
  A scheduled publish from end to end, as the repository's tests play it: a client schedules a version
  over HTTP, workers poll before and after the clock has moved on, and the client watches the public
  endpoint until the document appears.
\<close>

section \<open>Workers while a client waits\<close>

text \<open>The polls of some workers between two looks of the client.\<close>

definition meanwhile :: "(sqlite_code \<Rightarrow> string) \<Rightarrow> planner \<Rightarrow> worker list \<Rightarrow> world \<Rightarrow> world" where
  "meanwhile drv pl wks w = fold (\<lambda>wk w. snd (run_once drv pl wk w)) wks w"

lemma meanwhile_simps [simp]:
  "meanwhile drv pl [] w = w"
  "meanwhile drv pl (wk # wks) w = meanwhile drv pl wks (snd (run_once drv pl wk w))"
  by (simp_all add: meanwhile_def)

lemma wait_for_never:
  assumes "\<forall>others \<in> set polls. others w = w" "cond w = (False, w)"
  shows "wait_for polls cond w = (False, w)"
  using assms by (induction polls) simp_all

lemma wait_for_met:
  assumes "\<forall>others \<in> set idle. others w = w" "cond w = (False, w)" "cond (others w) = (True, w')"
  shows "wait_for (idle @ others # polls) cond w = (True, w')"
  using assms by (induction idle) simp_all

text \<open>With nothing due a tick only counts itself.\<close>

lemma no_due_ids:
  assumes "planner_ok pl" "\<forall>x \<in> set (schedules d). \<not> schedule_due now x"
  shows "due_ids pl now limit d = []"
proof -
  have "set (scan_order pl (schedules d)) = set (schedules d)"
    using mset_eq_setD [OF scan_order_perm [OF assms(1)]] .
  with assms(2) have "filter (schedule_due now) (scan_order pl (schedules d)) = []"
    by (simp add: filter_empty_conv)
  then show ?thesis by (simp add: due_ids_def sql_limit_def)
qed

lemma tick_idle:
  fixes wk
  assumes ok: "db_ok (tables w)" and pl: "planner_ok pl" and nf: "faults w = []" and still: "clock_later w = []"
    and idle: "\<forall>x \<in> set (schedules (tables w)). \<not> schedule_due (to_millis (clock_now w)) x"
    and room: "event_seq (tables w) \<le> max_rowid"
  shows "run_once drv pl wk w = (Inr (count_tick wk), w)"
proof -
  let ?d = "tables w" and ?now = "to_millis (clock_now w)"
  note ids = no_due_ids [OF pl idle]
  have jobs: "claimed_jobs pl wk ?now ?d = []"
    using set_claimed_jobs [OF pl, of wk ?now ?d] ids by simp
  have "claimed_db pl wk ?now exp ?d = ?d" for exp
    using ids by (simp add: claimed_db_def set_schedules_def update_where_def)
  then have "tick_db pl wk ?now exp ?d = ?d" for exp by (simp add: tick_db_def jobs)
  then show ?thesis
    using tick_nofault [OF ok pl nf still, of wk drv] room by (simp add: jobs run_once_def)
qed

lemma meanwhile_idle:
  assumes "db_ok (tables w)" "planner_ok pl" "faults w = []" "clock_later w = []"
    "\<forall>x \<in> set (schedules (tables w)). \<not> schedule_due (to_millis (clock_now w)) x"
    "event_seq (tables w) \<le> max_rowid"
  shows "meanwhile drv pl wks w = w"
  by (induction wks) (simp_all add: tick_idle [OF assms])

text \<open>A tick that publishes everything due leaves nothing due.\<close>

lemma keys_update_where:
  "(\<And>x. key (f x) = key x) \<Longrightarrow> key ` set (update_where P f xs) = key ` set xs"
  by (metis list.set_map map_update_where)

lemma publish_jobs_shape:
  "s_id ` set (schedules (publish_jobs jobs worker now d)) = s_id ` set (schedules d)"
  "event_seq (publish_jobs jobs worker now d) = event_seq d + int (length jobs)"
  by (induction jobs arbitrary: d) (simp_all add: keys_update_where)

lemma tick_db_shape:
  "s_id ` set (schedules (tick_db pl wk now exp d)) = s_id ` set (schedules d)"
  "event_seq (tick_db pl wk now exp d) = event_seq d + int (length (claimed_jobs pl wk now d))"
proof -
  show "s_id ` set (schedules (tick_db pl wk now exp d)) = s_id ` set (schedules d)"
    by (simp add: tick_db_def publish_jobs_shape claimed_db_def keys_update_where)
  show "event_seq (tick_db pl wk now exp d) = event_seq d + int (length (claimed_jobs pl wk now d))"
    by (simp add: tick_db_def publish_jobs_shape claimed_db_def)
qed

lemma tick_all_due:
  fixes wk now w
  assumes ok: "db_ok (tables w)" and pl: "planner_ok pl" and nf: "faults w = []" and still: "clock_later w = []"
    and now: "now = to_millis (clock_now w)"
    and batch: "int (length (filter (schedule_due now) (schedules (tables w)))) \<le> wk_batch wk"
    and room: "event_seq (tables w) + int (length (filter (schedule_due now) (schedules (tables w)))) \<le> max_rowid"
  obtains d where "run_once drv pl wk w = (Inr (count_tick wk), w\<lparr>tables := d\<rparr>)" "db_ok d"
    "evolves (tables w) d" "event_seq d \<le> max_rowid" "\<forall>y \<in> set (schedules d). \<not> schedule_due now y"
    "\<forall>x \<in> set (schedules (tables w)). schedule_due now x \<longrightarrow>
       (\<exists>y. find_schedule d (s_id x) = Some y \<and> s_status y = ScheduleDone) \<and>
       (\<exists>c. find_content d (s_content_id x) = Some c \<and> c_published_version_id c = Some (s_version_id x)) \<and>
       length (events_of_schedule d (s_id x)) = 1"
proof -
  let ?exp = "to_millis (time_add (clock_now w) (wk_lease wk))"
  let ?d = "tick_db pl wk now ?exp (tables w)"
  have seq: "event_seq (tables w) + int (length (claimed_jobs pl wk now (tables w))) \<le> max_rowid"
    using room claimed_job_count [OF ok pl, of wk now] by linarith
  have run: "tick drv pl wk w = (Inr (count_tick wk), w\<lparr>tables := ?d\<rparr>)"
    using tick_nofault [OF ok pl nf still] seq now by simp
  from tick_due [OF ok pl nf still now batch room, of drv] obtain w' where
    w': "tick drv pl wk w = (Inr (count_tick wk), w')" and
    due: "\<forall>x \<in> set (schedules (tables w)).
       if schedule_due now x
       then (\<exists>y. find_schedule (tables w') (s_id x) = Some y \<and> s_status y = ScheduleDone) \<and>
            (\<exists>c. find_content (tables w') (s_content_id x) = Some c \<and>
                 c_published_version_id c = Some (s_version_id x) \<and> c_published_at c = Some now) \<and>
            length (events_of_schedule (tables w') (s_id x)) = 1
       else find_schedule (tables w') (s_id x) = Some x" by blast
  have "tables w' = ?d" using run w' by simp
  note due = due [unfolded this]
  have ok': "db_ok ?d" and ev: "evolves (tables w) ?d"
    using soundD [OF sound_tick [OF pl] run ok] by simp_all
  have none: "\<not> schedule_due now y" if y: "y \<in> set (schedules ?d)" for y
  proof -
    from y tick_db_shape(1) have "s_id y \<in> s_id ` set (schedules (tables w))" by (metis imageI)
    then obtain x where x: "x \<in> set (schedules (tables w))" "s_id x = s_id y" by auto
    have "find_schedule ?d (s_id y) = Some y" using ok' y by (simp add: db_ok_find_schedule)
    with due x show ?thesis by (cases "schedule_due now x") (auto simp: schedule_due_def)
  qed
  have pub: "(\<exists>y. find_schedule ?d (s_id x) = Some y \<and> s_status y = ScheduleDone) \<and>
       (\<exists>c. find_content ?d (s_content_id x) = Some c \<and> c_published_version_id c = Some (s_version_id x)) \<and>
       length (events_of_schedule ?d (s_id x)) = 1"
    if "x \<in> set (schedules (tables w))" "schedule_due now x" for x
    using bspec [OF due that(1)] that(2) by auto
  show thesis
    by (rule that [of ?d]) (use run ok' ev none pub seq in \<open>simp_all add: run_once_def tick_db_shape\<close>)
qed

text \<open>So one tick of any of the workers is enough, and the others find nothing left to do.\<close>

lemma meanwhile_publishes:
  assumes ok: "db_ok (tables w)" and pl: "planner_ok pl" and nf: "faults w = []" and still: "clock_later w = []"
    and now: "now = to_millis (clock_now w)"
    and batch: "\<forall>wk \<in> set wks. int (length (filter (schedule_due now) (schedules (tables w)))) \<le> wk_batch wk"
    and room: "event_seq (tables w) + int (length (filter (schedule_due now) (schedules (tables w)))) \<le> max_rowid"
    and some: "wks \<noteq> []"
  obtains d where "meanwhile drv pl wks w = w\<lparr>tables := d\<rparr>" "db_ok d" "evolves (tables w) d"
    "\<forall>x \<in> set (schedules (tables w)). schedule_due now x \<longrightarrow>
       (\<exists>y. find_schedule d (s_id x) = Some y \<and> s_status y = ScheduleDone) \<and>
       (\<exists>c. find_content d (s_content_id x) = Some c \<and> c_published_version_id c = Some (s_version_id x)) \<and>
       length (events_of_schedule d (s_id x)) = 1"
proof -
  from some obtain wk rest where wks: "wks = wk # rest" by (cases wks) auto
  from tick_all_due [OF ok pl nf still now _ room, of wk drv] batch wks obtain d where
    d: "run_once drv pl wk w = (Inr (count_tick wk), w\<lparr>tables := d\<rparr>)" "db_ok d" "evolves (tables w) d"
      "event_seq d \<le> max_rowid" "\<forall>y \<in> set (schedules d). \<not> schedule_due now y"
      "\<forall>x \<in> set (schedules (tables w)). schedule_due now x \<longrightarrow>
       (\<exists>y. find_schedule d (s_id x) = Some y \<and> s_status y = ScheduleDone) \<and>
       (\<exists>c. find_content d (s_content_id x) = Some c \<and> c_published_version_id c = Some (s_version_id x)) \<and>
       length (events_of_schedule d (s_id x)) = 1" by auto
  have "meanwhile drv pl rest (w\<lparr>tables := d\<rparr>) = w\<lparr>tables := d\<rparr>"
    by (rule meanwhile_idle) (use d pl nf still now in simp_all)
  with d that show thesis by (simp add: wks)
qed

section \<open>A schedule request that goes through\<close>

lemma create_schedule_nofault:
  fixes now
  assumes ok: "db_ok (tables w)" and nf: "faults w = []" and v: "v \<in> set (history (tables w) cid)"
    and fresh: "sid \<notin> s_id ` set (schedules (tables w))"
    and free: "\<forall>x \<in> set (schedules (tables w)). s_content_id x = cid \<longrightarrow> \<not> schedule_active x"
  shows "create_schedule sid cid (v_id v) at now w =
    (Inr (new_schedule sid cid (v_id v) at now),
     w\<lparr>tables := (tables w)\<lparr>schedules := schedules (tables w) @ [new_schedule sid cid (v_id v) at now]\<rparr>\<rparr>)"
proof -
  let ?d = "tables w" and ?s = "new_schedule sid cid (v_id v) at now"
  have own: "owns ?d (v_id v) cid" using v by (auto simp: owns_def history_def)
  then have "version_owner (v_id v) ?d = Some cid" using ok by (simp add: version_owner_owns)
  then have owner: "map_err g (query_row (version_owner (v_id v))) w = (Inr cid, w)" for g
    using nf by (simp add: map_err_def io_catch_def query_row_nofault)
  have "active_unique (schedules ?d @ [?s])"
    using ok free by (auto simp: active_unique_append new_schedule_def db_ok_def schedules_ok_def)
  moreover have "s_id ?s = sid" "s_content_id ?s = cid" "s_version_id ?s = v_id v" by (simp_all add: new_schedule_def)
  ultimately have "insert_schedule ?s ?d = Inr ((), ?d\<lparr>schedules := schedules ?d @ [?s]\<rparr>)"
    using fresh owns_content [OF ok own] owns_version_fk [OF own] by (simp add: insert_schedule_def)
  then have "map_err g (sql_stmt (insert_schedule ?s)) w =
      (Inr (), w\<lparr>tables := ?d\<lparr>schedules := schedules ?d @ [?s]\<rparr>\<rparr>)" for g
    using nf by (simp add: map_err_def io_catch_def sql_stmt_nofault)
  with owner show ?thesis
    using nf by (simp add: create_schedule_def db_tx_nofault io_bind_def io_return_def)
qed

text \<open>The request that \<open>ScheduleAt\<close> sends, and the identifier the client reads off the answer.\<close>

definition schedule_body :: "int64 \<Rightarrow> instant \<Rightarrow> json" where
  "schedule_body n t = JObject [(''run_at'', json_string (format_rfc3339 t)), (''version'', json_int n)]"

lemma format_rfc3339_utf8: "valid_utf8 (format_rfc3339 t)"
proof -
  have "byte_of c < 0x80" if "c \<in> set (zero_pad k n)" for c k n
    using that show_digits_digits [of "\<bar>n\<bar>" c]
    by (auto simp: zero_pad_def Let_def is_digit_def between_def byte_of_def split: if_splits)
  then show ?thesis
    by (intro valid_ascii) (auto simp: format_rfc3339_def format_date_def format_clock_def Let_def byte_of_def)
qed

lemma schedule_decoder_body:
  "in_int64 n \<Longrightarrow> schedule_decoder (schedule_body n t) x = (\<lparr>sq_version = n, sq_run_at = format_rfc3339 t\<rparr>, None)"
  by (simp add: schedule_decoder_def schedule_body_def find_field_skip on_field_def dec_int64_json dec_string_json
      format_rfc3339_utf8 first_error_def)

lemma schedule_reply_id:
  assumes "valid_utf8 (hd_id d)"
  shows "id_reply_decoder (json_of_schedule d) x = (\<lparr>ir_id = hd_id d\<rparr>, None)"
proof -
  have names: "fold_name ''content_id'' = ''CONTENT_ID''" "fold_name ''run_at'' = ''RUN_AT''"
    "fold_name ''attempts'' = ''ATTEMPTS''" "fold_name ''last_error'' = ''LAST_ERROR''"
    "fold_name ''locked_by'' = ''LOCKED_BY''" by code_simp+
  have "find_field [(''id'', dec)] k = None"
    if "k \<in> {''content_id'', ''version'', ''run_at'', ''status'', ''attempts'', ''last_error'', ''locked_by'',
      ''created_at'', ''updated_at''}" for k and dec :: "id_reply decoder"
    using that by (intro find_field_none) (auto simp: fold_names names)
  with assms show ?thesis
    by (simp add: id_reply_decoder_def json_of_schedule_def omit_empty_def on_field_def dec_string_json
        first_error_def split: option.split)
qed

definition schedules_url :: "string \<Rightarrow> string" where
  "schedules_url cid = ''/api/v1/contents/'' @ cid @ ''/schedules''"

abbreviation with_schedule :: "schedule_row \<Rightarrow> world \<Rightarrow> world" where
  "with_schedule s w \<equiv> w\<lparr>tables := (tables w)\<lparr>schedules := schedules (tables w) @ [s]\<rparr>\<rparr>"

lemma schedule_handler_runs:
  assumes ok: "db_ok (tables w)" and nf: "faults w = []" and still: "clock_later w = []"
    and c: "find_content (tables w) cid = Some c" and n: "1 \<le> n" "n \<le> c_current_version c"
    and fresh: "rq_uuid req \<notin> s_id ` set (schedules (tables w))"
    and free: "\<forall>x \<in> set (schedules (tables w)). s_content_id x = cid \<longrightarrow> \<not> schedule_active x"
    and req: "decode_json sv schedule_decoder zero_schedule req = Inr \<lparr>sq_version = n, sq_run_at = at\<rparr>"
    and at: "parse_rfc3339 at = Some t" "to_millis (clock_now w) < to_millis t"
  obtains v r d where "v \<in> set (history (tables w) cid)" "v_version v = n"
    "handle_create_schedule sv cid req w =
      (r, with_schedule (new_schedule (rq_uuid req) cid (v_id v) (to_millis t) (to_millis (clock_now w))) w)"
    "rs_status r = 201" "rs_body r = ScheduleBody d" "hd_id d = rq_uuid req"
proof -
  have len: "int (length (history (tables w) cid)) = c_current_version c" by (rule history_length [OF ok c])
  from first_version [OF ok c, of n] n len obtain v where
    v: "first_row (filter (\<lambda>v. v_version v = n) (history (tables w) cid)) = Some v"
      "v \<in> set (history (tables w) cid)" "v_version v = n"
    by (auto split: option.splits)
  let ?now = "to_millis (clock_now w)"
  let ?s = "new_schedule (rq_uuid req) cid (v_id v) (to_millis t) ?now"
  have now: "now_millis w = (Inr ?now, w)"
    using still by (simp add: now_millis_def io_bind_def clk_now_still io_return_def)
  have run: "service_schedule (rq_uuid req) \<lparr>si_content_id = cid, si_version = n, si_run_at_ms = to_millis t\<rparr> w =
      (Inr ?s, with_schedule ?s w)"
    using at(2) v(1) create_schedule_nofault [OF ok nf v(2) fresh free, of "to_millis t" ?now]
    by (simp add: service_schedule_def io_bind_def now get_version_nofault [OF nf])
  have found: "find_version (tables w) (v_id v) = Some v"
    using v(2) ok by (simp add: db_ok_find_version history_def)
  have "find_version (tables (with_schedule ?s w)) (v_id v) = Some v"
    using found by (simp add: find_version_def)
  with run nf req at(1) n(1) that [OF v(2,3)] show thesis
    by (simp add: handle_create_schedule_def check_input_def check_def to_schedule_dto_def io_bind_def
        get_version_by_id_nofault io_return_def respond_def new_schedule_def write_json_def)
qed

lemma schedule_call_runs:
  fixes w cid offset
  defines "t \<equiv> time_add base_time offset"
  defines "at \<equiv> to_millis (t - t mod 1000000000)"
  assumes wire: "chi (wi_pick wi)" "cfg_admin_api_token (sv_cfg sv) = admin_token"
    and url: "wi_url wi (schedules_url cid) = (schedules_url cid, q)" "cid \<noteq> []" "CHR ''/'' \<notin> set cid"
    and ok: "db_ok (tables w)" and nf: "faults w = []" and still: "clock_later w = []"
    and c: "find_content (tables w) cid = Some c" and n: "1 \<le> n" "n \<le> c_current_version c"
    and uuid: "uuid \<notin> s_id ` set (schedules (tables w))" "valid_utf8 uuid"
    and free: "\<forall>x \<in> set (schedules (tables w)). s_content_id x = cid \<longrightarrow> \<not> schedule_active x"
    and year: "0 \<le> cl_year (civil_of t)" "cl_year (civil_of t) \<le> 9999"
    and future: "to_millis (clock_now w) < at"
  obtains v where "v \<in> set (history (tables w) cid)" "v_version v = n"
    "schedule_at_call wi sv uuid cid n offset w =
      (Some uuid, with_schedule (new_schedule uuid cid (v_id v) at (to_millis (clock_now w))) w)"
proof -
  let ?cq = "(plain_request ''POST'' (schedules_url cid))\<lparr>cq_body := Some (schedule_body n t)\<rparr>"
  let ?req = "http_request_of wi uuid ?cq"
  have "in_int64 n" using n current_positive [OF ok c] by (simp add: in_int64_def)
  then have dec: "decode_json sv schedule_decoder zero_schedule ?req = Inr \<lparr>sq_version = n, sq_run_at = format_rfc3339 t\<rparr>"
    by (simp add: decode_json_def http_request_of_def schedule_decoder_body)
  have id: "rq_uuid ?req = uuid" by (simp add: http_request_of_def)
  from schedule_handler_runs [OF ok nf still c n _ free dec parse_format_seconds [OF year]] uuid(1) future id
  obtain v r d where v: "v \<in> set (history (tables w) cid)" "v_version v = n" and
    h: "handle_create_schedule sv cid ?req w =
      (r, with_schedule (new_schedule uuid cid (v_id v) at (to_millis (clock_now w))) w)" and
    r: "rs_status r = 201" "rs_body r = ScheduleBody d" "hd_id d = uuid"
    by (auto simp: at_def)
  have path: "path_segments (schedules_url cid) = [''api'', ''v1'', ''contents'', cid, ''schedules'']"
    using path_schedules [OF url(3)] by (simp add: schedules_url_def)
  have "harness_post wi sv uuid (schedules_url cid) (schedule_body n t) w =
      (reply_to r, with_schedule (new_schedule uuid cid (v_id v) at (to_millis (clock_now w))) w)"
    by (rule harness_runs(3) [OF url(1) wire(2) chi.pick_schedule [OF wire(1) path url(2)]])
      (simp add: url_param_def h)
  then have "schedule_at_call wi sv uuid cid n offset w =
      (Some uuid, with_schedule (new_schedule uuid cid (v_id v) at (to_millis (clock_now w))) w)"
    using r schedule_reply_id [of d] uuid(2)
    by (simp add: schedule_at_call_def schedules_url_def schedule_body_def t_def response_json_def)
  with v that show thesis by blast
qed

section \<open>From the request to the public page\<close>

definition looks_public :: "wire \<Rightarrow> server \<Rightarrow> string \<Rightarrow> string \<Rightarrow> bool test" where
  "looks_public wi sv uuid slug w =
     (case public_status_call wi sv uuid slug w of (status, w1) \<Rightarrow> (status = 200, w1))"

lemma schedule_status_runs:
  "faults w = [] \<Longrightarrow> find_schedule (tables w) sid = Some x \<Longrightarrow>
    schedule_status_call sid w = (Some (status_text (s_status x)), w)"
  by (simp add: schedule_status_call_def query_row_nofault)

text \<open>The first poll of the client that comes after a poll of a worker.\<close>

lemma first_busy:
  assumes "\<exists>wks \<in> set late. wks \<noteq> []"
  obtains idle wks polls where "late = idle @ wks # polls" "wks \<noteq> []" "\<forall>ws \<in> set idle. ws = []"
  using split_list_first_prop [of late "\<lambda>wks. wks \<noteq> []"] assms by blast

text \<open>Before its time: workers leave the schedule alone.\<close>

lemma nothing_early:
  assumes ok: "db_ok (tables w)" "faults w = []" "clock_later w = []" and pl: "planner_ok pl"
    and room: "event_seq (tables w) \<le> max_rowid"
    and quiet: "\<forall>x \<in> set (schedules (tables w)). \<not> schedule_due (to_millis (clock_now w)) x"
    and cond: "cond w = (False, w)"
  shows "wait_for (map (meanwhile drv pl) early) cond w = (False, w)"
  using cond by (intro wait_for_never) (auto simp: meanwhile_idle [OF ok(1) pl ok(2,3) quiet room])

text \<open>At its time: the first poll of any worker publishes it, and the client sees it.\<close>

lemma soon_public:
  assumes ok: "db_ok (tables w)" "faults w = []" "clock_later w = []" and pl: "planner_ok pl"
    and room: "event_seq (tables w) < max_rowid"
    and x: "x \<in> set (schedules (tables w))" "schedule_due (to_millis (clock_now w)) x"
    and only: "filter (schedule_due (to_millis (clock_now w))) (schedules (tables w)) = [x]"
    and c: "find_content (tables w) (s_content_id x) = Some c" "c_published_version_id c = None"
    and v: "v \<in> set (versions (tables w))" "v_id v = s_version_id x"
    and wire: "chi (wi_pick wi)" "wi_url wi (public_page (c_slug c)) = (public_page (c_slug c), q)"
    and slug: "c_slug c \<noteq> []" "CHR ''/'' \<notin> set (c_slug c)"
    and late: "\<exists>wks \<in> set late. wks \<noteq> []" "\<forall>wks \<in> set late. \<forall>wk \<in> set wks. 1 \<le> wk_batch wk"
  obtains d y where "wait_for (map (meanwhile drv pl) late) (looks_public wi sv uuid (c_slug c)) w =
      (True, w\<lparr>tables := d\<rparr>)"
    "find_schedule d (s_id x) = Some y" "s_status y = ScheduleDone" "length (events_of_schedule d (s_id x)) = 1"
    "\<exists>p. service_get_public_by_slug (c_slug c) (w\<lparr>tables := d\<rparr>) = (Inr p, w\<lparr>tables := d\<rparr>) \<and> p_fields p = v_fields v"
proof -
  from first_busy [OF late(1)] obtain idle wks polls where
    late_eq: "late = idle @ wks # polls" "wks \<noteq> []" "\<forall>ws \<in> set idle. ws = []" by blast
  have before: "looks_public wi sv uuid (c_slug c) w = (False, w)"
    using unpublished_404 [OF ok(1,2) c refl slug wire] by (simp add: looks_public_def)
  from meanwhile_publishes [OF ok(1) pl ok(2,3) refl _ _ late_eq(2), of drv] only room late(2) late_eq(1) obtain d where
    d: "meanwhile drv pl wks w = w\<lparr>tables := d\<rparr>" "db_ok d" "evolves (tables w) d" and
    pub: "\<forall>x \<in> set (schedules (tables w)). schedule_due (to_millis (clock_now w)) x \<longrightarrow>
       (\<exists>y. find_schedule d (s_id x) = Some y \<and> s_status y = ScheduleDone) \<and>
       (\<exists>c. find_content d (s_content_id x) = Some c \<and> c_published_version_id c = Some (s_version_id x)) \<and>
       length (events_of_schedule d (s_id x)) = 1" by auto
  from pub x obtain y c' where y: "find_schedule d (s_id x) = Some y" "s_status y = ScheduleDone" and
    c': "find_content d (s_content_id x) = Some c'" "c_published_version_id c' = Some (s_version_id x)" and
    one: "length (events_of_schedule d (s_id x)) = 1" by blast
  have slug': "c_slug c' = c_slug c"
    using evolves_find_content [OF d(3,2) c(1)] c'(1) by (auto simp: content_evolves_def)
  let ?w2 = "w\<lparr>tables := d\<rparr>"
  have v': "v \<in> set (versions (tables ?w2))" using evolves_versions [OF d(3)] v(1) by auto
  have w2: "faults ?w2 = []" "db_ok (tables ?w2)" "find_content (tables ?w2) (s_content_id x) = Some c'"
    "c_published_version_id c' = Some (v_id v)" using ok d(2) c' v(2) by simp_all
  have "public_status_call wi sv uuid (c_slug c) ?w2 = (200, ?w2)"
    using public_call_runs [OF slug wire pointer_is_served [OF w2 v', unfolded slug']] by (simp add: write_json_def)
  then have after: "looks_public wi sv uuid (c_slug c) (meanwhile drv pl wks w) = (True, ?w2)"
    by (simp add: looks_public_def d(1))
  have idle: "\<forall>others \<in> set (map (meanwhile drv pl) idle). others w = w" using late_eq(3) by force
  have wait: "wait_for (map (meanwhile drv pl) late) (looks_public wi sv uuid (c_slug c)) w = (True, ?w2)"
    unfolding late_eq(1) map_append list.map
    by (rule wait_for_met [where idle = "map (meanwhile drv pl) idle" and others = "meanwhile drv pl wks"
          and w = w and cond = "looks_public wi sv uuid (c_slug c)", OF idle before after])
  have "find_version d (v_id v) = Some v" using v' d(2) by (simp add: db_ok_find_version)
  then have "service_get_public_by_slug (c_slug c) ?w2 = (Inr (public_of c' v), ?w2)"
    using get_public_nofault [OF w2(2,1), of "c_slug c"] public_after_pointer [OF w2(2,3)] c'(2) v(2) slug'
    by (simp add: service_get_public_by_slug_def)
  then have "\<exists>p. service_get_public_by_slug (c_slug c) ?w2 = (Inr p, ?w2) \<and> p_fields p = v_fields v"
    by (simp add: public_of_def)
  with that wait y one show thesis by blast
qed

text \<open>
  C13. A scheduled publish from end to end, as the tests of the repository play it: a client asks over
  HTTP for version \<open>n\<close> of an unpublished document to go public at a time ahead. It gets the
  identifier of the schedule. However often workers poll before that time, in whatever order, the
  client never sees the page and the schedule stays pending. Once the clock has passed the time, the
  client that waits sees the page, at its first look after a poll of any worker; the page has the
  fields of version \<open>n\<close>, the schedule is done, and it has exactly one event.
\<close>

theorem scheduled_publish_end_to_end:
  assumes wire: "chi (wi_pick wi)" "cfg_admin_api_token (sv_cfg sv) = admin_token"
    "wi_url wi (schedules_url cid) = (schedules_url cid, q)" "wi_url wi (public_page (c_slug c)) = (public_page (c_slug c), q')"
    and ids: "cid \<noteq> []" "CHR ''/'' \<notin> set cid" "c_slug c \<noteq> []" "CHR ''/'' \<notin> set (c_slug c)"
      "uuid \<notin> s_id ` set (schedules (tables w))" "valid_utf8 uuid"
    and ok: "db_ok (tables w)" "faults w = []" "clock_later w = []" and room: "event_seq (tables w) < max_rowid"
    and c: "find_content (tables w) cid = Some c" "c_published_version_id c = None"
    and n: "1 \<le> n" "n \<le> c_current_version c"
    and year: "0 \<le> cl_year (civil_of (time_add base_time offset))" "cl_year (civil_of (time_add base_time offset)) \<le> 9999"
    and at: "at = to_millis (time_add base_time offset - time_add base_time offset mod 1000000000)"
      "to_millis (clock_now w) < at" "at \<le> to_millis clk"
    and others: "\<forall>x \<in> set (schedules (tables w)). (s_content_id x = cid \<longrightarrow> \<not> schedule_active x) \<and>
      \<not> schedule_due (to_millis (clock_now w)) x \<and> \<not> schedule_due (to_millis clk) x"
    and workers: "planner_ok pl" "\<exists>wks \<in> set late. wks \<noteq> []" "\<forall>wks \<in> set late. \<forall>wk \<in> set wks. 1 \<le> wk_batch wk"
  shows "\<exists>w1 w2 v p. schedule_at_call wi sv uuid cid n offset w = (Some uuid, w1) \<and>
    wait_for (map (meanwhile drv pl) early) (looks_public wi sv u (c_slug c)) w1 = (False, w1) \<and>
    schedule_status_call uuid w1 = (Some ''pending'', w1) \<and>
    wait_for (map (meanwhile drv pl) late) (looks_public wi sv u (c_slug c)) (w1\<lparr>clock_now := clk\<rparr>) = (True, w2) \<and>
    v \<in> set (history (tables w) cid) \<and> v_version v = n \<and>
    service_get_public_by_slug (c_slug c) w2 = (Inr p, w2) \<and> p_fields p = v_fields v \<and>
    schedule_status_call uuid w2 = (Some ''done'', w2) \<and>
    count_rows (\<lambda>d. length (events_of_schedule d uuid)) w2 = (Some 1, w2)"
proof -
  have free: "\<forall>x \<in> set (schedules (tables w)). s_content_id x = cid \<longrightarrow> \<not> schedule_active x" using others by simp
  from schedule_call_runs [OF wire(1-3) ids(1,2) ok c(1) n ids(5,6) free year] at(1,2) obtain v where
    v: "v \<in> set (history (tables w) cid)" "v_version v = n" and
    call: "schedule_at_call wi sv uuid cid n offset w =
      (Some uuid, with_schedule (new_schedule uuid cid (v_id v) at (to_millis (clock_now w))) w)" by auto
  let ?x = "new_schedule uuid cid (v_id v) at (to_millis (clock_now w))"
  let ?w1 = "with_schedule ?x w" and ?wl = "(with_schedule ?x w)\<lparr>clock_now := clk\<rparr>"
  have x: "s_id ?x = uuid" "s_content_id ?x = cid" "s_version_id ?x = v_id v" "s_status ?x = SchedulePending"
    "\<not> schedule_due (to_millis (clock_now w)) ?x" "schedule_due (to_millis clk) ?x"
    using at by (simp_all add: new_schedule_def schedule_due_def)
  have ok1: "db_ok (tables ?w1)"
    using create_schedule_ok [OF ok(1), of uuid cid "v_id v" at "to_millis (clock_now w)"]
    unfolding create_schedule_nofault [OF ok(1,2) v(1) ids(5) free] by simp
  have c1: "find_content (tables ?w1) cid = Some c" using c by (simp add: find_content_def)
  have found: "find_schedule (tables ?w1) uuid = Some ?x" using ok1 x(1) by (simp add: db_ok_find_schedule)
  have unseen: "looks_public wi sv u (c_slug c) ?w1 = (False, ?w1)"
    using unpublished_404 [OF ok1 _ c1 c(2) refl ids(3,4) wire(1,4)] ok(2) by (simp add: looks_public_def)
  have early: "wait_for (map (meanwhile drv pl) early) (looks_public wi sv u (c_slug c)) ?w1 = (False, ?w1)"
    using others x(5) room ok1
    by (intro nothing_early [where w = ?w1 and cond = "looks_public wi sv u (c_slug c)"]) (auto simp: ok ok1 workers(1) unseen)
  have "filter (schedule_due (to_millis clk)) (schedules (tables w)) = []" using others by (simp add: filter_empty_conv)
  then have only: "filter (schedule_due (to_millis (clock_now ?wl))) (schedules (tables ?wl)) = [?x]" using x(6) by simp
  have v1: "v \<in> set (versions (tables ?wl))" using v(1) by (simp add: history_def)
  from soon_public [of ?wl pl ?x c v wi q' late drv sv u] ok ok1 workers room x only c c1 v1 wire ids obtain d y where
    late: "wait_for (map (meanwhile drv pl) late) (looks_public wi sv u (c_slug c)) ?wl = (True, ?wl\<lparr>tables := d\<rparr>)"
      "find_schedule d uuid = Some y" "s_status y = ScheduleDone" "length (events_of_schedule d uuid) = 1" and
    page: "\<exists>p. service_get_public_by_slug (c_slug c) (?wl\<lparr>tables := d\<rparr>) = (Inr p, ?wl\<lparr>tables := d\<rparr>) \<and>
      p_fields p = v_fields v" by (auto simp del: world.update_convs)
  let ?w2 = "?wl\<lparr>tables := d\<rparr>"
  have status: "schedule_status_call uuid ?w1 = (Some ''pending'', ?w1)" "schedule_status_call uuid ?w2 = (Some ''done'', ?w2)"
    using schedule_status_runs [OF _ found] schedule_status_runs [of ?w2 uuid y] late(2,3) ok(2) x(4) by simp_all
  have "count_rows (\<lambda>d. length (events_of_schedule d uuid)) ?w2 = (Some 1, ?w2)"
    using late(4) ok(2) by (simp add: count_rows_def sql_query_nofault)
  with call early status late(1) v page show ?thesis by blast
qed

definition draft_db :: db where
  "draft_db = fold after [CreateRequest ''d1'' ''hello'' (draft ''one'') ''ana'' 1] empty_db"

lemma draft_db_eq:
  "draft_db = \<lparr>contents = [doc1 1 None None 1], versions = [hd versions1], schedules = [], events = [],
     version_seq = 1, event_seq = 0\<rparr>"
  by code_simp

theorem scheduled_publish_end_to_end_witness:
  "\<exists>w1 w2. schedule_at_call test_wire test_server ''u1'' ''d1'' 1 300000000000 (world_of draft_db 1768478400000000000) =
      (Some ''u1'', w1) \<and>
    wait_for (map (meanwhile no_text table_order) [[some_worker], []]) (looks_public test_wire test_server ''u2'' ''hello'') w1 =
      (False, w1) \<and>
    wait_for (map (meanwhile no_text table_order) [[], [some_worker, some_worker], []])
      (looks_public test_wire test_server ''u2'' ''hello'') (w1\<lparr>clock_now := 1768478700000000000\<rparr>) = (True, w2) \<and>
    schedule_status_call ''u1'' w2 = (Some ''done'', w2)"
proof -
  let ?w = "world_of draft_db 1768478400000000000"
  have "reachable one_id (sys_of draft_db)"
    unfolding draft_db_def by (intro reachable_requests reachable_empty)
  from reachable_db_ok [OF this] have "db_ok (tables ?w)" by simp
  moreover have "find_content (tables ?w) ''d1'' = Some (doc1 1 None None 1)" "event_seq (tables ?w) < max_rowid"
    "schedules (tables ?w) = []" unfolding draft_db_eq by code_simp+
  moreover have "0 \<le> cl_year (civil_of (time_add base_time 300000000000))"
    "cl_year (civil_of (time_add base_time 300000000000)) \<le> 9999"
    "1768478700000 = to_millis (time_add base_time 300000000000 - time_add base_time 300000000000 mod 1000000000)"
    "to_millis (clock_now ?w) < 1768478700000" "1768478700000 \<le> to_millis 1768478700000000000"
    "1 \<le> wk_batch some_worker" by code_simp+
  moreover have "chi (wi_pick test_wire)" by (simp add: first.chi_axioms)
  moreover have "valid_utf8 ''u1''" by (simp add: valid_ascii byte_of_def)
  moreover have "c_slug (doc1 1 None None 1) = ''hello''" "c_current_version (doc1 1 None None 1) = 1"
    "c_published_version_id (doc1 1 None None 1) = None" by (simp_all add: doc1_def)
  ultimately show ?thesis
    using scheduled_publish_end_to_end [where wi = test_wire and sv = test_server and cid = "''d1''"
        and c = "doc1 1 None None 1" and w = ?w and uuid = "''u1''" and n = 1 and offset = 300000000000
        and at = 1768478700000 and clk = 1768478700000000000 and pl = table_order and drv = no_text
        and late = "[[], [some_worker, some_worker], []]" and early = "[[some_worker], []]" and u = "''u2''"
        and q = "\<lambda>k. []" and q' = "\<lambda>k. []"] table_order_ok
    by fastforce
qed

end
