(* ===== verification/Server_Main.thy ===== *)
theory Server_Main
  imports Config
begin

text \<open>
  \<open>cmd/server/main.go\<close>: the order in which \<open>run\<close> starts and stops the parts of the process. The
  answers of the outside (opening, migrating, why the server stops, whether its shutdown is in
  time) are an argument; the result is the error \<open>run\<close> returns and the steps it takes, the deferred
  calls at their place.
\<close>

datatype run_error =
    ConfigFailed config_error
  | OpenFailed string
  | MigrateFailed string
  | ServerFailed string

datatype stop_reason =
    ServerEnded "string option"
  | SignalReceived

record answers =
  an_open :: "string option"
  an_migrate :: "string option"
  an_stop :: stop_reason
  an_shutdown_in_time :: bool

text \<open>\<open>setupLogging\<close>: both handlers write to standard output from the info level on.\<close>

datatype log_handler = JsonHandler | TextHandler

definition setup_logging :: "config \<Rightarrow> log_handler" where
  "setup_logging c = (if cfg_log_json c then JsonHandler else TextHandler)"

text \<open>The \<open>http.Server\<close> that \<open>run\<close> fills in, without its handler.\<close>

record http_server =
  hs_addr :: string
  hs_read_header_timeout :: int64
  hs_read_timeout :: int64
  hs_write_timeout :: int64
  hs_idle_timeout :: int64

definition http_server_of :: "config \<Rightarrow> http_server" where
  "http_server_of c =
     \<lparr>hs_addr = cfg_addr c, hs_read_header_timeout = seconds 10, hs_read_timeout = seconds 30,
      hs_write_timeout = seconds 30, hs_idle_timeout = seconds 120\<rparr>"

datatype step =
    LoggingSet log_handler
  | DbOpened string
  | Migrated
  | SignalsCaught
  | WorkerStarted worker_config
  | Listening http_server
  | ServerShutdown int64
  | ServerClosed
  | WorkerWaited
  | SignalsReleased
  | DbClosed

definition start_steps :: "config \<Rightarrow> string \<Rightarrow> step list" where
  "start_steps c instance_id =
     [LoggingSet (setup_logging c), DbOpened (cfg_db_path c), Migrated, SignalsCaught] @
     (if cfg_scheduler_on c then [WorkerStarted (main_worker_config c instance_id)] else []) @
     [Listening (http_server_of c)]"

definition stop_steps :: "config \<Rightarrow> answers \<Rightarrow> run_error option \<times> step list" where
  "stop_steps c a =
     (case an_stop a of
        ServerEnded r \<Rightarrow> (map_option ServerFailed r, [])
      | SignalReceived \<Rightarrow>
          (None, [ServerShutdown (cfg_shutdown_grace c)] @
             (if an_shutdown_in_time a then [] else [ServerClosed]) @ [WorkerWaited]))"

definition run ::
    "(string \<Rightarrow> int64 option) \<Rightarrow> env \<Rightarrow> string \<Rightarrow> answers \<Rightarrow> run_error option \<times> step list" where
  "run pd e instance_id a =
     (case load pd e of
        Inl err \<Rightarrow> (Some (ConfigFailed err), [])
      | Inr c \<Rightarrow>
          (case an_open a of
             Some msg \<Rightarrow> (Some (OpenFailed msg), [LoggingSet (setup_logging c)])
           | None \<Rightarrow>
               (case an_migrate a of
                  Some msg \<Rightarrow> (Some (MigrateFailed msg),
                    [LoggingSet (setup_logging c), DbOpened (cfg_db_path c), DbClosed])
                | None \<Rightarrow>
                    (case stop_steps c a of
                       (r, steps) \<Rightarrow>
                         (r, start_steps c instance_id @ steps @ [SignalsReleased, DbClosed])))))"

text \<open>The exit status of the process.\<close>

definition main_exit :: "run_error option \<Rightarrow> int" where
  "main_exit r = (if r = None then 0 else 1)"

text \<open>\<open>before x y\<close>: every occurrence of \<open>y\<close> has an \<open>x\<close> before it.\<close>

definition before :: "('a \<Rightarrow> bool) \<Rightarrow> ('a \<Rightarrow> bool) \<Rightarrow> 'a list \<Rightarrow> bool" where
  "before P Q xs \<longleftrightarrow> (\<forall>us y vs. xs = us @ y # vs \<and> Q y \<longrightarrow> (\<exists>u \<in> set us. P u))"

lemma before_Cons: "before P Q (x # xs) \<longleftrightarrow> \<not> Q x \<and> (P x \<or> before P Q xs)"
proof
  assume b: "before P Q (x # xs)"
  have "\<not> Q x" using b [unfolded before_def, rule_format, of "[]" x xs] by auto
  moreover have "before P Q xs" if "\<not> P x"
    unfolding before_def
  proof (intro allI impI)
    fix us y vs
    assume "xs = us @ y # vs \<and> Q y"
    then have "x # xs = (x # us) @ y # vs \<and> Q y" by simp
    with b have "\<exists>u \<in> set (x # us). P u" unfolding before_def by blast
    with that show "\<exists>u \<in> set us. P u" by simp
  qed
  ultimately show "\<not> Q x \<and> (P x \<or> before P Q xs)" by blast
next
  assume a: "\<not> Q x \<and> (P x \<or> before P Q xs)"
  show "before P Q (x # xs)"
    unfolding before_def
  proof (intro allI impI)
    fix us y vs
    assume e: "x # xs = us @ y # vs \<and> Q y"
    with a obtain us' where us: "us = x # us'" "xs = us' @ y # vs" by (cases us) auto
    with a e show "\<exists>u \<in> set us. P u" unfolding before_def by auto
  qed
qed

lemma before_Nil [simp]: "before P Q []"
  by (simp add: before_def)

end
