(* ===== verification/Boot_Laws.thy ===== *)
theory Boot_Laws
  imports Server_Main Db_Handle Migrations
begin

text \<open>
  Properties of starting and stopping: what an accepted configuration guarantees to the worker, the
  order in which the process brings its parts up and down, and the database handle.
\<close>

section \<open>Configuration\<close>

text \<open>
  C39. An accepted configuration can be run: a token and a database are named, the base URL is http or
  https without a slash at its end, and the worker that \<open>run\<close> builds from it polls at a positive
  interval, holds its leases longer than that and claims at least one job.
\<close>

theorem accepted_config:
  assumes "load pd e = Inr c"
  shows "cfg_admin_api_token c \<noteq> [] \<and> cfg_db_path c \<noteq> [] \<and>
    (has_prefix ''http://'' (cfg_public_base_url c) \<or> has_prefix ''https://'' (cfg_public_base_url c)) \<and>
    last (cfg_public_base_url c) \<noteq> CHR ''/'' \<and>
    (let wk = new_worker (main_worker_config c instance_id)
     in 0 < wk_poll wk \<and> wk_poll wk < wk_lease wk \<and> 1 \<le> wk_batch wk \<and> wk_id wk = instance_id)"
proof -
  have v: "validate c = None" using load_Inr(1) [OF assms] .
  then have "cfg_public_base_url c \<noteq> []" by (auto simp: validate_None has_prefix_def)
  with load_Inr(2) [OF assms] v show ?thesis
    by (simp add: validate_None new_worker_def main_worker_config_def)
qed

definition no_duration :: "string \<Rightarrow> int64 option" where
  "no_duration s = (if s = ''2s'' then Some 2000000000 else None)"

definition some_env :: env where
  "some_env = [''ADMIN_API_TOKEN'' \<mapsto> ''secret'', ''SCHEDULER_POLL_INTERVAL'' \<mapsto> ''2s'',
     ''PUBLIC_BASE_URL'' \<mapsto> ''https://example.test//'']"

theorem accepted_config_witness:
  "\<exists>c. load no_duration some_env = Inr c \<and> last (cfg_public_base_url c) \<noteq> CHR ''/'' \<and>
     wk_poll (new_worker (main_worker_config c ''w1'')) < wk_lease (new_worker (main_worker_config c ''w1''))"
proof -
  have "case load no_duration some_env of Inl e \<Rightarrow> False | Inr c \<Rightarrow> True" by code_simp
  then obtain c where c: "load no_duration some_env = Inr c" by (auto split: sum.splits)
  with accepted_config [OF c, of "''w1''"] show ?thesis by (auto simp: Let_def)
qed

section \<open>The process\<close>

definition is_opened :: "step \<Rightarrow> bool" where
  "is_opened s \<longleftrightarrow> (case s of DbOpened p \<Rightarrow> True | _ \<Rightarrow> False)"

definition is_serving :: "step \<Rightarrow> bool" where
  "is_serving s \<longleftrightarrow> (case s of WorkerStarted c \<Rightarrow> True | Listening a \<Rightarrow> True | _ \<Rightarrow> False)"

definition is_shutdown :: "step \<Rightarrow> bool" where
  "is_shutdown s \<longleftrightarrow> (case s of ServerShutdown g \<Rightarrow> True | _ \<Rightarrow> False)"

text \<open>
  C38. Order of starting and stopping: the database is open before it is migrated and migrated before
  the worker or the listener starts; after a signal the server stops first, then the worker is
  waited for, and only then the database is closed; whatever happens, an opened database is closed,
  once and as the last step.
\<close>

theorem start_and_stop_order:
  assumes "run pd e instance_id a = (r, steps)"
  shows "before is_opened (\<lambda>s. s = Migrated) steps \<and> before (\<lambda>s. s = Migrated) is_serving steps \<and>
    (an_stop a = SignalReceived \<longrightarrow> before is_shutdown (\<lambda>s. s = WorkerWaited) steps \<and>
       (Migrated \<in> set steps \<longrightarrow> r = None \<and> before (\<lambda>s. s = WorkerWaited) (\<lambda>s. s = DbClosed) steps)) \<and>
    (if \<exists>s \<in> set steps. is_opened s then last steps = DbClosed \<and> count_list steps DbClosed = 1
     else DbClosed \<notin> set steps)"
proof -
  consider (config) err where "load pd e = Inl err"
    | (open_err) c msg where "load pd e = Inr c" "an_open a = Some msg"
    | (migrate) c msg where "load pd e = Inr c" "an_open a = None" "an_migrate a = Some msg"
    | (ended) c r0 where "load pd e = Inr c" "an_open a = None" "an_migrate a = None" "an_stop a = ServerEnded r0"
    | (signal) c where "load pd e = Inr c" "an_open a = None" "an_migrate a = None" "an_stop a = SignalReceived"
    by (cases "load pd e"; cases "an_open a"; cases "an_migrate a"; cases "an_stop a") auto
  then show ?thesis
    by cases (use assms in \<open>auto simp: run_def start_steps_def stop_steps_def before_Cons is_opened_def
        is_serving_def is_shutdown_def\<close>)
qed

definition quiet :: "stop_reason \<Rightarrow> answers" where
  "quiet stop = \<lparr>an_open = None, an_migrate = None, an_stop = stop, an_shutdown_in_time = True\<rparr>"

theorem start_and_stop_order_witness:
  "let steps = snd (run no_duration some_env ''w1'' (quiet SignalReceived))
   in Migrated \<in> set steps \<and> before (\<lambda>s. s = WorkerWaited) (\<lambda>s. s = DbClosed) steps"
proof -
  obtain r steps where run: "run no_duration some_env ''w1'' (quiet SignalReceived) = (r, steps)" by fastforce
  have "Migrated \<in> set (snd (run no_duration some_env ''w1'' (quiet SignalReceived)))" by code_simp
  with start_and_stop_order [OF run] run show ?thesis by (simp add: quiet_def)
qed

text \<open>
  The worker is not always waited for: when the listener ends by itself, a port in use for
  instance, \<open>run\<close> closes the database although the worker was started and nobody waited for it to
  give its claims back.
\<close>

theorem listener_failure_skips_worker:
  assumes "load pd e = Inr c" "cfg_scheduler_on c" "an_open a = None" "an_migrate a = None"
    and "an_stop a = ServerEnded (Some msg)"
  shows "fst (run pd e instance_id a) = Some (ServerFailed msg) \<and>
    WorkerStarted (main_worker_config c instance_id) \<in> set (snd (run pd e instance_id a)) \<and>
    WorkerWaited \<notin> set (snd (run pd e instance_id a)) \<and> DbClosed \<in> set (snd (run pd e instance_id a))"
  using assms by (simp add: run_def start_steps_def stop_steps_def)

theorem listener_failure_skips_worker_witness:
  "WorkerWaited \<notin> set (snd (run no_duration some_env ''w1'' (quiet (ServerEnded (Some ''address in use'')))))"
proof -
  have "case load no_duration some_env of Inl e \<Rightarrow> False | Inr c \<Rightarrow> cfg_scheduler_on c" by code_simp
  then obtain c where "load no_duration some_env = Inr c" "cfg_scheduler_on c" by (auto split: sum.splits)
  from listener_failure_skips_worker [OF this] show ?thesis by (simp add: quiet_def)
qed

section \<open>The database handle\<close>

text \<open>
  C40. Opening the database leaks nothing: when \<open>Open\<close> fails at any of its five steps no pool stays
  open; when it succeeds both are open, the write pool with a single connection whose transactions
  begin immediately, and \<open>Close\<close> closes both.
\<close>

theorem open_leaks_no_pool:
  "case open_db dir_of n a path of
     (Some err, steps) \<Rightarrow> open_pools steps {} = {}
   | (None, steps) \<Rightarrow> open_pools steps {} = {WritePool, ReadPool} \<and>
       OpenedPool WritePool (write_dsn path) 1 \<in> set steps \<and>
       (\<forall>dsn k. OpenedPool WritePool dsn k \<in> set steps \<longrightarrow> dsn = base_dsn path @ ''&_txlock=immediate'' \<and> k = 1) \<and>
       open_pools (steps @ snd (close_db re we)) {} = {}"
  by (auto simp: open_db_def Let_def close_db_def write_dsn_def split: option.split)

theorem open_leaks_no_pool_witness:
  "open_pools (snd (open_db (\<lambda>p. ''data'') 8
     \<lparr>oa_mkdir = None, oa_open_write = None, oa_open_read = None, oa_ping_write = None,
      oa_ping_read = Some ''disk I/O error''\<rparr> ''data/cms.db'')) {} = {}"
proof -
  let ?a = "\<lparr>oa_mkdir = None, oa_open_write = None, oa_open_read = None, oa_ping_write = None,
      oa_ping_read = Some ''disk I/O error''\<rparr>"
  obtain r steps where run: "open_db (\<lambda>p. ''data'') 8 ?a ''data/cms.db'' = (r, steps)" by fastforce
  moreover have "fst (open_db (\<lambda>p. ''data'') 8 ?a ''data/cms.db'') \<noteq> None" by code_simp
  ultimately show ?thesis
    using open_leaks_no_pool [where dir_of = "\<lambda>p. ''data''" and n = 8 and a = ?a and path = "''data/cms.db''"] by (auto split: option.splits)
qed

text \<open>
  The path cannot change the connection's settings: decoding the path part of the connection
  string gives the path back, and the first question mark of the string is the one before the
  pragmas, whatever the path contains.
\<close>

theorem dsn_round_trip:
  "takeWhile (\<lambda>c. c \<noteq> CHR ''?'') (base_dsn path) = ''file:'' @ path_escape path \<and>
   dropWhile (\<lambda>c. c \<noteq> CHR ''?'') (base_dsn path) = ''?'' @ pragmas \<and>
   percent_decode (path_escape path) = path"
proof -
  have ne: "c \<noteq> CHR ''?''" if "c \<in> set (''file:'' @ path_escape path)" for c
    using that path_escape_no_question [of path] by auto
  have dsn: "base_dsn path = (''file:'' @ path_escape path) @ ''?'' @ pragmas"
    by (simp add: base_dsn_def)
  show ?thesis
    unfolding dsn
    using ne percent_decode_escape [of path] by (simp add: takeWhile_append2 dropWhile_append2)
qed

section \<open>Migrations\<close>

text \<open>
  The settings of goose are written once: however many databases a process migrates, rolls back
  or asks for their version, the three settings are written before everything else and never again;
  when writing them failed, every operation reports this failure and none reaches a database, and
  when it succeeded every operation makes its one call and none reports it.
\<close>

theorem goose_configured_once:
  assumes "run_goose_ops (op # ops) fresh_goose = (rs, g)"
  shows "\<exists>cs. g_calls g = [SetBaseFS, SetLogger, SetDialect ''sqlite3''] @ cs \<and>
    set cs \<inter> {SetBaseFS, SetLogger, SetDialect ''sqlite3''} = {} \<and>
    (case dialect_answer op of
       Some e \<Rightarrow> cs = [] \<and> set rs \<subseteq> {Some (ConfigureGoose e)}
     | None \<Rightarrow> length cs = length (op # ops) \<and> (\<forall>e. Some (ConfigureGoose e) \<notin> set rs))"
proof -
  let ?g = "configured (dialect_answer op)"
  have "run_goose_ops (op # ops) ?g = (rs, g)" using assms by (simp only: run_ops_fresh)
  from run_ops_configured [OF _ this] show ?thesis
    by (cases "dialect_answer op") (auto simp: configured_def)
qed

theorem goose_configured_once_witness:
  "let (rs, g) = run_goose_ops [MigrateOp (Some ''unknown dialect'') None, VersionOp None (Inr 1)] fresh_goose
   in set rs = {Some (ConfigureGoose ''unknown dialect'')} \<and> g_calls g = settings"
proof -
  obtain rs g where run: "run_goose_ops [MigrateOp (Some ''unknown dialect'') None, VersionOp None (Inr 1)]
      fresh_goose = (rs, g)" by fastforce
  then have "rs \<noteq> []" by (auto split: prod.splits)
  with goose_configured_once [OF run] have "set rs = {Some (ConfigureGoose ''unknown dialect'')} \<and> g_calls g = settings"
    by (auto simp: subset_singleton_iff)
  with run show ?thesis by simp
qed

end
