(* ===== verification/Sitemap_Laws.thy ===== *)
theory Sitemap_Laws
  imports Public_Laws Wire_Laws
begin

text \<open>
  The sitemap and the pages it leads to, each URL followed through the router. Every slug in the
  database has passed \<open>validate_slug\<close>, which all requests and the worker keep; so the path of a page
  has one segment, and the only one that another route takes is \<open>/healthz\<close>.
\<close>

section \<open>Stored slugs are valid\<close>

definition slugs_ok :: "db \<Rightarrow> bool" where
  "slugs_ok d \<longleftrightarrow> (\<forall>slug \<in> set (map c_slug (contents d)). validate_slug slug = None)"

lemma keeps_slugs:
  assumes "atomic m"
    and "\<And>w x w'. m w = (Inr x, w') \<Longrightarrow> map c_slug (contents (tables w')) = map c_slug (contents (tables w))"
  shows "keeps slugs_ok m"
  unfolding keeps_def
proof (intro allI impI)
  fix w :: world assume ok: "slugs_ok (tables w)"
  then show "slugs_ok (tables (snd (m w)))"
    by (rule atomic_keeps [OF assms(1)]) (use ok assms(2) in \<open>simp add: slugs_ok_def\<close>)
qed

lemma slugs_set_pointer [simp]:
  "map c_slug (contents (set_pointer cid ptr now d)) = map c_slug (contents d)"
  by (simp add: set_pointer_def map_update_where)

lemma slugs_bump_version [simp]:
  "map c_slug (contents (bump_version cid expected now d)) = map c_slug (contents d)"
  by (simp add: bump_version_def map_update_where)

lemma keeps_slugs_store [keeps_intros]:
  "keeps slugs_ok (update_content cid expected f actor now)"
  "keeps slugs_ok (publish p)"
  "keeps slugs_ok (unpublish cid actor now)"
  "keeps slugs_ok (create_schedule sid cid vid run_at now)"
  "keeps slugs_ok (cancel_schedule sid now)"
  "keeps slugs_ok (claim_due_schedules pl worker now exp limit)"
  "keeps slugs_ok (fail_schedule sid worker reason now)"
  "keeps slugs_ok (release_claims worker now)"
  by (rule keeps_slugs, intro atomic_intros atomic_content_writes atomic_publish,
      auto split: if_splits dest!: update_content_effect publish_effect unpublish_effect
        create_schedule_effect cancel_schedule_effect claim_effect fail_effect release_effect)+

lemma keeps_slugs_complete [keeps_intros]: "keeps slugs_ok (complete_scheduled_publish j worker now)"
proof (rule keeps_slugs [OF atomic_complete])
  fix w b w' assume run: "complete_scheduled_publish j worker now w = (Inr b, w')"
  then show "map c_slug (contents (tables w')) = map c_slug (contents (tables w))"
    using complete_tx_cases [OF run] complete_effect [of j worker now w w'] by (cases b) auto
qed

text \<open>The one write that brings a slug is behind its validation.\<close>

lemma keeps_slugs_service [keeps_intros]:
  "keeps slugs_ok (service_create uuid i)"
  "keeps slugs_ok (service_update ui)"
  "keeps slugs_ok (service_publish cid ver actor)"
  "keeps slugs_ok (service_unpublish cid actor)"
  "keeps slugs_ok (service_schedule uuid si)"
  "keeps slugs_ok (service_cancel_schedule sid)"
proof -
  show "keeps slugs_ok (service_create uuid i)"
    unfolding keeps_def
  proof (intro allI impI)
    fix w :: world assume ok: "slugs_ok (tables w)"
    then show "slugs_ok (tables (snd (service_create uuid i w)))"
      by (rule atomic_keeps [OF atomic_service(1)])
        (use ok in \<open>fastforce simp: slugs_ok_def new_content_def dest!: service_create_effect create_content_effect\<close>)
  qed
qed (auto simp: service_update_def service_publish_def service_unpublish_def
      service_schedule_def service_cancel_schedule_def Let_def intro!: keeps_intros split: option.split)

lemma keeps_slugs_admin [h_intros]:
  "h_keeps slugs_ok (handle_create_content sv req)"
  "h_keeps slugs_ok (handle_update_content sv cid req)"
  "h_keeps slugs_ok (handle_publish sv cid req)"
  "h_keeps slugs_ok (handle_unpublish cid req)"
  "h_keeps slugs_ok (handle_create_schedule sv cid req)"
  "h_keeps slugs_ok (handle_cancel_schedule sid)"
  by (auto simp: handle_create_content_def handle_update_content_def update_with_def handle_publish_def
      handle_unpublish_def handle_create_schedule_def handle_cancel_schedule_def
      intro!: h_intros keeps_intros h_keeps_expected_version keeps_readonly [OF readonly_to_schedule_dto]
      split: sum.split option.split)

text \<open>Whatever is requested, and whatever the driver does, the slugs stay valid; so does a worker.\<close>

lemma serve_keeps_slugs: "h_keeps slugs_ok (serve pick miss sv req)"
proof (cases "pick (rq_method req) (rq_path req)")
  case None
  then show ?thesis by (simp add: serve_def h_intros)
next
  case (Some x)
  have "h_keeps slugs_ok (dispatch sv e ps req)" for e ps
    by (cases e) (simp_all add: h_intros h_keeps_readonly)
  with Some show ?thesis
    by (cases x) (simp add: serve_def Let_def require_bearer_token_def h_intros)
qed

lemma keeps_attempt: "keeps I m \<Longrightarrow> keeps I (io_attempt m)"
  by (auto simp: keeps_def io_attempt_def split: prod.split)

lemma keeps_each: "(\<And>x. keeps I (f x)) \<Longrightarrow> keeps I (io_each f xs)"
  by (induction xs) (auto intro!: keeps_intros)

lemma worker_keeps_slugs:
  "keeps slugs_ok (execute drv wk j)" "keeps slugs_ok (tick drv pl wk)" "keeps slugs_ok (shutdown wk)"
proof -
  show ex: "keeps slugs_ok (execute drv wk j)" for j
    by (auto simp: execute_def intro!: keeps_intros keeps_attempt split: sum.split)
  show "keeps slugs_ok (tick drv pl wk)"
    by (auto simp: tick_def intro!: keeps_intros keeps_attempt keeps_each ex
        keeps_readonly [OF readonly_clk_now] split: sum.split)
  show "keeps slugs_ok (shutdown wk)"
    by (auto simp: shutdown_def intro!: keeps_intros keeps_attempt split: sum.split)
qed

section \<open>The routes of a site's pages\<close>

lemma path_page: "CHR ''/'' \<notin> set s \<Longrightarrow> path_segments (CHR ''/'' # s) = [s]"
  by (simp add: path_segments_def split_at_no_sep)

abbreviation health_route :: route where
  "health_route \<equiv> route False ''GET'' [Fixed ''healthz''] EHealth"

abbreviation sitemap_route :: route where
  "sitemap_route \<equiv> route False ''GET'' [Fixed ''sitemap.xml''] ESitemap"

abbreviation page_route :: route where
  "page_route \<equiv> route False ''GET'' [Param ''slug''] EHtmlPage"

context chi
begin

text \<open>A static route is taken when every other match has a parameter in its place.\<close>

lemma static_route:
  assumes "rt \<in> set routes" "route_params m path rt = Some []"
    and "\<forall>rt' \<in> set routes. route_params m path rt' \<noteq> None \<longrightarrow>
      rt' = rt \<or> static_first (rt_pattern rt) (rt_pattern rt')"
  shows "pick m path = Some (rt, [])"
proof -
  obtain rt' ps' where p: "pick m path = Some (rt', ps')" using complete [OF assms(1,2)] by auto
  have "\<not> static_first (rt_pattern rt) (rt_pattern rt')"
    using static [OF p assms(1)] assms(2) by simp
  with sound [OF p] assms(3) have "rt' = rt" by fastforce
  with sound [OF p] assms(2) p show ?thesis by simp
qed

lemma pick_health: "pick ''GET'' ''/healthz'' = Some (health_route, [])"
  by (rule static_route) code_simp+

lemma pick_sitemap: "pick ''GET'' ''/sitemap.xml'' = Some (sitemap_route, [])"
  by (rule static_route) code_simp+

lemma pick_page:
  assumes "path_segments path = [slug]" "slug \<noteq> []" "slug \<notin> {''healthz'', ''robots.txt'', ''sitemap.xml''}"
  shows "pick ''GET'' path = Some (page_route, [(''slug'', slug)])"
  by (rule only_route)
    (use assms in \<open>simp_all add: route_params_def assms(2) [symmetric] route_table\<close>)

end

section \<open>Sitemap and pages\<close>

lemma public_of_join:
  assumes nf: "faults w = []" and ok: "db_ok (tables w)" and cv: "(c, v) \<in> set (published_join (tables w))"
  shows "service_get_public_by_slug (c_slug c) w = (Inr (public_of c v), w)"
proof -
  have c: "c \<in> set (contents (tables w))" and v: "v \<in> set (versions (tables w))"
    and ptr: "c_published_version_id c = Some (v_id v)"
    using cv by (simp_all add: published_join_iff)
  have "distinct (map c_slug (contents (tables w)))" using ok by (simp add: db_ok_def contents_ok_def)
  from row_with_Some_iff [OF this] c have "row_with c_slug (c_slug c) (contents (tables w)) = Some c" by simp
  moreover have "find_version (tables w) (v_id v) = Some v" using v ok by (simp add: db_ok_find_version)
  ultimately show ?thesis
    using ptr by (simp add: service_get_public_by_slug_def get_public_nofault [OF ok nf])
qed

definition indexable :: "db \<Rightarrow> (content_row \<times> version_row) list" where
  "indexable d = filter (\<lambda>(c, v). \<not> f_noindex (v_fields v)) (published_join d)"

lemma sitemap_entries_nofault:
  assumes "faults w = []" "int (length (indexable (tables w))) \<le> limit"
  shows "list_sitemap_entries limit w =
    (Inr (map sitemap_entry_of (order_desc public_order (indexable (tables w)))), w)"
proof -
  have "length (order_desc public_order (indexable (tables w))) = length (indexable (tables w))"
    by (simp add: order_desc_def)
  with assms(2) have all: "sql_limit limit (order_desc public_order (indexable (tables w))) =
      order_desc public_order (indexable (tables w))"
    by (simp add: sql_limit_all)
  show ?thesis
    unfolding list_sitemap_entries_def
    by (subst query_rows_nofault [OF assms(1), where f = sitemap_entry_of])
      (simp_all add: io_return_def all [unfolded indexable_def] indexable_def)
qed

lemma indexable_locs_distinct:
  assumes ok: "db_ok d"
  shows "distinct (map (\<lambda>(c, v). public_url sv (c_slug c)) (indexable d))"
proof -
  have "distinct (map c_slug (filter is_published (contents d)))"
    using ok by (simp add: db_ok_def contents_ok_def distinct_map_filter)
  then have "distinct (map (\<lambda>(c, v). c_slug c) (published_join d))"
    by (simp add: map_fst_published_join [OF ok, unfolded published_contents_def, symmetric] comp_def
        case_prod_unfold)
  then have "distinct (map (\<lambda>(c, v). c_slug c) (indexable d))"
    unfolding indexable_def by (rule distinct_map_filter)
  moreover have "inj (public_url sv)" by (simp add: inj_def public_url_def)
  ultimately have "distinct (map (public_url sv) (map (\<lambda>(c, v). c_slug c) (indexable d)))"
    by (metis distinct_map inj_on_subset subset_UNIV)
  then show ?thesis by (simp add: comp_def case_prod_unfold)
qed

text \<open>What a crawler without a cached copy gets for a path of the site.\<close>

definition crawl :: "picker \<Rightarrow> (http_request \<Rightarrow> http_response) \<Rightarrow> server \<Rightarrow> http_request \<Rightarrow> world \<Rightarrow>
    string \<Rightarrow> http_response" where
  "crawl pick miss sv req w path =
     fst (serve pick miss sv (req\<lparr>rq_method := ''GET'', rq_path := path\<rparr>) w)"

definition site_path :: "content_row \<Rightarrow> string" where
  "site_path c = CHR ''/'' # c_slug c"

lemma url_path: "public_url sv (c_slug c) = cfg_public_base_url (sv_cfg sv) @ site_path c"
  by (simp add: public_url_def site_path_def)

lemma crawl_page:
  fixes miss
  assumes chi: "chi pick" and nf: "faults w = []" and ok: "db_ok (tables w)" "slugs_ok (tables w)"
    and cv: "(c, v) \<in> set (indexable (tables w))" "c_slug c \<noteq> ''healthz''"
    and req: "rq_header req ''If-None-Match'' = []" and render: "\<forall>pg. sv_render_ok sv pg"
  defines "r \<equiv> crawl pick miss sv req w (site_path c)"
  shows "rs_status r = 200 \<and> rs_body r = HtmlPage (build_page_data sv (public_of c v)) \<and>
    service_get_public_by_slug (c_slug c) w = (Inr (public_of c v), w)"
proof -
  from cv have j: "(c, v) \<in> set (published_join (tables w))" by (simp add: indexable_def)
  then have "validate_slug (c_slug c) = None"
    using ok(2) by (simp add: slugs_ok_def published_join_iff)
  then have s: "c_slug c \<noteq> []" "\<forall>x \<in> set (c_slug c). slug_char x \<or> x = hyphen"
    using slug_scan_chars by (auto simp: validate_slug_None)
  then have "CHR ''/'' \<notin> set (c_slug c)" "CHR ''.'' \<notin> set (c_slug c)"
    by (auto simp: slug_char_def hyphen_def between_def byte_of_def)
  then have "c_slug c \<notin> {''healthz'', ''robots.txt'', ''sitemap.xml''}" "path_segments (site_path c) = [c_slug c]"
    using cv(2) by (auto simp: site_path_def path_page)
  from chi.pick_page [OF chi this(2) s(1) this(1)] public_of_join [OF nf ok(1) j] req render show ?thesis
    by (simp add: r_def crawl_def serve_def route_def url_param_def handle_html_page_def check_def
        serve_conditional_def respond_def if_none_match_matches_def)
qed

text \<open>The slug that is not served: its page is behind the health check.\<close>

lemma crawl_health:
  assumes "chi pick" "faults w = []"
  shows "\<exists>b. rs_status (crawl pick miss sv req w ''/healthz'') = 200 \<and>
    rs_body (crawl pick miss sv req w ''/healthz'') = HealthBody b"
proof -
  obtain t w' where "clk_now w = (Inr t, w')" using clk_now_effect by (metis surj_pair)
  then show ?thesis
    using assms by (simp add: crawl_def serve_def chi.pick_health route_def handle_health_def check_def
        driver_call_nofault respond_def write_json_def)
qed

lemma crawl_sitemap:
  fixes miss sv
  assumes "chi pick" and nf: "faults w = []" and fit: "int (length (indexable (tables w))) \<le> max_sitemap_urls"
    and req: "rq_header req ''If-None-Match'' = []"
  defines "r \<equiv> crawl pick miss sv req w ''/sitemap.xml''"
  shows "rs_status r = 200 \<and> rs_body r = Sitemap \<lparr>us_xmlns = ''http://www.sitemaps.org/schemas/sitemap/0.9'',
    us_urls = map (sitemap_url_of sv) (map sitemap_entry_of (order_desc public_order (indexable (tables w))))\<rparr>"
proof -
  obtain latest where "latest_published_at w = (Inr latest, w)"
    using nf by (simp add: latest_published_at_def io_bind_def map_err_def io_catch_def sql_query_nofault
        io_return_def)
  then show ?thesis
    using assms(1) sitemap_entries_nofault [OF nf fit] req
    by (simp add: r_def crawl_def serve_def chi.pick_sitemap route_def handle_sitemap_def check_def
        serve_conditional_def respond_def if_none_match_matches_def)
qed

text \<open>
  C31. The sitemap: with at most 50000 entries it lists, each once, exactly the published documents
  that are not marked noindex. Each of its URLs is the base URL and the path of such a document, and a
  crawler that requests this path from the router gets the document's HTML page, which does not
  forbid indexing and names this URL as canonical unless its author gave another; with one
  exception, the path \<open>/healthz\<close>, where the health check answers in place of the page. This is without
  driver failures and with a template that renders, for slugs that passed validation, as all have that
  requests and workers leave behind (\<open>serve_keeps_slugs\<close>, \<open>worker_keeps_slugs\<close>).
\<close>

theorem sitemap_leads_to_pages:
  assumes "chi pick" and nf: "faults w = []" and ok: "db_ok (tables w)" "slugs_ok (tables w)"
    and fit: "int (length (indexable (tables w))) \<le> max_sitemap_urls"
    and req: "rq_header req ''If-None-Match'' = []" and render: "\<forall>pg. sv_render_ok sv pg"
  shows "\<exists>us. rs_status (crawl pick miss sv req w ''/sitemap.xml'') = 200 \<and>
    rs_body (crawl pick miss sv req w ''/sitemap.xml'') = Sitemap us \<and>
    mset (map su_loc (us_urls us)) = mset (map (\<lambda>(c, v). public_url sv (c_slug c)) (indexable (tables w))) \<and>
    distinct (map su_loc (us_urls us)) \<and>
    (\<forall>u \<in> set (us_urls us). \<exists>c v. (c, v) \<in> set (indexable (tables w)) \<and>
       su_loc u = cfg_public_base_url (sv_cfg sv) @ site_path c \<and>
       (if site_path c = ''/healthz''
        then \<exists>b. rs_body (crawl pick miss sv req w (site_path c)) = HealthBody b
        else \<exists>pg. rs_status (crawl pick miss sv req w (site_path c)) = 200 \<and>
          rs_body (crawl pick miss sv req w (site_path c)) = HtmlPage pg \<and>
          pg_heading pg = f_title (v_fields v) \<and> pg_body pg = f_body (v_fields v) \<and> \<not> pg_noindex pg \<and>
          pg_canonical_url pg = (if f_canonical_url (v_fields v) = [] then su_loc u
                                 else f_canonical_url (v_fields v))))"
proof -
  let ?rows = "order_desc public_order (indexable (tables w))"
  let ?urls = "map (sitemap_url_of sv) (map sitemap_entry_of ?rows)"
  note site = crawl_sitemap [OF assms(1) nf fit req, where miss = miss and sv = sv]
  have locs: "map su_loc ?urls = map (\<lambda>(c, v). public_url sv (c_slug c)) ?rows"
    by (simp add: sitemap_url_of_def sitemap_entry_of_def case_prod_unfold)
  have perm: "mset ?rows = mset (indexable (tables w))" by (simp add: order_desc_def)
  have dist: "distinct (map (\<lambda>(c, v). public_url sv (c_slug c)) ?rows)"
    using perm indexable_locs_distinct [OF ok(1), of sv] by (metis mset_eq_imp_distinct_iff mset_map)
  have page: "\<exists>c v. (c, v) \<in> set (indexable (tables w)) \<and>
       su_loc u = cfg_public_base_url (sv_cfg sv) @ site_path c \<and>
       (if site_path c = ''/healthz''
        then \<exists>b. rs_body (crawl pick miss sv req w (site_path c)) = HealthBody b
        else \<exists>pg. rs_status (crawl pick miss sv req w (site_path c)) = 200 \<and>
          rs_body (crawl pick miss sv req w (site_path c)) = HtmlPage pg \<and>
          pg_heading pg = f_title (v_fields v) \<and> pg_body pg = f_body (v_fields v) \<and> \<not> pg_noindex pg \<and>
          pg_canonical_url pg = (if f_canonical_url (v_fields v) = [] then su_loc u
                                 else f_canonical_url (v_fields v)))" if "u \<in> set ?urls" for u
  proof -
    from that obtain c v where cv: "(c, v) \<in> set (indexable (tables w))" "u = sitemap_url_of sv (sitemap_entry_of (c, v))"
      using perm by (auto dest: mset_eq_setD)
    then have "\<not> f_noindex (v_fields v)" "su_loc u = public_url sv (c_slug c)"
      by (auto simp: indexable_def sitemap_url_of_def sitemap_entry_of_def)
    then show ?thesis
      using crawl_page [OF assms(1) nf ok cv(1) _ req render, of miss] crawl_health [OF assms(1) nf] cv(1)
      by (intro exI [of _ c] exI [of _ v])
        (auto simp: build_page_data_def Let_def public_of_def url_path site_path_def)
  qed
  show ?thesis
    using site locs perm dist page by (intro exI [of _ "\<lparr>us_xmlns = _, us_urls = ?urls\<rparr>"]) (simp del: map_map)
qed

theorem sitemap_leads_to_pages_witness:
  "\<exists>us u pg. rs_body (crawl first_route no_route some_server (get_hello []) (world_of edited_db 0) ''/sitemap.xml'')
       = Sitemap us \<and>
     us_urls us = [u] \<and> su_loc u = ''https://example.test/hello'' \<and>
     rs_body (crawl first_route no_route some_server (get_hello []) (world_of edited_db 0) ''/hello'') = HtmlPage pg"
proof -
  let ?w = "world_of edited_db 0"
  have ok: "db_ok (tables ?w)" using reachable_db_ok [OF reachable_edited] by simp
  have slugs: "slugs_ok (tables ?w)" unfolding edited_db_eq by code_simp
  have one: "map (\<lambda>(c, v). public_url some_server (c_slug c)) (indexable (tables ?w)) = [''https://example.test/hello'']"
    "map (\<lambda>(c, v). site_path c) (indexable (tables ?w)) = [''/hello'']"
    "int (length (indexable (tables ?w))) \<le> max_sitemap_urls"
    unfolding edited_db_eq by code_simp+
  have "rq_header (get_hello []) ''If-None-Match'' = []" "\<forall>pg. sv_render_ok some_server pg"
    by (code_simp, simp add: some_server_def)
  from sitemap_leads_to_pages [OF first.chi_axioms _ ok slugs one(3) this, of no_route] obtain us where
    us: "rs_body (crawl first_route no_route some_server (get_hello []) ?w ''/sitemap.xml'') = Sitemap us"
      "mset (map su_loc (us_urls us)) =
        mset (map (\<lambda>(c, v). public_url some_server (c_slug c)) (indexable (tables ?w)))" and
    pages: "\<forall>u \<in> set (us_urls us). \<exists>c v. (c, v) \<in> set (indexable (tables ?w)) \<and>
       (site_path c \<noteq> ''/healthz'' \<longrightarrow>
        (\<exists>pg. rs_body (crawl first_route no_route some_server (get_hello []) ?w (site_path c)) = HtmlPage pg))"
    by (simp only: world_of_sel) metis
  have "mset (map su_loc (us_urls us)) = {#''https://example.test/hello''#}" using us(2) unfolding one(1) by simp
  then have "map su_loc (us_urls us) = [''https://example.test/hello'']" by (simp only: mset_single_iff)
  then obtain u where u: "us_urls us = [u]" "su_loc u = ''https://example.test/hello''" by auto
  from pages u(1) obtain c v where cv: "(c, v) \<in> set (indexable (tables ?w))" "site_path c \<noteq> ''/healthz'' \<longrightarrow>
      (\<exists>pg. rs_body (crawl first_route no_route some_server (get_hello []) ?w (site_path c)) = HtmlPage pg)" by auto
  have "site_path c \<in> set (map (\<lambda>(c, v). site_path c) (indexable (tables ?w)))" using cv(1) by force
  then have "site_path c = ''/hello''" unfolding one(2) by simp
  with us(1) u cv(2) show ?thesis by auto
qed

end
