(* ===== verification/Divergences.thy ===== *)
theory Divergences
  imports Sitemap_Laws
begin

text \<open>
  Behaviour of the code that its comments or its purpose do not lead one to expect, each shown on a
  concrete history.
\<close>

section \<open>The validator of the public list\<close>

text \<open>
  Two documents are published, the first at 3 and the second at 20; the first is then unpublished.
  The list has lost an item, and its validator, the largest \<open>updated_at\<close> of what is published, is
  the same: a client that sends it gets a 304 and keeps showing the withdrawn document.
\<close>

definition two_published :: db where
  "two_published = fold after
     [CreateRequest ''d2'' ''world'' (draft ''World'') ''ana'' 10, PublishRequest ''d2'' 3 ''ana'' 20] edited_db"

definition one_withdrawn :: db where
  "one_withdrawn = after (UnpublishRequest ''d1'' ''ana'' 30) two_published"

lemma withdrawn_history:
  "map c_id (published_contents two_published) = [''d1'', ''d2'']"
  "map c_id (published_contents one_withdrawn) = [''d2'']"
  "latest_published_at (world_of two_published 0) = (Inr 20, world_of two_published 0)"
  "latest_published_at (world_of one_withdrawn 0) = (Inr 20, world_of one_withdrawn 0)"
  by code_simp+

lemma stale_list_validator:
  assumes "rq_header req ''If-None-Match'' = content_etag 20" "parse_pagination req = Inr (20, 0)"
  shows "rs_status (fst (handle_public_list req (world_of one_withdrawn 0))) = 304"
proof -
  have "content_etag 20 = tag_list [(False, 20)]" by (simp add: content_etag_def format_etag_def)
  then have "if_none_match_matches (content_etag 20) (content_etag 20)"
    using if_none_match_tag_list [of "[(False, 20)]" 20] by (simp add: content_etag_def format_etag_def)
  then show ?thesis
    using assms service_list_public_nofault [of "world_of one_withdrawn 0" 20 0]
    by (simp add: handle_public_list_def check_input_def check_def withdrawn_history serve_conditional_def
        respond_def not_modified_def)
qed

section \<open>The validator of a public document\<close>

text \<open>An edit of the draft changes the tag of the published representation, which did not change.\<close>

lemma draft_edit_changes_public_tag:
  "map_option p_updated_at (case fst (service_get_public_by_slug ''hello'' (world_of edited_db 0)) of
     Inl e \<Rightarrow> None | Inr p \<Rightarrow> Some p) = Some 3"
  "map_option p_updated_at (case fst (service_get_public_by_slug ''hello''
     (world_of (after (UpdateRequest ''d1'' 2 (draft ''three'') ''bo'' 50) edited_db) 0)) of
     Inl e \<Rightarrow> None | Inr p \<Rightarrow> Some p) = Some 50"
  by code_simp+

section \<open>The tag of the administrative view\<close>

text \<open>
  Two answers to GET with the same strong tag are not byte for byte the same: a publish in between
  changes status and published version and leaves the tag.
\<close>

lemma same_tag_different_body:
  "\<exists>dto dto'. handle_get_content ''d1'' (world_of edited_db 0) =
       (write_json (set_etag 2 []) 200 (ContentBody dto), world_of edited_db 0) \<and>
     handle_get_content ''d1'' (world_of ticked_db 0) =
       (write_json (set_etag 2 []) 200 (ContentBody dto'), world_of ticked_db 0) \<and>
     cd_published_version dto = Some 1 \<and> cd_published_version dto' = Some 2"
proof -
  have ok: "db_ok edited_db" "db_ok ticked_db"
    using reachable_db_ok [OF reachable_edited] reachable_db_ok [OF reachable_ticked] by simp_all
  have "find_content edited_db ''d1'' = Some (doc1 2 (Some 1) (Some 3) 3)"
    "live_version edited_db (doc1 2 (Some 1) (Some 3) 3) = Some 1"
    unfolding edited_db_eq by code_simp+
  moreover have "find_content ticked_db ''d1'' = Some (doc1 2 (Some 2) (Some 100) 100)"
    "live_version ticked_db (doc1 2 (Some 2) (Some 100) 100) = Some 2"
    unfolding ticked_db_eq by code_simp+
  moreover have "c_current_version (doc1 2 ptr at upd) = 2" for ptr at upd
    by (simp add: doc1_def)
  ultimately have
    "handle_get_content ''d1'' (world_of edited_db 0) = (write_json (set_etag 2 []) 200
       (ContentBody (to_content_dto \<lparr>cv_content = doc1 2 (Some 1) (Some 3) 3,
          cv_version = last (history edited_db ''d1'')\<rparr> (Some 1))), world_of edited_db 0)"
    "handle_get_content ''d1'' (world_of ticked_db 0) = (write_json (set_etag 2 []) 200
       (ContentBody (to_content_dto \<lparr>cv_content = doc1 2 (Some 2) (Some 100) 100,
          cv_version = last (history ticked_db ''d1'')\<rparr> (Some 2))), world_of ticked_db 0)"
    using ok get_content_run [of "world_of edited_db 0" "''d1''"] get_content_run [of "world_of ticked_db 0" "''d1''"]
    by simp_all
  then show ?thesis
    by (intro exI conjI) (assumption | simp add: to_content_dto_def Let_def)+
qed

section \<open>Totals of the version list\<close>

text \<open>The total of a page of versions is the size of the page, not of the history.\<close>

lemma version_list_total:
  assumes "faults w = []" "db_ok (tables w)" "find_content (tables w) cid = Some c"
    and "parse_pagination req = Inr (limit, offset)"
  shows "\<exists>items. rs_body (fst (handle_list_versions cid req w)) = VersionList
    \<lparr>lr_items = items, lr_total = min limit (max 0 (c_current_version c - offset)), lr_limit = limit,
     lr_offset = offset\<rparr>"
proof -
  have b: "1 \<le> limit" "0 \<le> offset" using parse_pagination_bounds [OF assms(4)] by auto
  let ?vs = "sql_limit limit (sql_offset offset (rev (history (tables w) cid)))"
  have "int (length ?vs) = min limit (max 0 (c_current_version c - offset))"
    using b history_length [OF assms(2,3)] by (simp add: sql_limit_def sql_offset_def)
  then show ?thesis
    using list_versions_nofault [OF assms(1,2), of cid limit offset] assms(3,4)
    by (simp add: handle_list_versions_def check_input_def check_def respond_def write_json_def)
qed

section \<open>A slug that is never served\<close>

text \<open>\<open>healthz\<close> is a valid slug, and its page is behind the health check, whatever the tables hold.\<close>

lemma healthz_shadowed:
  assumes "chi pick" "faults w = []"
  shows "validate_slug ''healthz'' = None \<and>
    (\<exists>b. rs_body (crawl pick miss sv req w (CHR ''/'' # ''healthz'')) = HealthBody b)"
proof
  show "validate_slug ''healthz'' = None" by code_simp
  show "\<exists>b. rs_body (crawl pick miss sv req w (CHR ''/'' # ''healthz'')) = HealthBody b"
    using crawl_health [OF assms] by blast
qed

end
