(* ===== verification/Middleware.thy ===== *)
theory Middleware
  imports Router
begin

text \<open>
  \<open>internal/httpapi/middleware.go\<close> around any handler, also one that panics. A handler works on a
  response writer: headers set so far, the status and headers once they are sent, and the bodies
  written. It finishes or panics; what it has sent by then cannot be taken back. The recovering and
  the logging middleware are stacked as \<open>Server.Routes\<close> stacks them. Log lines are values, their
  rendering and the duration they carry are not modelled.
\<close>

section \<open>Response writers\<close>

record writer =
  wr_header :: header
  wr_sent :: "(int \<times> header) option"
  wr_bodies :: "payload list"

definition fresh_writer :: writer where
  "fresh_writer = \<lparr>wr_header = [], wr_sent = None, wr_bodies = []\<rparr>"

definition writer_set :: "string \<Rightarrow> string \<Rightarrow> writer \<Rightarrow> writer" where
  "writer_set k v x = x\<lparr>wr_header := set_header k v (wr_header x)\<rparr>"

text \<open>\<open>WriteHeader\<close>: only the first call counts, and it takes a copy of the headers.\<close>

definition write_status :: "int \<Rightarrow> writer \<Rightarrow> writer" where
  "write_status status x =
     (case wr_sent x of Some _ \<Rightarrow> x | None \<Rightarrow> x\<lparr>wr_sent := Some (status, wr_header x)\<rparr>)"

text \<open>\<open>Write\<close> sends status 200 first when none was sent.\<close>

definition write_body :: "payload \<Rightarrow> writer \<Rightarrow> writer" where
  "write_body p x = (let y = write_status 200 x in y\<lparr>wr_bodies := wr_bodies y @ [p]\<rparr>)"

definition write_error_to :: "int \<Rightarrow> string \<Rightarrow> string \<Rightarrow> writer \<Rightarrow> writer" where
  "write_error_to status code msg x =
     write_body (ErrorBody code msg [])
       (write_status status (writer_set ''Content-Type'' ''application/json; charset=utf-8'' x))"

section \<open>Handlers that may panic\<close>

datatype panic = AbortHandler | PanicValue string

datatype outcome = Finished writer | Panicked panic writer

datatype log_line =
    PanicInHandler string string string
  | RequestLine string string int nat

type_synonym raw_handler = "http_request \<Rightarrow> writer \<Rightarrow> world \<Rightarrow> outcome \<times> world \<times> log_line list"

definition recoverer :: "raw_handler \<Rightarrow> raw_handler" where
  "recoverer next req x w =
     (case next req x w of
        (Finished y, w1, ls) \<Rightarrow> (Finished y, w1, ls)
      | (Panicked p y, w1, ls) \<Rightarrow>
          (case p of
             AbortHandler \<Rightarrow> (Panicked AbortHandler y, w1, ls)
           | PanicValue v \<Rightarrow>
               (Finished (write_error_to 500 code_internal ''An internal error occurred.'' y), w1,
                ls @ [PanicInHandler (rq_method req) (rq_path req) v])))"

text \<open>
  The wrapped writer of chi reports the status that was sent, 0 when none was. \<open>bytes\<close> is the number
  of bytes of the bodies. A panic passes through before the line is written.
\<close>

definition writer_status :: "writer \<Rightarrow> int" where
  "writer_status x = (case wr_sent x of None \<Rightarrow> 0 | Some (st, h) \<Rightarrow> st)"

definition request_logger :: "(payload list \<Rightarrow> nat) \<Rightarrow> raw_handler \<Rightarrow> raw_handler" where
  "request_logger bytes next req x w =
     (case next req x w of
        (Finished y, w1, ls) \<Rightarrow>
          (Finished y, w1, ls @ [RequestLine (rq_method req) (rq_path req) (writer_status y) (bytes (wr_bodies y))])
      | (Panicked p y, w1, ls) \<Rightarrow> (Panicked p y, w1, ls))"

text \<open>The stack of \<open>Server.Routes\<close>; the request id that the first one adds appears in the log only.\<close>

definition with_middleware :: "(payload list \<Rightarrow> nat) \<Rightarrow> raw_handler \<Rightarrow> raw_handler" where
  "with_middleware bytes h = recoverer (request_logger bytes h)"

section \<open>The handlers of the program\<close>

text \<open>A response as the calls on the writer that produce it.\<close>

definition write_response :: "http_response \<Rightarrow> writer \<Rightarrow> writer" where
  "write_response r x =
     (let y = write_status (rs_status r) (x\<lparr>wr_header := rs_header r @ wr_header x\<rparr>)
      in if rs_body r = NoContent then y else write_body (rs_body r) y)"

definition raw :: "(http_request \<Rightarrow> handler) \<Rightarrow> raw_handler" where
  "raw h req x w = (case h req w of (r, w1) \<Rightarrow> (Finished (write_response r x), w1, []))"

text \<open>
  What the client gets: status 200 when the handler returned without sending one, and no complete
  response after an abort, when \<open>net/http\<close> closes the connection.
\<close>

definition received :: "writer \<Rightarrow> int \<times> header \<times> payload list" where
  "received x =
     (case wr_sent x of None \<Rightarrow> (200, wr_header x, []) | Some (st, h) \<Rightarrow> (st, h, wr_bodies x))"

fun client_sees :: "outcome \<Rightarrow> (int \<times> header \<times> payload list) option" where
  "client_sees (Finished x) = Some (received x)"
| "client_sees (Panicked p x) = None"

text \<open>
  The end of \<open>handleSitemap\<close> on a writer: whether the XML header could be written, and what was
  written when the encoder failed (\<open>None\<close>: it did not fail, and header and document are the body).
\<close>

definition write_sitemap :: "bool \<Rightarrow> payload list option \<Rightarrow> int64 \<Rightarrow> urlset \<Rightarrow> writer \<Rightarrow> writer" where
  "write_sitemap header_ok failed_after latest doc x =
     (let y = write_status 200 (writer_set ''Content-Type'' ''application/xml; charset=utf-8''
                (x\<lparr>wr_header := set_public_cache_headers latest (wr_header x)\<rparr>))
      in if \<not> header_ok then y
         else case failed_after of
             None \<Rightarrow> write_body (Sitemap doc) y
           | Some written \<Rightarrow>
               write_error_to 500 code_internal ''An internal error occurred.'' (fold write_body written y))"

section \<open>Facts\<close>

lemma write_error_to_unsent:
  "wr_sent x = None \<Longrightarrow> received (write_error_to st code msg x) =
     (st, set_header ''Content-Type'' ''application/json; charset=utf-8'' (wr_header x),
       wr_bodies x @ [ErrorBody code msg []])"
  by (simp add: write_error_to_def write_body_def write_status_def writer_set_def received_def Let_def)

lemma write_error_to_sent:
  "wr_sent x = Some (st', h) \<Longrightarrow> received (write_error_to st code msg x) =
     (st', h, wr_bodies x @ [ErrorBody code msg []])"
  by (simp add: write_error_to_def write_body_def write_status_def writer_set_def received_def Let_def)

lemma write_response_fresh:
  "received (write_response r fresh_writer) =
     (rs_status r, rs_header r, if rs_body r = NoContent then [] else [rs_body r])"
  by (simp add: write_response_def write_status_def write_body_def fresh_writer_def received_def Let_def)

lemma bodies_sent:
  "wr_sent x = Some s \<Longrightarrow> wr_sent (fold write_body ps x) = Some s \<and>
   wr_bodies (fold write_body ps x) = wr_bodies x @ ps"
  by (induction ps arbitrary: x) (simp_all add: write_body_def write_status_def Let_def)

lemma sitemap_written:
  "received (write_sitemap True None latest doc fresh_writer) =
     (200, set_header ''Content-Type'' ''application/xml; charset=utf-8'' (set_public_cache_headers latest []),
      [Sitemap doc])"
  by (simp add: write_sitemap_def write_body_def write_status_def writer_set_def received_def fresh_writer_def Let_def)

text \<open>
  The comment in \<open>handleSitemap\<close> says that a failing encoder can only be logged, because the status
  line has been sent. \<open>writeInternal\<close> does more: it appends its error envelope to what was written of
  the document, under the status 200 and the media type of the sitemap.
\<close>

theorem sitemap_error_appended:
  "received (write_sitemap True (Some written) latest doc fresh_writer) =
     (200, set_header ''Content-Type'' ''application/xml; charset=utf-8'' (set_public_cache_headers latest []),
      written @ [ErrorBody ''internal_error'' ''An internal error occurred.'' []])"
proof -
  let ?h = "set_header ''Content-Type'' ''application/xml; charset=utf-8'' (set_public_cache_headers latest [])"
  let ?y = "\<lparr>wr_header = ?h, wr_sent = Some (200, ?h), wr_bodies = []\<rparr>"
  have "write_sitemap True (Some written) latest doc fresh_writer =
      write_error_to 500 code_internal ''An internal error occurred.'' (fold write_body written ?y)"
    by (simp add: write_sitemap_def write_status_def writer_set_def fresh_writer_def Let_def)
  with bodies_sent [of ?y "(200, ?h)" written] show ?thesis
    by (simp add: write_error_to_sent [of _ 200 ?h] code_internal_def)
qed

end
