(* ===== verification/Robust_Laws.thy ===== *)
theory Robust_Laws
  imports Middleware Schedule_Laws Http_Laws
begin

text \<open>
  What holds whatever goes wrong: the worker's loop returns once its context is done, and a handler
  that panics does not take the process down.
\<close>

section \<open>The worker's loop\<close>

lemma execute_returns: "\<exists>w'. execute drv wk j w = (Inr (), w')"
  by (auto simp: execute_def io_bind_def now_millis_def clk_now_def io_attempt_def io_return_def
      split: prod.split sum.split list.split)

lemma each_returns: "(\<And>x w. \<exists>w'. f x w = (Inr (), w')) \<Longrightarrow> \<exists>w'. io_each f xs w = (Inr (), w')"
proof (induction xs arbitrary: w)
  case (Cons x xs)
  then obtain w1 where "f x w = (Inr (), w1)" by blast
  with Cons show ?case by (simp add: io_bind_def)
qed (simp add: io_return_def)

lemma tick_returns: "\<exists>w'. tick drv pl wk w = (Inr (count_tick wk), w')"
proof -
  obtain w1 t1 where now: "now_millis w = (Inr t1, w1)"
    by (auto simp: now_millis_def io_bind_def clk_now_def io_return_def)
  obtain w2 t2 where clk: "clk_now w1 = (Inr t2, w2)" by (simp add: clk_now_def)
  obtain r w3 where claim: "claim_due_schedules pl (wk_id wk) t1 (to_millis (time_add t2 (wk_lease wk)))
      (wk_batch wk) w2 = (r, w3)" by fastforce
  have run: "tick drv pl wk w = (case r of
       Inl err \<Rightarrow> io_return (count_tick wk)
     | Inr jobs \<Rightarrow>
         if jobs = [] then io_return (count_tick wk)
         else io_bind (io_each (execute drv wk) jobs) (\<lambda>_. io_return (count_tick wk))) w3"
    by (simp add: tick_def io_bind_def now clk io_attempt_def claim)
  show ?thesis
  proof (cases r)
    case (Inr jobs)
    obtain w4 where "io_each (execute drv wk) jobs w3 = (Inr (), w4)"
      using each_returns [of "execute drv wk", OF execute_returns] by blast
    with run Inr show ?thesis by (simp add: io_bind_def io_return_def)
  qed (simp add: run io_return_def)
qed

lemma shutdown_returns: "\<exists>w'. shutdown wk w = (Inr (), w')"
  by (auto simp: shutdown_def io_bind_def now_millis_def clk_now_def io_attempt_def io_return_def
      split: prod.split list.split)

text \<open>The worker after \<open>n\<close> ticks, and the database its last shutdown leaves.\<close>

lemma run_ticks:
  "\<exists>w'. worker_run drv pl wk (replicate n TickerFires) w = (Inr ((count_tick ^^ n) wk, False), w') \<and>
     (\<forall>ws. worker_run drv pl wk (replicate n TickerFires @ ws) w = worker_run drv pl ((count_tick ^^ n) wk) ws w')"
proof (induction n arbitrary: wk w)
  case (Suc n)
  obtain w1 where "tick drv pl wk w = (Inr (count_tick wk), w1)" using tick_returns by blast
  with Suc [of "count_tick wk" w1] show ?case by (auto simp: io_bind_def funpow_swap1)
qed (simp add: io_return_def)

lemma wrap64_step: "wrap64 (y + wrap64 x) = wrap64 (y + x)"
proof -
  have "wrap64 x + y + 2 ^ 63 = (x + 2 ^ 63) mod 2 ^ 64 + y" by (simp add: wrap64_def)
  also have "\<dots> mod 2 ^ 64 = (x + 2 ^ 63 + y) mod 2 ^ 64" by (rule mod_add_left_eq)
  finally show ?thesis unfolding wrap64_def by (simp add: ac_simps)
qed

lemma count_ticks:
  "wk_id ((count_tick ^^ n) wk) = wk_id wk"
  "wk_ticks wk = 0 \<Longrightarrow> wk_ticks ((count_tick ^^ n) wk) = wrap64 (int n)"
  by (induction n) (simp_all add: count_tick_def wrap64_step ac_simps wrap64_id in_int64_def)

text \<open>
  C21. The worker stops when it is told to: however many ticks it has made and whatever failed in
  them, its loop goes on to the next wake-up, has counted every tick, and returns at the first
  wake-up that finds the context done, without looking at a later one. If the database answers by
  then, no schedule is left claimed by this worker.
\<close>

theorem worker_run_returns:
  assumes "planner_ok pl" "db_ok (tables w)"
  shows "\<exists>wk' w1 w2. worker_run drv pl (new_worker cfg) (replicate n TickerFires) w = (Inr (wk', False), w1) \<and>
    worker_ticks wk' = wrap64 (int n) \<and>
    worker_run drv pl (new_worker cfg) (replicate n TickerFires @ ContextDone # later) w = (Inr (wk', True), w2) \<and>
    (faults w1 = [] \<longrightarrow> (\<forall>s \<in> set (schedules (tables w2)). s_locked_by s \<noteq> Some (wc_instance_id cfg)))"
proof -
  let ?wk = "new_worker cfg" and ?wk' = "(count_tick ^^ n) (new_worker cfg)"
  obtain w1 where run: "worker_run drv pl ?wk (replicate n TickerFires) w = (Inr (?wk', False), w1)"
    and cont: "\<And>ws. worker_run drv pl ?wk (replicate n TickerFires @ ws) w = worker_run drv pl ?wk' ws w1"
    using run_ticks by metis
  have new: "wk_ticks ?wk = 0" "wk_id ?wk = wc_instance_id cfg" by (simp_all add: new_worker_def)
  have ok: "db_ok (tables w1)"
    using soundD [OF sound_run [OF assms(1)] run assms(2)] by simp
  obtain w2 where sh: "shutdown ?wk' w1 = (Inr (), w2)" using shutdown_returns by blast
  have "s_locked_by s \<noteq> Some (wc_instance_id cfg)"
    if nf: "faults w1 = []" and s: "s \<in> set (schedules (tables w2))" for s
  proof
    assume l: "s_locked_by s = Some (wc_instance_id cfg)"
    let ?t = "to_millis (clock_now w1)"
    have d: "tables w2 = released (wc_instance_id cfg) ?t (tables w1)"
      using shutdown_nofault [OF nf ok, of ?wk'] sh by (simp add: count_ticks new)
    with s obtain x where x: "x \<in> set (schedules (tables w1))" and
      sx: "s = (if s_status x = ScheduleClaimed \<and> s_locked_by x = Some (wc_instance_id cfg)
         then unlock SchedulePending ?t x else x)"
      by (auto simp: released_def set_schedules_def update_where_def)
    have "s_locked_by x \<noteq> None \<longleftrightarrow> s_status x = ScheduleClaimed"
      using ok x by (simp add: db_ok_def schedules_ok_def lease_ok_def)
    with sx l show False by (auto simp: unlock_def split: if_splits)
  qed
  then show ?thesis
    using run cont [of "ContextDone # later"] sh
    by (intro exI [of _ ?wk'] exI [of _ w1] exI [of _ w2]) (simp add: io_bind_def io_return_def worker_ticks_def count_ticks new)
qed

definition failing_world :: world where
  "failing_world = (world_of edited_db 0)\<lparr>faults := [Some ''disk I/O error'']\<rparr>"

definition cfg_w1 :: worker_config where
  "cfg_w1 = \<lparr>wc_instance_id = ''w1'', wc_poll_interval = 1000000000, wc_lease_ttl = 30000000000,
     wc_batch_size = 10\<rparr>"

theorem worker_run_returns_witness:
  "\<exists>wk' w2. worker_run no_text table_order (new_worker cfg_w1)
       [TickerFires, TickerFires, ContextDone, TickerFires] failing_world = (Inr (wk', True), w2) \<and>
     worker_ticks wk' = 2"
proof -
  have "db_ok (tables failing_world)"
    using reachable_db_ok [OF reachable_edited] by (simp add: failing_world_def)
  from worker_run_returns [OF table_order_ok this, where n = 2 and later = "[TickerFires]"]
  show ?thesis by (force simp: numeral_2_eq_2 wrap64_id in_int64_def)
qed

section \<open>Panics\<close>

definition panic_body :: payload where
  "panic_body = ErrorBody code_internal ''An internal error occurred.'' []"

text \<open>
  C27. A panic stays inside its request: whatever the handler did before it panicked, the client gets
  an answer, with the constant body of an internal error and nothing of the panic's value, as status
  500 unless a status had already gone out; what the handler did to the database stays; the value is
  logged, but the request gets no line of its own. Only the panic by which a handler asks
  \<open>net/http\<close> to drop the connection goes on. A handler that does not panic is not disturbed, and
  its request gets one line with the status sent.
\<close>

theorem panics_stay_inside:
  assumes "h req fresh_writer w = (out, w1, ls)"
    and "with_middleware bytes h req fresh_writer w = (out', w1', ls')"
  shows "w1' = w1 \<and>
    (case out of
       Finished y \<Rightarrow> out' = out \<and>
         ls' = ls @ [RequestLine (rq_method req) (rq_path req) (writer_status y) (bytes (wr_bodies y))]
     | Panicked AbortHandler y \<Rightarrow> out' = out \<and> ls' = ls
     | Panicked (PanicValue v) y \<Rightarrow>
         ls' = ls @ [PanicInHandler (rq_method req) (rq_path req) v] \<and>
         client_sees out' = Some
           (case wr_sent y of
              None \<Rightarrow> (500, set_header ''Content-Type'' ''application/json; charset=utf-8'' (wr_header y),
                wr_bodies y @ [panic_body])
            | Some (st, sent) \<Rightarrow> (st, sent, wr_bodies y @ [panic_body])))"
proof -
  show ?thesis
    using assms
    by (auto simp: panic_body_def with_middleware_def request_logger_def recoverer_def write_error_to_unsent
        write_error_to_sent split: outcome.splits panic.splits option.splits)
qed

definition panicking :: raw_handler where
  "panicking req x w = (Panicked (PanicValue ''secret'') (writer_set ''ETag'' ''1'' x), w, [])"

theorem panics_stay_inside_witness:
  "client_sees (fst (with_middleware length panicking (put_hello ''1'' ''Hi'') fresh_writer failing_world)) =
     Some (500, [(''Content-Type'', ''application/json; charset=utf-8''), (''ETag'', ''1'')],
       [ErrorBody ''internal_error'' ''An internal error occurred.'' []])"
proof -
  let ?q = "put_hello ''1'' ''Hi''" and ?y = "writer_set ''ETag'' ''1'' fresh_writer"
  obtain out' w' ls' where run: "with_middleware length panicking ?q fresh_writer failing_world = (out', w', ls')"
    by (cases "with_middleware length panicking ?q fresh_writer failing_world") auto
  have "panicking ?q fresh_writer failing_world = (Panicked (PanicValue ''secret'') ?y, failing_world, [])"
    by (simp add: panicking_def)
  from panics_stay_inside [OF this run] show ?thesis
    unfolding run fst_conv by (simp add: panic_body_def code_internal_def fresh_writer_def writer_set_def set_header_def)
qed

text \<open>The model's own handlers do not panic: what they answer is what the client sees through the stack.\<close>

lemma stack_is_transparent:
  assumes "serve pick miss sv req w = (r, w1)"
  shows "client_sees (fst (with_middleware bytes (raw (serve pick miss sv)) req fresh_writer w)) =
      Some (rs_status r, rs_header r, if rs_body r = NoContent then [] else [rs_body r])"
    and "fst (snd (with_middleware bytes (raw (serve pick miss sv)) req fresh_writer w)) = w1"
  using assms by (simp_all add: with_middleware_def request_logger_def recoverer_def raw_def
      write_response_fresh)

end
