(* ===== verification/Typed_Laws.thy ===== *)
theory Typed_Laws
  imports Client_Laws
begin

text \<open>
  The type of an answer: for each endpoint the status of a success with the shape of its body and the
  media type, and the table of errors with their codes.
\<close>

section \<open>What an endpoint may answer\<close>

definition success_status :: "endpoint \<Rightarrow> int" where
  "success_status e =
     (case e of ECreateContent \<Rightarrow> 201 | ECreateSchedule \<Rightarrow> 201 | ECancelSchedule \<Rightarrow> 204 | _ \<Rightarrow> 200)"

definition media_type :: "endpoint \<Rightarrow> string" where
  "media_type e =
     (case e of
        ESitemap \<Rightarrow> ''application/xml; charset=utf-8''
      | ERobots \<Rightarrow> ''text/plain; charset=utf-8''
      | EHtmlPage \<Rightarrow> ''text/html; charset=utf-8''
      | ECancelSchedule \<Rightarrow> []
      | _ \<Rightarrow> ''application/json; charset=utf-8'')"

definition success_body :: "endpoint \<Rightarrow> payload \<Rightarrow> bool" where
  "success_body e p =
     (case p of
        NoContent \<Rightarrow> e = ECancelSchedule
      | ErrorBody code msg ds \<Rightarrow> False
      | ContentBody d \<Rightarrow> e \<in> {ECreateContent, EGetContent, EUpdateContent, EPublish, EUnpublish}
      | ContentList l \<Rightarrow> e = EListContents
      | VersionBody d \<Rightarrow> e = EGetVersion
      | VersionList l \<Rightarrow> e = EListVersions
      | ScheduleBody d \<Rightarrow> e = ECreateSchedule
      | ScheduleList l \<Rightarrow> e = EListSchedules
      | PublicBody d \<Rightarrow> e = EPublicGet
      | PublicList l \<Rightarrow> e = EPublicList
      | Sitemap u \<Rightarrow> e = ESitemap
      | PlainText s \<Rightarrow> e = ERobots
      | HtmlPage d \<Rightarrow> e = EHtmlPage
      | HtmlError s \<Rightarrow> False
      | HealthBody m \<Rightarrow> e = EHealth)"

definition error_table :: "(int \<times> string) list" where
  "error_table =
     [(400, ''validation_error''), (413, ''validation_error''), (401, ''unauthorized''), (404, ''not_found''),
      (409, ''slug_conflict''), (409, ''schedule_conflict''), (412, ''version_conflict''),
      (428, ''precondition_required''), (500, ''internal_error'')]"

definition success_answer :: "endpoint \<Rightarrow> http_response \<Rightarrow> bool" where
  "success_answer e r \<longleftrightarrow> rs_status r = success_status e \<and> success_body e (rs_body r) \<and>
     get_header ''Content-Type'' (rs_header r) = media_type e"

definition error_answer :: "http_response \<Rightarrow> bool" where
  "error_answer r \<longleftrightarrow> (case rs_body r of
     ErrorBody code msg ds \<Rightarrow> (rs_status r, code) \<in> set error_table \<and>
       get_header ''Content-Type'' (rs_header r) = ''application/json; charset=utf-8''
   | _ \<Rightarrow> False)"

definition special_answer :: "endpoint \<Rightarrow> http_response \<Rightarrow> bool" where
  "special_answer e r \<longleftrightarrow>
     rs_status r = 304 \<and> rs_body r = NoContent \<and> e \<in> {EPublicList, EPublicGet, ESitemap, EHtmlPage} \<or>
     e = EHtmlPage \<and> get_header ''Content-Type'' (rs_header r) = media_type e \<and>
       (rs_status r = 404 \<and> rs_body r = HtmlError ''404 - Not found'' \<or>
        rs_status r = 500 \<and> rs_body r = HtmlError ''500 - Something went wrong'') \<or>
     e = EHealth \<and> rs_status r = 503 \<and>
       rs_body r = HealthBody [(''status'', ''unhealthy''), (''error'', ''database unreachable'')]"

definition typed_answer :: "endpoint \<Rightarrow> http_response \<Rightarrow> bool" where
  "typed_answer e r \<longleftrightarrow> success_answer e r \<or> error_answer r \<or> special_answer e r"

section \<open>Typed handlers\<close>

definition typed :: "endpoint \<Rightarrow> handler \<Rightarrow> bool" where
  "typed e h \<longleftrightarrow> (\<forall>w. typed_answer e (fst (h w)))"

named_theorems typed_intros "handlers whose answers have the type of their endpoint"

lemma typed_success [typed_intros]: "success_answer e r \<Longrightarrow> typed e (respond r)"
  by (simp add: typed_def respond_def typed_answer_def)

lemma typed_error: "error_answer r \<Longrightarrow> typed e (respond r)"
  by (simp add: typed_def respond_def typed_answer_def)

lemma typed_special: "special_answer e r \<Longrightarrow> typed e (respond r)"
  by (simp add: typed_def respond_def typed_answer_def)

lemma typed_check [typed_intros]:
  assumes "\<And>err. typed e (bad err)" "\<And>x. typed e (k x)"
  shows "typed e (check m bad k)"
  unfolding typed_def
proof
  fix w
  obtain r w1 where "m w = (r, w1)" by fastforce
  with assms show "typed_answer e (fst (check m bad k w))" by (cases r) (simp_all add: check_def typed_def)
qed

lemma typed_check_input:
  "(\<And>resp. r = Inl resp \<Longrightarrow> error_answer resp) \<Longrightarrow> (\<And>x. typed e (k x)) \<Longrightarrow> typed e (check_input r k)"
  by (cases r) (simp_all add: check_input_def typed_error)

lemmas code_defs = code_unauthorized_def code_validation_def code_not_found_def code_slug_conflict_def
  code_schedule_conflict_def code_version_conflict_def code_precondition_required_def code_internal_def

lemma error_answer_write [simp]:
  "error_answer (write_error h st code msg ds) \<longleftrightarrow> (st, code) \<in> set error_table"
  by (simp add: error_answer_def write_error_def write_json_def get_set_header)

lemma error_answer_internal [simp]: "error_answer (write_internal h)"
  by (simp add: write_internal_def code_defs error_table_def)

lemma typed_write_error [typed_intros]:
  "(st, code) \<in> set error_table \<Longrightarrow> typed e (respond (write_error h st code msg ds))"
  "typed e (respond (write_internal h))" "typed e (internal_error err)"
  by (simp_all add: typed_error internal_error_def)

lemma typed_decode [typed_intros]:
  "(\<And>x. typed e (k x)) \<Longrightarrow> typed e (check_input (decode_json sv dec zero req) k)"
  by (rule typed_check_input)
    (auto simp: decode_json_def code_defs error_table_def split: request_body.splits prod.splits option.splits if_splits)

lemma typed_pagination [typed_intros]:
  "(\<And>x. typed e (k x)) \<Longrightarrow> typed e (check_input (parse_pagination req) k)"
  by (rule typed_check_input)
    (auto simp: parse_pagination_def Let_def try_sum_def code_defs error_table_def
      split: if_splits option.splits sum.splits)

lemma typed_domain_error [typed_intros]: "typed e (write_domain_error cid err)"
proof -
  have "typed e (\<lambda>w. case get_content cid w of (r, w1) \<Rightarrow> respond (write_version_conflict (f r)) w1)" for f
    by (simp add: typed_def respond_def typed_answer_def write_version_conflict_def code_defs error_table_def
        split: prod.split)
  then show ?thesis
    by (auto simp: write_domain_error_def write_version_conflict_def code_defs error_table_def
        intro!: typed_intros split: option.split)
qed

lemma typed_conditional [typed_intros]:
  "e \<in> {EPublicList, EPublicGet, ESitemap, EHtmlPage} \<Longrightarrow> typed e fresh \<Longrightarrow> typed e (serve_conditional req ms fresh)"
  by (auto simp: serve_conditional_def not_modified_def special_answer_def intro!: typed_special)

lemma typed_public_error [typed_intros]: "typed e (write_public_error err)"
  by (auto simp: write_public_error_def code_defs error_table_def intro!: typed_intros)

lemma typed_html_error [typed_intros]: "typed EHtmlPage (write_html_error err)"
  by (auto simp: write_html_error_def special_answer_def html_type_def get_set_header media_type_def intro!: typed_special)

lemma success_json:
  "success_answer e (write_json h st body) \<longleftrightarrow> st = success_status e \<and> success_body e body \<and>
     media_type e = ''application/json; charset=utf-8''"
  by (auto simp: success_answer_def write_json_def get_set_header)

lemma typed_write_content [typed_intros]:
  "e \<in> {EGetContent, EUpdateContent, EPublish, EUnpublish} \<Longrightarrow> typed e (write_content cwv)"
  "e \<in> {EGetContent, EUpdateContent, EPublish, EUnpublish} \<Longrightarrow> typed e (write_content_state c)"
  by (auto simp: write_content_def write_content_state_def success_json success_status_def success_body_def media_type_def
      intro!: typed_intros)

lemmas success_simps = success_json success_status_def success_body_def media_type_def

lemma typed_admin:
  "typed ECreateContent (handle_create_content sv req)"
  "typed EListContents (handle_list_contents req)"
  "typed EGetContent (handle_get_content cid)"
  "typed EListVersions (handle_list_versions cid req)"
  "typed EGetVersion (handle_get_version cid raw)"
  "typed EPublish (handle_publish sv cid req)"
  "typed EUnpublish (handle_unpublish cid req)"
  "typed EListSchedules (handle_list_schedules cid)"
  by (auto simp: handle_create_content_def handle_list_contents_def handle_get_content_def
      handle_list_versions_def handle_get_version_def handle_publish_def handle_unpublish_def
      handle_list_schedules_def version_not_positive_def code_defs error_table_def success_simps Let_def
      intro!: typed_intros split: option.split prod.split)

lemma typed_update: "typed EUpdateContent (handle_update_content sv cid req)"
  by (auto simp: handle_update_content_def expected_version_def update_with_def if_match_response_def
      code_defs error_table_def intro!: typed_intros split: sum.split)

lemma typed_schedule: "typed ECreateSchedule (handle_create_schedule sv cid req)"
  by (auto simp: handle_create_schedule_def version_not_positive_def run_at_malformed_def
      code_defs error_table_def success_simps intro!: typed_intros split: option.split)

lemma typed_cancel: "typed ECancelSchedule (handle_cancel_schedule sid)"
  unfolding handle_cancel_schedule_def
  by (intro typed_intros)
    (simp add: success_answer_def success_status_def success_body_def media_type_def get_header_def)

lemma typed_public:
  "typed EPublicList (handle_public_list req)"
  "typed EPublicGet (handle_public_get slug req)"
  by (auto simp: handle_public_list_def handle_public_get_def success_simps intro!: typed_intros split: prod.split)

lemma typed_pages:
  "typed ESitemap (handle_sitemap sv req)"
  "typed ERobots (handle_robots sv)"
  "typed EHtmlPage (handle_html_page sv slug req)"
  by (auto simp: handle_sitemap_def handle_robots_def handle_html_page_def success_answer_def
      success_status_def success_body_def media_type_def get_set_header html_type_def intro!: typed_intros)

lemma typed_health: "typed EHealth handle_health"
proof -
  have "special_answer EHealth (write_json [] 503
      (HealthBody [(''status'', ''unhealthy''), (''error'', ''database unreachable'')]))"
    by (simp add: special_answer_def write_json_def)
  from typed_special [OF this] have "typed EHealth (\<lambda>w. respond (write_json [] 503
      (HealthBody [(''status'', ''unhealthy''), (''error'', ''database unreachable'')])) w)" by simp
  moreover have "typed EHealth (respond (write_json [] 200 (HealthBody m)))" for m
    by (rule typed_success) (simp add: success_simps)
  ultimately show ?thesis
    unfolding handle_health_def by (intro typed_check typed_write_error) simp_all
qed

lemma typed_dispatch: "typed e (dispatch sv e ps req)"
  by (cases e) (simp_all add: typed_admin typed_update typed_schedule typed_cancel typed_public typed_pages typed_health)

lemma typed_serve:
  assumes "pick (rq_method req) (rq_path req) = Some (rt, ps)"
  shows "typed (rt_endpoint rt) (serve pick miss sv req)"
proof -
  have "typed (rt_endpoint rt) (respond unauthorized_response)"
    by (simp add: unauthorized_response_def typed_error code_defs error_table_def)
  with assms typed_dispatch show ?thesis by (simp add: serve_def Let_def require_bearer_token_def)
qed

section \<open>Errors as the client reads them\<close>

lemma error_code_read:
  assumes "rs_body r = ErrorBody code msg ds" "valid_utf8 code"
  shows "error_code (reply_to r) = Some code"
proof -
  have "error_reply_decoder (json_of_error code msg ds) x =
      (\<lparr>er_code = code, er_message = to_valid_utf8 msg\<rparr>, None)" for x
    using assms(2)
    by (cases x) (simp add: error_reply_decoder_def json_of_error_def find_field_skip on_field_def json_string_def
        valid_utf8_def first_error_def)
  with assms(1) show ?thesis by (simp add: error_code_def response_json_def)
qed

text \<open>
  C10. Every answer has the type of its endpoint: a success has the endpoint's own status, media type
  and shape of body; a 304 without a body comes from the four conditional endpoints only; every other
  JSON error has one of nine pairs of status and code, which the client's struct reads back; and only
  the HTML page and the health check answer an error in another form.
\<close>

theorem answers_have_their_type:
  assumes "pick (rq_method req) (rq_path req) = Some (rt, ps)" "serve pick miss sv req w = (r, w')"
  shows "typed_answer (rt_endpoint rt) r \<and>
    (\<forall>code msg ds. rs_body r = ErrorBody code msg ds \<longrightarrow>
       (rs_status r, code) \<in> set error_table \<and> error_code (reply_to r) = Some code)"
proof -
  have t: "typed_answer (rt_endpoint rt) r"
    using typed_serve [of pick req rt ps miss sv] assms by (auto simp: typed_def dest: spec [of _ w])
  moreover have "(rs_status r, code) \<in> set error_table" if "rs_body r = ErrorBody code msg ds" for code msg ds
    using t that by (auto simp: typed_answer_def success_answer_def success_body_def error_answer_def special_answer_def)
  moreover have "valid_utf8 code" if "(st, code) \<in> set error_table" for st code
    using that by (auto simp: error_table_def byte_of_def intro!: valid_ascii)
  ultimately show ?thesis using error_code_read by blast
qed

theorem answers_have_their_type_witness:
  "error_code (reply_to (fst (serve first_route no_route some_server
      (request ''PUT'' ''/api/v1/contents/d1'' [bearer] (rename ''three'')) (world_of edited_db 0)))) =
    Some ''precondition_required''"
proof -
  let ?req = "request ''PUT'' ''/api/v1/contents/d1'' [bearer] (rename ''three'')"
  obtain r w' where run: "serve first_route no_route some_server ?req (world_of edited_db 0) = (r, w')" by fastforce
  have "rq_path ?req = ''/api/v1/contents/d1''" "rq_method ?req = ''PUT''" by (simp_all add: request_def)
  then have pick: "first_route (rq_method ?req) (rq_path ?req) =
      Some (route True ''PUT'' content_path EUpdateContent, [(''id'', ''d1'')])" by (simp only:) code_simp
  have "rs_body (fst (serve first_route no_route some_server ?req (world_of edited_db 0))) =
    ErrorBody ''precondition_required'' (''This endpoint requires an If-Match header carrying the current ETag. '' @
         ''Use If-Match: * to overwrite unconditionally.'') []"
    unfolding edited_db_eq by code_simp
  then have "rs_body r = ErrorBody ''precondition_required'' (''This endpoint requires an If-Match header carrying the current ETag. '' @
         ''Use If-Match: * to overwrite unconditionally.'') []" by (simp only: run fst_conv)
  with answers_have_their_type [OF pick run] run show ?thesis by (metis fst_conv)
qed

end
