(* ===== verification/Privacy_Laws.thy ===== *)
theory Privacy_Laws
  imports Http_Laws
begin

text \<open>
  What somebody without the token can learn: two worlds that agree on the published rows, as far as
  the public queries read them, cannot be told apart by any number of requests.
\<close>

section \<open>The public face of a database\<close>

definition public_row :: "content_row \<times> version_row \<Rightarrow> string \<times> string \<times> int64 option \<times> int64 \<times> version_fields" where
  "public_row cv = (c_id (fst cv), c_slug (fst cv), c_published_at (fst cv), c_updated_at (fst cv), v_fields (snd cv))"

definition public_face :: "db \<Rightarrow> (string \<times> string \<times> int64 option \<times> int64 \<times> version_fields) list" where
  "public_face d = map public_row (published_join d)"

definition same_public :: "world \<Rightarrow> world \<Rightarrow> bool" where
  "same_public w w' \<longleftrightarrow> public_face (tables w) = public_face (tables w') \<and> faults w = faults w' \<and>
     clock_now w = clock_now w' \<and> clock_later w = clock_later w'"

section \<open>Actions that agree\<close>

text \<open>
  \<open>agree R m m'\<close>: run in worlds with the same public face, the two fail alike or return values that
  \<open>R\<close> relates, and the worlds after them have the same public face again.
\<close>

definition agree :: "('a \<Rightarrow> 'b \<Rightarrow> bool) \<Rightarrow> 'a io \<Rightarrow> 'b io \<Rightarrow> bool" where
  "agree R m m' \<longleftrightarrow> (\<forall>w w'. same_public w w' \<longrightarrow>
     rel_sum (=) R (fst (m w)) (fst (m' w')) \<and> same_public (snd (m w)) (snd (m' w')))"

named_theorems agree_intros "actions that agree"

lemma agreeD:
  assumes "agree R m m'" "same_public w w'" "m w = (r, w1)" "m' w' = (r', w1')"
  shows "rel_sum (=) R r r'" "same_public w1 w1'"
  using assms unfolding agree_def by (metis fst_conv snd_conv)+

lemma agree_return [agree_intros]: "R x y \<Longrightarrow> agree R (io_return x) (io_return y)"
  by (simp add: agree_def io_return_def)

lemma agree_throw [agree_intros]: "agree R (io_throw e) (io_throw e)"
  by (simp add: agree_def io_throw_def)

lemma agree_bind:
  assumes "agree R m m'" "\<And>x y. R x y \<Longrightarrow> agree S (k x) (k' y)"
  shows "agree S (io_bind m k) (io_bind m' k')"
  unfolding agree_def
proof (intro allI impI)
  fix w w' assume sim: "same_public w w'"
  obtain r w1 where m: "m w = (r, w1)" by fastforce
  obtain r' w1' where m': "m' w' = (r', w1')" by fastforce
  note a = agreeD [OF assms(1) sim m m']
  show "rel_sum (=) S (fst (io_bind m k w)) (fst (io_bind m' k' w')) \<and>
      same_public (snd (io_bind m k w)) (snd (io_bind m' k' w'))"
  proof (cases r)
    case (Inl e)
    with a m m' show ?thesis by (cases r') (simp_all add: io_bind_def)
  next
    case (Inr x)
    with a(1) obtain y where y: "r' = Inr y" "R x y" by (cases r') auto
    with assms(2) [OF y(2)] a(2) m m' Inr show ?thesis by (simp add: io_bind_def agree_def)
  qed
qed

lemma agree_map_err [agree_intros]:
  assumes "agree R m m'"
  shows "agree R (map_err g m) (map_err g m')"
  unfolding agree_def
proof (intro allI impI)
  fix w w' assume sim: "same_public w w'"
  obtain r w1 where m: "m w = (r, w1)" by fastforce
  obtain r' w1' where m': "m' w' = (r', w1')" by fastforce
  note a = agreeD [OF assms sim m m']
  then show "rel_sum (=) R (fst (map_err g m w)) (fst (map_err g m' w')) \<and>
      same_public (snd (map_err g m w)) (snd (map_err g m' w'))"
    by (cases r; cases r') (simp_all add: map_err_def io_catch_def io_throw_def m m')
qed

lemma same_public_fault:
  "same_public w w' \<Longrightarrow> fst (next_fault w) = fst (next_fault w') \<and>
     same_public (snd (next_fault w)) (snd (next_fault w'))"
  by (auto simp: same_public_def next_fault_def split: list.split)

lemma agree_driver_call [agree_intros]: "R x y \<Longrightarrow> agree R (driver_call x) (driver_call y)"
  unfolding agree_def using same_public_fault
  by (fastforce simp: driver_call_def split: prod.split option.split)

lemma agree_query:
  assumes "\<And>d d'. public_face d = public_face d' \<Longrightarrow> R (q d) (q d')"
  shows "agree R (sql_query q) (sql_query q)"
  unfolding agree_def
proof (intro allI impI)
  fix w w' assume sim: "same_public w w'"
  obtain f w1 where f: "next_fault w = (f, w1)" by fastforce
  obtain f' w1' where f': "next_fault w' = (f', w1')" by fastforce
  from same_public_fault [OF sim] f f' have s: "f' = f" "same_public w1 w1'" by simp_all
  moreover from s(2) have "R (q (tables w1)) (q (tables w1'))" by (simp add: assms same_public_def)
  ultimately show "rel_sum (=) R (fst (sql_query q w)) (fst (sql_query q w')) \<and>
      same_public (snd (sql_query q w)) (snd (sql_query q w'))"
    by (cases f) (simp_all add: sql_query_def sql_stmt_def f f' same_public_def)
qed

lemma agree_io_map:
  assumes "list_all2 R xs ys" "\<And>x y. R x y \<Longrightarrow> agree S (f x) (f y)"
  shows "agree (list_all2 S) (io_map f xs) (io_map f ys)"
  using assms(1)
proof (induction rule: list_all2_induct)
  case (Cons x xs y ys)
  show ?case
    unfolding io_map.simps
    by (rule agree_bind [OF assms(2) [OF Cons(1)]], rule agree_bind [OF Cons(3)], rule agree_return) simp
qed (simp add: agree_return)

section \<open>The public queries\<close>

abbreviation same_row :: "content_row \<times> version_row \<Rightarrow> content_row \<times> version_row \<Rightarrow> bool" where
  "same_row cv cv' \<equiv> public_row cv = public_row cv'"

lemma list_all2_rows: "list_all2 same_row xs ys \<longleftrightarrow> map public_row xs = map public_row ys"
proof -
  have "list_all2 (=) (map public_row xs) (map public_row ys) \<longleftrightarrow> list_all2 same_row xs ys"
    by (simp only: list_all2_map1 list_all2_map2)
  then show ?thesis by (simp only: list_all2_eq [symmetric])
qed

lemma face_rows: "public_face d = public_face d' \<Longrightarrow> list_all2 same_row (published_join d) (published_join d')"
  by (simp add: list_all2_rows public_face_def)

lemma rows_filter:
  assumes "list_all2 same_row xs ys" "\<And>x y. same_row x y \<Longrightarrow> P x = P y"
  shows "list_all2 same_row (filter P xs) (filter P ys)"
  using assms(1)
proof (induction rule: list_all2_induct)
  case (Cons x xs y ys)
  from assms(2) [OF Cons(1)] Cons show ?case by (cases "P x") simp_all
qed simp

lemma map_sort_key: "map f (sort_key (\<lambda>x. k (f x)) xs) = sort_key k (map f xs)"
proof -
  have "map f (insort_key (\<lambda>x. k (f x)) x xs) = insort_key k (f x) (map f xs)" for x xs
    by (induction xs) simp_all
  then show ?thesis by (induction xs) simp_all
qed

lemma rows_order:
  assumes "list_all2 same_row xs ys"
  shows "list_all2 same_row (order_desc public_order xs) (order_desc public_order ys)"
proof -
  have k: "public_order = (\<lambda>cv. (\<lambda>(cid, slug, at, upd, f). (at, cid)) (public_row cv))"
    by (rule ext) (simp add: public_order_def public_row_def)
  show ?thesis
    using assms unfolding list_all2_rows order_desc_def rev_map [symmetric] k map_sort_key by simp
qed

lemma rows_cut:
  "list_all2 same_row xs ys \<Longrightarrow> list_all2 same_row (sql_limit n xs) (sql_limit n ys)"
  "list_all2 same_row xs ys \<Longrightarrow> list_all2 same_row (sql_offset n xs) (sql_offset n ys)"
  by (simp_all add: sql_limit_def sql_offset_def list_all2_takeI list_all2_dropI)

lemma agree_query_rows:
  assumes "\<And>d d'. public_face d = public_face d' \<Longrightarrow> list_all2 same_row (q d) (q d')"
    and "\<And>x y. same_row x y \<Longrightarrow> agree (=) (scan x) (scan y)"
  shows "agree (=) (query_rows m1 m2 q scan) (query_rows m1 m2 q scan)"
  unfolding query_rows_def
proof (rule agree_bind [where R = "list_all2 same_row"])
  show "agree (list_all2 same_row) (map_err (Wrap m1) (sql_query q)) (map_err (Wrap m1) (sql_query q))"
    by (intro agree_intros agree_query assms(1))
  fix xs ys assume xs: "list_all2 same_row xs ys"
  have "agree (list_all2 (=)) (io_map (\<lambda>r. map_err (Wrap m2) (scan r)) xs) (io_map (\<lambda>r. map_err (Wrap m2) (scan r)) ys)"
    by (rule agree_io_map [OF xs]) (intro agree_intros assms(2))
  then show "agree (=) (io_bind (io_map (\<lambda>r. map_err (Wrap m2) (scan r)) xs) driver_call)
      (io_bind (io_map (\<lambda>r. map_err (Wrap m2) (scan r)) ys) driver_call)"
    by (rule agree_bind) (simp add: list_all2_eq [symmetric] agree_driver_call)
qed

lemma agree_scan: "same_row x y \<Longrightarrow> agree (=) (scan_public x) (scan_public y)"
  by (cases x; cases y) (auto simp: scan_public_def public_row_def intro: agree_return)

lemma agree_get [agree_intros]: "agree (=) (service_get_public_by_slug slug) (service_get_public_by_slug slug)"
proof -
  let ?rows = "\<lambda>d. filter (\<lambda>(c, v). c_slug c = slug) (published_join d)"
  have rows: "list_all2 same_row (?rows d) (?rows d')" if "public_face d = public_face d'" for d d'
    by (rule rows_filter [OF face_rows [OF that]]) (auto simp: public_row_def)
  have "rel_option same_row (first_row (?rows d)) (first_row (?rows d'))" if "public_face d = public_face d'" for d d'
    using rows [OF that] by (auto simp: first_row_def split: list.split)
  then have "agree same_row (query_row (\<lambda>d. first_row (?rows d))) (query_row (\<lambda>d. first_row (?rows d)))"
    unfolding query_row_def
    by (intro agree_bind [where R = "rel_option same_row"] agree_query)
      (auto simp: option_rel_Some1 option_rel_Some2 intro: agree_intros split: option.splits)
  then show ?thesis
    unfolding service_get_public_by_slug_def get_public_by_slug_def
    by (intro agree_map_err agree_bind [where R = same_row] agree_scan)
qed

lemma agree_list [agree_intros]: "agree (=) (service_list_public limit offset) (service_list_public limit offset)"
proof -
  have "agree (=) (list_public limit offset) (list_public limit offset)"
    unfolding list_public_def by (intro agree_query_rows rows_cut rows_order face_rows agree_scan)
  moreover have "agree (=) count_public count_public"
    unfolding count_public_def
    by (intro agree_intros agree_query) (auto simp: public_face_def dest: map_eq_imp_length_eq)
  ultimately show ?thesis
    unfolding service_list_public_def by (auto intro!: agree_bind agree_return)
qed

lemma agree_sitemap [agree_intros]: "agree (=) (list_sitemap_entries limit) (list_sitemap_entries limit)"
  unfolding list_sitemap_entries_def
  by (intro agree_query_rows rows_cut rows_order rows_filter face_rows agree_return)
    (auto simp: public_row_def sitemap_entry_of_def split: option.split)

lemma agree_latest [agree_intros]: "agree (=) latest_published_at latest_published_at"
proof -
  have "map (\<lambda>(c, v). c_updated_at c) (published_join d) = map (\<lambda>(cid, slug, at, upd, f). upd) (public_face d)" for d
    by (simp add: public_face_def public_row_def split_def)
  then show ?thesis
    unfolding latest_published_at_def
    by (intro agree_bind [where R = "(=)"] agree_intros agree_query) (simp_all add: agree_return)
qed

lemma agree_clock [agree_intros]: "agree (=) clk_now clk_now"
  by (auto simp: agree_def clk_now_def same_public_def split: list.split)

section \<open>The public handlers\<close>

definition h_agree :: "handler \<Rightarrow> bool" where
  "h_agree h \<longleftrightarrow> (\<forall>w w'. same_public w w' \<longrightarrow> fst (h w) = fst (h w') \<and> same_public (snd (h w)) (snd (h w')))"

named_theorems h_agree_intros "handlers that answer alike"

lemma h_agree_respond [h_agree_intros]: "h_agree (respond r)"
  by (simp add: h_agree_def respond_def)

lemma h_agree_check [h_agree_intros]:
  assumes "agree (=) m m" "\<And>e. h_agree (bad e)" "\<And>x. h_agree (k x)"
  shows "h_agree (check m bad k)"
  unfolding h_agree_def
proof (intro allI impI)
  fix w w' assume sim: "same_public w w'"
  obtain r w1 where m: "m w = (r, w1)" by fastforce
  obtain r' w1' where m': "m w' = (r', w1')" by fastforce
  note a = agreeD [OF assms(1) sim m m']
  then have "r' = r" by (simp add: sum.rel_eq)
  with a(2) assms(2,3) show "fst (check m bad k w) = fst (check m bad k w') \<and>
      same_public (snd (check m bad k w)) (snd (check m bad k w'))"
    by (cases r) (simp_all add: check_def m m' h_agree_def)
qed

lemma h_agree_input [h_agree_intros]: "(\<And>x. h_agree (k x)) \<Longrightarrow> h_agree (check_input r k)"
  by (cases r) (simp_all add: check_input_def h_agree_intros)

lemma h_agree_errors [h_agree_intros]:
  "h_agree (write_public_error e)" "h_agree (write_html_error e)" "h_agree (internal_error e)"
  by (simp_all add: write_public_error_def write_html_error_def internal_error_def h_agree_intros)

lemma h_agree_conditional [h_agree_intros]: "h_agree fresh \<Longrightarrow> h_agree (serve_conditional req ms fresh)"
  by (simp add: serve_conditional_def h_agree_intros)

lemma h_agree_public:
  "h_agree (handle_public_get slug req)"
  "h_agree (handle_public_list req)"
  "h_agree (handle_sitemap sv req)"
  "h_agree (handle_robots sv)"
  "h_agree (handle_html_page sv slug req)"
  "h_agree handle_health"
  by (auto simp: handle_public_get_def handle_public_list_def handle_sitemap_def handle_robots_def
      handle_html_page_def handle_health_def intro!: h_agree_intros agree_intros)

lemma public_endpoints:
  "rt \<in> set routes \<Longrightarrow> \<not> rt_admin rt \<Longrightarrow> h_agree (dispatch sv (rt_endpoint rt) ps req)"
  by (auto simp: routes_def admin_routes_def public_routes_def index_route_def route_def h_agree_public)

lemma serve_agrees:
  assumes "chi pick" "\<not> authorized (cfg_admin_api_token (sv_cfg sv)) (rq_header req ''Authorization'')"
  shows "h_agree (serve pick miss sv req)"
proof (cases "pick (rq_method req) (rq_path req)")
  case None
  then show ?thesis by (simp add: serve_def h_agree_intros)
next
  case (Some x)
  obtain rt ps where x: "x = (rt, ps)" by fastforce
  with Some have "rt \<in> set routes" using chi.sound [OF assms(1)] by blast
  with assms(2) Some x public_endpoints [of rt sv ps req] show ?thesis
    by (auto simp: serve_def Let_def require_bearer_token_def intro: h_agree_respond)
qed

text \<open>
  C3. Drafts cannot be told from outside: let two databases agree on the published rows (id, slug,
  time of publication, time of the last change and fields of the published version) and differ in
  anything else, in drafts, older versions, unpublished documents, schedules or the audit log. Then
  any sequence of requests without the token gets the same answers from both, also when the driver
  fails, and leaves both as they were.
\<close>

theorem drafts_cannot_be_told:
  assumes "chi pick" "same_public w w'"
    and "\<forall>req \<in> set reqs. \<not> authorized (cfg_admin_api_token (sv_cfg sv)) (rq_header req ''Authorization'')"
    and "trace (serve pick miss sv) reqs w = (resps, u)" "trace (serve pick miss sv) reqs w' = (resps', u')"
  shows "resps = resps' \<and> tables u = tables w \<and> tables u' = tables w'"
  using assms(2-)
proof (induction reqs arbitrary: w w' resps resps')
  case (Cons req reqs)
  obtain r w1 where r: "serve pick miss sv req w = (r, w1)" by fastforce
  obtain r' w1' where r': "serve pick miss sv req w' = (r', w1')" by fastforce
  obtain rs u1 where rs: "trace (serve pick miss sv) reqs w1 = (rs, u)" "resps = r # rs"
    using Cons.prems(3) r by (auto split: prod.splits)
  obtain rs' where rs': "trace (serve pick miss sv) reqs w1' = (rs', u')" "resps' = r' # rs'"
    using Cons.prems(4) r' by (auto split: prod.splits)
  have same: "r = r'" "same_public w1 w1'"
    using serve_agrees [OF assms(1), of sv req miss] Cons.prems(1,2) r r' by (auto simp: h_agree_def) (metis fst_conv, metis snd_conv)
  have quiet: "tables w1 = tables w" "tables w1' = tables w'"
    using chi.only_admin_writes [OF assms(1), of miss sv req] Cons.prems(2) r r' by (metis list.set_intros(1) snd_conv)+
  show ?case using Cons.IH [OF same(2) _ rs(1) rs'(1)] Cons.prems(2) rs(2) rs'(2) same(1) quiet by simp
qed simp

text \<open>The example's database with another draft in its place.\<close>

definition other_draft_db :: db where
  "other_draft_db = edited_db\<lparr>versions := map (\<lambda>v. if v_version v = 2 then v\<lparr>v_fields := draft ''secret''\<rparr> else v)
     (versions edited_db), schedules := []\<rparr>"

definition readers :: "http_request list" where
  "readers = [request ''GET'' ''/public/v1/contents'' [] no_body, request ''GET'' ''/hello'' [] no_body,
     request ''GET'' ''/api/v1/contents/d1'' [] no_body]"

theorem drafts_cannot_be_told_witness:
  "versions other_draft_db \<noteq> versions edited_db \<and>
   fst (trace (serve first_route no_route some_server) readers (world_of edited_db 0)) =
     fst (trace (serve first_route no_route some_server) readers (world_of other_draft_db 0))"
proof
  show "versions other_draft_db \<noteq> versions edited_db"
    by (simp add: other_draft_db_def edited_db_eq versions1_def draft_def)
  obtain resps u where 1: "trace (serve first_route no_route some_server) readers (world_of edited_db 0) = (resps, u)"
    by fastforce
  obtain resps' u' where 2: "trace (serve first_route no_route some_server) readers (world_of other_draft_db 0) = (resps', u')"
    by fastforce
  have "same_public (world_of edited_db 0) (world_of other_draft_db 0)"
    by (simp add: same_public_def public_face_def published_join_def other_draft_db_def edited_db_eq versions1_def doc1_def public_row_def)
  moreover have "\<forall>req \<in> set readers. \<not> authorized (cfg_admin_api_token (sv_cfg some_server)) (rq_header req ''Authorization'')"
    by code_simp
  ultimately show "fst (trace (serve first_route no_route some_server) readers (world_of edited_db 0)) =
     fst (trace (serve first_route no_route some_server) readers (world_of other_draft_db 0))"
    using drafts_cannot_be_told [OF first.chi_axioms _ _ 1 2] 1 2 by simp
qed

end
