(* ===== verification/Spec2Isabelle.thy ===== *)
theory Spec2Isabelle
  imports Rows Content_Laws Scenario_Laws Boot_Laws Divergences Robust_Laws Typed_Laws Privacy_Laws
begin

text \<open>
  A verification development for the content management service: a Go program that keeps documents
  with their version history in SQLite, serves an administrative and a public HTTP API, and
  publishes versions at scheduled times from a background worker.

  \<^bold>\<open>The program.\<close> A request goes through the router and the bearer-token middleware
  (\<open>internal/httpapi/router.go\<close>, \<open>auth.go\<close>) to a handler (\<open>admin.go\<close>, \<open>publish.go\<close>, \<open>public.go\<close>,
  \<open>seo.go\<close>, \<open>html.go\<close>), which calls the domain service (\<open>internal/content\<close>); the service validates
  and calls the store (\<open>internal/store\<close>), whose every write is one transaction. The worker
  (\<open>internal/scheduler\<close>) polls the same tables: it claims due schedules under a lease, publishes each
  in a transaction that checks the lease again, and hands back on shutdown what it still holds. All
  state that lasts is in the four tables; processes share nothing else.

  \<^bold>\<open>State and effects.\<close> A table is the list of its rows in insertion order, with the AUTOINCREMENT
  counters (\<open>Models\<close>); columns and Go variables of type int64 are integers, with the wrap-around
  written out where the code computes (\<open>Prelude\<close>), and a Go string is the list of its bytes. An
  action (\<open>Sql\<close>) runs in a world: the tables, the answers of the driver to its next calls (a failure
  with a text, or none), and the readings of the clock. A transaction restores the tables on every
  error. Errors are values of \<open>go_error\<close> with the wrapping of \<open>fmt.Errorf\<close>, so that \<open>errors.Is\<close> is a
  function. What SQL leaves open (the order in which UPDATE ... RETURNING hands over rows, and the
  order among rows with equal sort keys) is a parameter, the planner.

  \<^bold>\<open>Theories.\<close>
  \<^item> Library: \<open>Prelude\<close> (row updates, keys, LIMIT and OFFSET), \<open>Sql\<close> (actions, transactions),
    \<open>Go_Strings\<close>, \<open>Go_Numbers\<close>, \<open>Go_Time\<close> (what the code uses of \<open>strings\<close>, \<open>utf8\<close>, \<open>strconv\<close> and
    \<open>time\<close>).
  \<^item> \<open>internal/store\<close>: \<open>Models\<close> (\<open>models.go\<close>), \<open>Tables\<close> (the schema's constraints),
    \<open>Store_Contents\<close>, \<open>Store_Publish\<close>, \<open>Store_Schedules\<close>, \<open>Store_Public\<close> (the files of these
    names), \<open>Rows\<close> (the columns that the statements bind and the scan functions read, by position),
    \<open>Db_Handle\<close> (\<open>db.go\<close>), \<open>Migrations\<close> (\<open>migrate.go\<close>); \<open>Integrity\<close> is the
    invariant that every transaction keeps, and \<open>Evolution\<close> the way the tables may grow.
  \<^item> \<open>internal/clock\<close>: \<open>Clock\<close>. \<open>internal/content\<close>: \<open>Slug\<close>, \<open>Service\<close>.
    \<open>internal/scheduler\<close>: \<open>Worker\<close>, and \<open>Worker_Live\<close> for what a tick achieves.
  \<^item> \<open>internal/config\<close>: \<open>Config\<close>. \<open>cmd/server\<close>: \<open>Server_Main\<close>.
  \<^item> \<open>internal/httpapi\<close>: \<open>Etag\<close> (\<open>etag.go\<close>), \<open>Json_Input\<close> (request structs), \<open>Http\<close> (wire types,
    errors, authentication, the helpers of \<open>admin.go\<close>), \<open>Admin_Api\<close>, \<open>Public_Api\<close> (handlers),
    \<open>Router\<close>, \<open>Middleware\<close> (\<open>middleware.go\<close>, on response writers and panics), \<open>Json_Output\<close> (the
    JSON value of each response body).
  \<^item> \<open>internal/testutil\<close>: \<open>Harness\<close>, the client of the service that its tests are written with: its
    requests go through the router, its answers through JSON into its own structs.
  \<^item> Composition: \<open>System\<close>, any number of processes over one database as a step relation whose steps
    are the transactions, with crashes between any two of them; \<open>Abstraction\<close>, documents without rows
    and ids as the specification of the service.
  \<^item> Properties: here those of the running system; \<open>Schedule_Laws\<close> (worker and schedules),
    \<open>Content_Laws\<close> (documents and validation), \<open>Http_Laws\<close> (traffic and access), \<open>Edit_Laws\<close>
    (optimistic locking over HTTP), \<open>Response_Laws\<close>, \<open>Contract_Laws\<close> (what answers mean),
    \<open>Public_Laws\<close> (the public side), \<open>Sitemap_Laws\<close> (the sitemap, followed through the router),
    \<open>Journey_Laws\<close> (request, worker and reader together),
    \<open>Scenario_Laws\<close> (a scheduled publish from end to end, as the tests play it),
    \<open>Boot_Laws\<close> (configuration, start and stop), \<open>Races\<close> (several clients that want the same),
    \<open>Robust_Laws\<close> (panics, and the end of the worker's loop), \<open>Typed_Laws\<close> (the type of every answer),
    \<open>Privacy_Laws\<close> (what a client without the token can tell apart), \<open>Client_Laws\<close> (create, and read and
    save back, as a client sees them over JSON). \<open>Tokens\<close>, \<open>Reads\<close> and \<open>Wire_Laws\<close> (encoding and
    decoding, which route a path takes) hold the lemmas they share, \<open>Examples\<close> the history the witnesses evaluate, and
    \<open>Divergences\<close> behaviour that comments or purpose do not lead one to expect.

  \<^bold>\<open>Interfaces.\<close> \<open>table\<close> states what an insert into a table with a key promises; the four tables are
  instances, documents once by id and once by slug. \<open>invariant_system\<close> states what makes a predicate
  an invariant of a step relation and an order respected by it; the system is an instance. \<open>simulation\<close> lifts the refinement of single
  operations to sequences; the service is an instance. \<open>chi\<close> states what the program relies on of the
  router library; the first matching route of the table is an instance, so the assumptions can hold.
  \<open>contended\<close> states why at most one of many clients wins a race among other steps of the system;
  updates with one tag, creates of one slug and cancellations of one schedule are instances.
  \<open>serialized\<close> states why without other steps the first of them wins and the rest are told so.
  \<open>row_codec\<close> states that a scan reads the row that was stored, so that a query by columns is the query
  on records; each scan function of the store, with its column list, is an instance.

  \<^bold>\<open>What is shown.\<close> In every reachable state, whatever failed, crashed or ran twice: the integrity
  invariant, at most one event per schedule and exactly one for a finished one, no public read of a
  version that is not the published one, history only appended. Every sequence of HTTP requests is
  such a run. A stale edit is refused and told so, and one with the wildcard never overwrites a save
  made while it ran; nothing changes without the administrator's token.
  Of the clients that race for a version, a slug or a schedule one wins at most. Somebody without the
  token cannot tell two databases apart that agree on what is published. Every answer has the type of
  its endpoint, also when a handler panics, and the worker returns when it is told to.
  Without driver failures the service implements its specification, the public endpoints show what
  the specification has as live, and one tick publishes what is due: what a client saved and
  scheduled through the API is public after the first tick past its time, however many workers
  tick and readers ask before. The paths of the sitemap's URLs are answered with the pages of
  their documents, except \<open>/healthz\<close>, a valid slug that the health check hides. A claim marks exactly
  the rows it hands out; a job whose publish fails is pending again, without lease.

  \<^bold>\<open>Bounds.\<close> Recursion is structural or has a measure; no fuel is used. The worker's endless loop is
  run over the list of its wake-ups. Counters are int64: the refinement asks for room for as many
  rows as there are calls (\<open>ready\<close>). Timestamps survive printing and parsing for the years 0 to 9999,
  where the four-digit year of RFC 3339 ends. A sitemap is complete up to 50000 entries, the limit of
  the code, and its URLs are followed under a base URL that leads to the root of the router. Slugs and fields have the limits of the code.

  \<^bold>\<open>Parameters.\<close> The driver's failures and their texts, the planner, \<open>time.ParseDuration\<close>,
  \<open>filepath.Dir\<close>, the choice of a route by chi and its answer when there is none, the JSON scanner (a
  request body is a JSON value, a syntax error, or too large), the splitting of a URL into path and
  query, the texts of JSON type errors, whether
  the page template renders, and the identifiers of \<open>uuid.NewString\<close>.

  \<^bold>\<open>Not modelled.\<close> The driver and SQLite beyond the statements used; what goose does
  when called; the rendering of log lines, which only \<open>Middleware\<close> has as values; contexts, whose
  expiry is a failing driver call; what \<open>net/http\<close> does with its timeouts; the bytes that
  \<open>encoding/json\<close>, \<open>encoding/xml\<close> and \<open>html/template\<close> write for a value; the timing of the token
  comparison; of the test harness the timer of \<open>WaitFor\<close>, whose polls are an argument, and the SQL
  text that \<open>CountRows\<close> is given, which is a count over the tables.
\<close>

section \<open>Properties of the running system\<close>

text \<open>
  C1. A scheduled publish happens exactly once: in every reachable state, whatever crashed, failed
  or ran twice, a schedule has one audit event if it is done and none otherwise, and that event
  publishes the version the schedule names, of the document it names.
\<close>

theorem exactly_once:
  assumes "reachable ident s" "x \<in> set (schedules (sys_db s))"
  shows "length (events_of_schedule (sys_db s) (s_id x)) =
      (if s_status x = ScheduleDone then 1 else 0) \<and>
    (\<forall>e \<in> set (events_of_schedule (sys_db s) (s_id x)). event_for x e)"
proof -
  have ok: "db_ok (sys_db s)" using assms(1) by (rule reachable_db_ok)
  have "event_for x e" if e: "e \<in> set (events_of_schedule (sys_db s) (s_id x))" for e
  proof -
    from e obtain y where "y \<in> set (schedules (sys_db s))" "s_id y = s_id x" "event_for y e"
      using schedule_event_status [OF ok] by (auto simp: events_of_schedule_def)
    with assms(2) ok show ?thesis
      by (auto simp: db_ok_def schedules_ok_def dest: distinct_key_eq)
  qed
  with assms(2) ok show ?thesis by (simp add: db_ok_def done_ok_def)
qed

theorem exactly_once_witness:
  "length (events_of_schedule ticked_db ''s1'') = 1 \<and> event_for (hd (schedules ticked_db)) event2"
  using exactly_once [OF reachable_ticked, of "hd (schedules ticked_db)"]
  by (simp add: ticked_db_eq events_of_schedule_def event1_def event2_def schedule1_def
      new_schedule_def)

text \<open>
  C2. No draft leaks: whatever a reader gets under a slug is, in every reachable state, a saved
  version of the document with that slug, and the last event of that document is the publish of
  exactly this version.
\<close>

theorem no_draft_leaks:
  assumes "reachable ident s" "tables w = sys_db s"
    and "service_get_public_by_slug slug w = (Inr p, w')"
  shows "\<exists>c \<in> set (contents (sys_db s)). \<exists>v \<in> set (history (sys_db s) (c_id c)). \<exists>es e.
    c_slug c = slug \<and> p_slug p = slug \<and> p_fields p = v_fields v \<and> p_title p = f_title (v_fields v) \<and>
    p_body p = f_body (v_fields v) \<and>
    events_of (sys_db s) (c_id c) = es @ [e] \<and> e_action e = ActionPublish \<and>
    e_version_id e = Some (v_id v)"
proof -
  let ?d = "sys_db s"
  have ok: "db_ok ?d" using assms(1) by (rule reachable_db_ok)
  from get_public_effect [OF assms(3) [unfolded service_get_public_by_slug_def]] assms(2)
  obtain c v where j: "(c, v) \<in> set (published_join ?d)" "c_slug c = slug" "p = public_of c v" by auto
  then have c: "c \<in> set (contents ?d)" "v \<in> set (versions ?d)"
    and ptr: "c_published_version_id c = Some (v_id v)"
    by (simp_all add: published_join_iff)
  from published_pointer [OF ok c(1) ptr] have v: "v \<in> set (history ?d (c_id c))"
    using c(2) ok by (auto simp: history_def db_ok_find_version db_ok_def version_keys_ok_def
        dest: distinct_key_eq)
  have "replay (events_of ?d (c_id c)) = Some (v_id v)"
    using ok c ptr by (simp add: db_ok_def audit_ok_def)
  from replay_SomeD [OF this] c v j show ?thesis
    by (auto simp: public_of_def)
qed

theorem no_draft_leaks_witness:
  "\<exists>c \<in> set (contents ticked_db). \<exists>v \<in> set (history ticked_db (c_id c)). \<exists>es e.
    c_slug c = ''hello'' \<and> ''two'' = f_title (v_fields v) \<and>
    events_of ticked_db (c_id c) = es @ [e] \<and> e_version_id e = Some (v_id v)"
proof -
  let ?p = "public_of (doc1 2 (Some 2) (Some 100) 100) (versions1 ! 1)"
  have "service_get_public_by_slug ''hello'' (world_of ticked_db 0) =
      (Inr ?p, world_of ticked_db 0)"
    unfolding ticked_db_eq by code_simp
  from no_draft_leaks [OF reachable_ticked _ this] show ?thesis
    by (auto simp: public_of_def doc1_def versions1_def draft_def)
qed

text \<open>
  C14. The integrity invariant holds in every reachable state: version histories without gaps,
  pointers and schedules into the same document, a lease exactly on claimed schedules, one event
  exactly for done schedules, and an audit trail that replays to the published pointer.
\<close>

theorem reachable_integrity: "reachable ident s \<Longrightarrow> db_ok (sys_db s)"
  by (rule reachable_db_ok)

theorem reachable_integrity_witness: "db_ok ticked_db"
  using reachable_integrity [OF reachable_ticked] by simp

text \<open>
  No update is lost: after an update was accepted for some expected version, every later update
  of the same document that expects the same version is refused, however many steps lie between;
  without a driver failure and with valid fields the refusal is the version conflict.
\<close>

theorem no_lost_update:
  assumes "reachable ident s" "tables w = sys_db s" "service_update i w = (Inr out, w1)"
    and "(sys_step ident)\<^sup>*\<^sup>* (s\<lparr>sys_db := tables w1\<rparr>) t" "tables w2 = sys_db t"
    and "ui_id i' = ui_id i" "ui_expected_version i' = ui_expected_version i"
    and "service_update i' w2 = (r, w3)"
  shows "(\<exists>err. r = Inl err) \<and> tables w3 = sys_db t \<and>
    (faults w2 = [] \<and> normalize_fields (ui_fields i') = Inr f \<longrightarrow> r = Inl ErrVersionConflict)"
proof -
  obtain c where c: "find_content (sys_db t) (ui_id i') = Some c" "ui_expected_version i' < c_current_version c"
    and ok: "db_ok (sys_db t)"
    using token_passed [OF assms(1-4)] assms(6,7) by auto
  from stale_update_refused [of w2 i' c] c ok assms(5,8)
  have "(\<exists>err. r = Inl err) \<and> tables w3 = sys_db t" by fastforce
  moreover have "r = Inl ErrVersionConflict"
    if "faults w2 = []" "normalize_fields (ui_fields i') = Inr f"
    using stale_update_conflict [of w2 i' c f] that c ok assms(5,8) by fastforce
  ultimately show ?thesis by blast
qed

theorem no_lost_update_witness:
  "fst (service_update
      \<lparr>ui_id = ''d1'', ui_expected_version = 2, ui_fields = draft ''mine'', ui_actor = ''bo''\<rparr>
      (world_of (tables (snd (service_update
        \<lparr>ui_id = ''d1'', ui_expected_version = 2, ui_fields = draft ''yours'', ui_actor = ''ana''\<rparr>
        (world_of edited_db 0)))) 0)) = Inl ErrVersionConflict"
proof -
  let ?yours = "\<lparr>ui_id = ''d1'', ui_expected_version = 2, ui_fields = draft ''yours'', ui_actor = ''ana''\<rparr>"
  let ?mine = "\<lparr>ui_id = ''d1'', ui_expected_version = 2, ui_fields = draft ''mine'', ui_actor = ''bo''\<rparr>"
  let ?w = "world_of edited_db 0"
  obtain r1 w1 where run1: "service_update ?yours ?w = (r1, w1)" by fastforce
  obtain r2 w3 where run2: "service_update ?mine (world_of (tables w1) 0) = (r2, w3)" by fastforce
  have "\<not> isl (fst (service_update ?yours ?w))"
    unfolding edited_db_eq by code_simp
  then obtain out where "r1 = Inr out" using run1 by (cases r1) simp_all
  with run1 have run1': "service_update ?yours ?w = (Inr out, w1)" by simp
  have f: "normalize_fields (ui_fields ?mine) = Inr (draft ''mine'')" by code_simp
  have "faults (world_of (tables w1) 0) = [] \<and> normalize_fields (ui_fields ?mine) = Inr (draft ''mine'')
      \<longrightarrow> r2 = Inl ErrVersionConflict"
    using no_lost_update [where ident = one_id and f = "draft ''mine''",
        OF reachable_edited _ run1' rtranclp.rtrancl_refl _ _ _ run2] by (simp del: split_paired_Ex)
  then have "r2 = Inl ErrVersionConflict" using f by (simp only: world_of_sel)
  then show ?thesis by (simp only: run1 run2 fst_conv snd_conv)
qed

text \<open>
  C15. Nothing published or saved is ever rewritten: along every run the version table and the event
  table only grow at the end, and every document keeps its id, slug and creation time, with a token
  that never goes down.
\<close>

theorem append_only:
  assumes "reachable ident s" "(sys_step ident)\<^sup>*\<^sup>* s t"
  shows "(\<exists>vs. versions (sys_db t) = versions (sys_db s) @ vs) \<and>
    (\<exists>es. events (sys_db t) = events (sys_db s) @ es) \<and>
    (\<forall>c \<in> set (contents (sys_db s)). \<exists>c' \<in> set (contents (sys_db t)).
       c_id c' = c_id c \<and> c_slug c' = c_slug c \<and> c_created_at c' = c_created_at c \<and>
       c_current_version c \<le> c_current_version c')"
proof -
  have ev: "evolves (sys_db s) (sys_db t)"
    using steps_evolve [OF assms] by simp
  then have "rows_evolve content_evolves (contents (sys_db s)) (contents (sys_db t))"
    by (simp add: evolves_def)
  from rows_evolve_in [OF this] have
    "\<forall>c \<in> set (contents (sys_db s)). \<exists>c' \<in> set (contents (sys_db t)). content_evolves c c'"
    by blast
  with evolves_versions [OF ev] evolves_events [OF ev] show ?thesis
    by (simp add: content_evolves_def)
qed

theorem append_only_witness:
  "\<exists>es. events ticked_db = events edited_db @ es \<and> es \<noteq> []"
  using append_only [OF reachable_edited edited_steps_ticked]
  by (auto simp: ticked_db_eq edited_db_eq)

end
